theory Spec2Isabelle
  imports Complex_Main
begin

section \<open>Data model\<close>

text \<open>
  The records follow the interfaces of the application context. A JavaScript
  \<^verbatim>\<open>number\<close> is idealised as a \<^typ>\<open>real\<close> (project numbers, which the code only
  ever produces by counting, as \<^typ>\<open>int\<close>); an optional field is an \<^typ>\<open>'a option\<close>;
  a union of string literals is the \<^typ>\<open>string\<close> it is at run time (the CSV import
  stores whatever text the file holds). Field names carry a prefix per interface,
  because several interfaces share field names.
\<close>

abbreviation material_bruto :: string where "material_bruto \<equiv> ''material_bruto''"
abbreviation parte_produto :: string where "parte_produto \<equiv> ''parte_produto''"
abbreviation produto_pronto :: string where "produto_pronto \<equiv> ''produto_pronto''"
abbreviation orcamento :: string where "orcamento \<equiv> ''orcamento''"
abbreviation aprovado :: string where "aprovado \<equiv> ''aprovado''"
abbreviation em_producao :: string where "em_producao \<equiv> ''em_producao''"
abbreviation concluido :: string where "concluido \<equiv> ''concluido''"
abbreviation entregue :: string where "entregue \<equiv> ''entregue''"
abbreviation venda :: string where "venda \<equiv> ''venda''"
abbreviation entrada :: string where "entrada \<equiv> ''entrada''"
abbreviation saida :: string where "saida \<equiv> ''saida''"

record address =
  country :: string
  state :: string
  city :: string
  zipCode :: string
  neighborhood :: string
  streetType :: string
  street :: string

record client =
  c_id :: string
  c_name :: string
  c_type :: string
  c_cpf :: "string option"
  c_cnpj :: "string option"
  c_email :: string
  c_phone :: string
  c_mobile :: string
  c_razao_social :: "string option"
  c_inscricao_estadual :: "string option"
  c_isento_icms :: "bool option"
  c_numero :: "string option"
  c_complemento :: "string option"
  c_id_empresa :: "string option"
  c_fl_ativo :: bool
  c_address :: address
  c_created_at :: string
  c_total_projects :: "real option"
  c_total_value :: "real option"

record product_component =
  pc_product_id :: string
  pc_product_name :: string
  pc_quantity :: real
  pc_unit :: string
  pc_unit_cost :: real
  pc_total_cost :: real

record product =
  p_id :: string
  p_name :: string
  p_description :: string
  p_category :: string
  p_type :: string
  p_unit :: string
  p_components :: "product_component list"
  p_cost_price :: real
  p_sale_price :: "real option"
  p_current_stock :: real
  p_min_stock :: real
  p_supplier :: "string option"
  p_created_at :: string

record project_product =
  pp_id :: string
  pp_product_id :: string
  pp_product_name :: string
  pp_quantity :: real
  pp_unit_price :: real
  pp_total_price :: real

record payment_terms =
  installments :: real
  payment_method :: string
  discount_percentage :: real
  installment_value :: "real option"
  total_with_discount :: "real option"

record project =
  pr_id :: string
  pr_number :: int
  pr_client_id :: string
  pr_client_name :: "string option"
  pr_title :: string
  pr_description :: string
  pr_status :: string
  pr_type :: string
  pr_products :: "project_product list"
  pr_budget :: real
  pr_start_date :: string
  pr_end_date :: string
  pr_created_at :: string
  pr_materials_cost :: "real option"
  pr_labor_cost :: "real option"
  pr_profit_margin :: "real option"
  pr_payment_terms :: "payment_terms option"

text \<open>
  \<^verbatim>\<open>Partial<Project>\<close>: a field the caller left out is \<open>None\<close>. (An optional field
  can be set but not cleared; an update that passes \<^verbatim>\<open>undefined\<close> explicitly is
  not modelled.)
\<close>

record project_updates =
  u_id :: "string option"
  u_number :: "int option"
  u_client_id :: "string option"
  u_client_name :: "string option"
  u_title :: "string option"
  u_description :: "string option"
  u_status :: "string option"
  u_type :: "string option"
  u_products :: "project_product list option"
  u_budget :: "real option"
  u_start_date :: "string option"
  u_end_date :: "string option"
  u_created_at :: "string option"
  u_materials_cost :: "real option"
  u_labor_cost :: "real option"
  u_profit_margin :: "real option"
  u_payment_terms :: "payment_terms option"

record transaction =
  t_id :: string
  t_project_id :: "string option"
  t_project_title :: "string option"
  t_type :: string
  t_category :: string
  t_description :: string
  t_amount :: real
  t_date :: string
  t_created_at :: string

record stock_movement =
  sm_id :: string
  sm_product_id :: string
  sm_product_name :: string
  sm_type :: string
  sm_quantity :: real
  sm_unit_price :: "real option"
  sm_total_value :: "real option"
  sm_project_id :: "string option"
  sm_project_title :: "string option"
  sm_date :: string
  sm_created_at :: string

text \<open>
  The five collections of the provider. \<open>id_calls\<close> is not a field of the source: it
  counts the calls of \<^verbatim>\<open>generateId\<close> so far, so that the environment can hand out
  the identifier of each call.
\<close>

record app_state =
  clients :: "client list"
  projects :: "project list"
  transactions :: "transaction list"
  products :: "product list"
  stockMovements :: "stock_movement list"
  id_calls :: nat

text \<open>
  What the code reads from the platform: the clock (\<^verbatim>\<open>new Date().toISOString()\<close> and
  its date part) and the identifiers \<^verbatim>\<open>generateId\<close> returns (a time stamp and a random
  suffix in the source), the \<open>n\<close>-th call returning \<open>new_id n\<close>.
\<close>

record env =
  now_iso :: string
  today :: string
  new_id :: "nat \<Rightarrow> string"

datatype error = CircularReference | ProductInUse

section \<open>The store's operations\<close>

text \<open>
  An operation reads the collections from the closure of the render that created it
  and writes through \<^verbatim>\<open>setX(prev => ...)\<close>, which is applied to the latest state in
  program order. Unless said otherwise an operation is modelled as called from the
  render of the committed state: the collections it reads are those of the state it
  starts from. Where one operation calls another several times (the import loops), the
  calls share the collections of the render the loop started in.
\<close>

definition generateId :: "env \<Rightarrow> app_state \<Rightarrow> string \<times> app_state" where
  "generateId e s = (new_id e (id_calls s), s\<lparr>id_calls := Suc (id_calls s)\<rparr>)"

definition addClient :: "env \<Rightarrow> client \<Rightarrow> app_state \<Rightarrow> app_state" where
  "addClient e clientData s =
     (let (i, s1) = generateId e s;
          newClient = clientData\<lparr>c_id := i, c_created_at := now_iso e\<rparr>
      in s1\<lparr>clients := newClient # clients s1\<rparr>)"

definition addTransaction :: "env \<Rightarrow> transaction \<Rightarrow> app_state \<Rightarrow> app_state" where
  "addTransaction e transactionData s =
     (let (i, s1) = generateId e s;
          newTransaction = transactionData\<lparr>t_id := i, t_created_at := now_iso e\<rparr>
      in s1\<lparr>transactions := newTransaction # transactions s1\<rparr>)"

definition addStockMovement :: "env \<Rightarrow> stock_movement \<Rightarrow> app_state \<Rightarrow> app_state" where
  "addStockMovement e movementData s =
     (let (i, s1) = generateId e s;
          newMovement = movementData\<lparr>sm_id := i, sm_created_at := now_iso e\<rparr>;
          s2 = s1\<lparr>stockMovements := newMovement # stockMovements s1\<rparr>
      in s2\<lparr>products := map (\<lambda>p.
            if p_id p = sm_product_id movementData
            then p\<lparr>p_current_stock :=
                   (if sm_type movementData = entrada
                    then p_current_stock p + sm_quantity movementData
                    else p_current_stock p - sm_quantity movementData)\<rparr>
            else p) (products s2)\<rparr>)"

text \<open>The movement of the sold product, and the one of a component of it.\<close>

definition sale_movement :: "env \<Rightarrow> string \<Rightarrow> product \<Rightarrow> project_product \<Rightarrow> stock_movement" where
  "sale_movement e projectId prd projectProduct =
     \<lparr>sm_id = [], sm_product_id = p_id prd, sm_product_name = p_name prd,
      sm_type = saida, sm_quantity = pp_quantity projectProduct,
      sm_unit_price = Some (pp_unit_price projectProduct),
      sm_total_value = Some (pp_total_price projectProduct),
      sm_project_id = Some projectId, sm_project_title = None,
      sm_date = today e, sm_created_at = []\<rparr>"

definition component_movement ::
  "env \<Rightarrow> string \<Rightarrow> project_product \<Rightarrow> product_component \<Rightarrow> stock_movement" where
  "component_movement e projectId projectProduct component =
     \<lparr>sm_id = [], sm_product_id = pc_product_id component,
      sm_product_name = pc_product_name component,
      sm_type = saida,
      sm_quantity = pc_quantity component * pp_quantity projectProduct,
      sm_unit_price = Some (pc_unit_cost component),
      sm_total_value = Some (pc_total_cost component * pp_quantity projectProduct),
      sm_project_id = Some projectId, sm_project_title = None,
      sm_date = today e, sm_created_at = []\<rparr>"

text \<open>
  The inner loop over the components and the outer loop over the line items.
  \<open>catalog\<close> is the \<^verbatim>\<open>products\<close> collection the closure holds, the one of the state
  the operation started from.
\<close>

fun component_loop ::
  "env \<Rightarrow> string \<Rightarrow> project_product \<Rightarrow> product_component list \<Rightarrow> app_state \<Rightarrow> app_state" where
  "component_loop e projectId projectProduct [] s = s"
| "component_loop e projectId projectProduct (component # rest) s =
     component_loop e projectId projectProduct rest
       (addStockMovement e (component_movement e projectId projectProduct component) s)"

fun process_loop ::
  "env \<Rightarrow> product list \<Rightarrow> string \<Rightarrow> project_product list \<Rightarrow> app_state \<Rightarrow> app_state" where
  "process_loop e catalog projectId [] s = s"
| "process_loop e catalog projectId (projectProduct # rest) s =
     process_loop e catalog projectId rest
       (case find (\<lambda>p. p_id p = pp_product_id projectProduct) catalog of
          None \<Rightarrow> s
        | Some prd \<Rightarrow>
            (let s1 = addStockMovement e (sale_movement e projectId prd projectProduct) s
             in if p_type prd \<noteq> material_bruto
                then component_loop e projectId projectProduct (p_components prd) s1
                else s1))"

definition processProjectStockMovement ::
  "env \<Rightarrow> string \<Rightarrow> project_product list \<Rightarrow> app_state \<Rightarrow> app_state" where
  "processProjectStockMovement e projectId projectProducts s =
     process_loop e (products s) projectId projectProducts s"

text \<open>Decimal digits of a number, for the descriptions the code builds.\<close>

fun string_of_nat :: "nat \<Rightarrow> string" where
  "string_of_nat n =
     (if n < 10 then [''0123456789'' ! n]
      else string_of_nat (n div 10) @ [''0123456789'' ! (n mod 10)])"

declare string_of_nat.simps [simp del]

definition string_of_int :: "int \<Rightarrow> string" where
  "string_of_int i = (if i < 0 then CHR ''-'' # string_of_nat (nat (- i)) else string_of_nat (nat i))"

text \<open>
  \<^verbatim>\<open>addProject\<close> as the closure of one render runs it: \<open>seen\<close> and \<open>catalog\<close> are
  the \<^verbatim>\<open>projects\<close> and \<^verbatim>\<open>products\<close> collections that render holds, which the number
  and the stock cascade are computed from; the state is what the updates are applied to.
\<close>

definition addProject_in ::
  "env \<Rightarrow> project list \<Rightarrow> product list \<Rightarrow> project \<Rightarrow> app_state \<Rightarrow> app_state" where
  "addProject_in e seen catalog projectData s =
     (let projectNumber =
            (case map pr_number seen of
               [] \<Rightarrow> 1
             | n # ns \<Rightarrow> fold max ns n + 1);
          (i, s1) = generateId e s;
          newProject = projectData\<lparr>pr_id := i, pr_number := projectNumber,
                                   pr_created_at := now_iso e\<rparr>;
          s2 = s1\<lparr>projects := newProject # projects s1\<rparr>
      in if pr_type projectData = venda \<and> pr_status projectData \<noteq> orcamento
         then
           (let signalAmount = pr_budget projectData * 0.5;
                s3 = addTransaction e
                       \<lparr>t_id = [], t_project_id = Some i,
                        t_project_title = Some (pr_title projectData),
                        t_type = entrada, t_category = ''Sinal'',
                        t_description = ''Sinal do projeto #'' @ string_of_int projectNumber
                                          @ '' - '' @ pr_title projectData,
                        t_amount = signalAmount, t_date = today e, t_created_at = []\<rparr> s2
            in if pr_products projectData \<noteq> []
               then process_loop e catalog i (pr_products projectData) s3
               else s3)
         else s2)"

text \<open>A call from the render of the committed state.\<close>

definition addProject :: "env \<Rightarrow> project \<Rightarrow> app_state \<Rightarrow> app_state" where
  "addProject e projectData s = addProject_in e (projects s) (products s) projectData s"

definition apply_updates :: "project \<Rightarrow> project_updates \<Rightarrow> project" where
  "apply_updates p u =
     p\<lparr>pr_id := (case u_id u of None \<Rightarrow> pr_id p | Some v \<Rightarrow> v),
       pr_number := (case u_number u of None \<Rightarrow> pr_number p | Some v \<Rightarrow> v),
       pr_client_id := (case u_client_id u of None \<Rightarrow> pr_client_id p | Some v \<Rightarrow> v),
       pr_client_name := (case u_client_name u of None \<Rightarrow> pr_client_name p | Some v \<Rightarrow> Some v),
       pr_title := (case u_title u of None \<Rightarrow> pr_title p | Some v \<Rightarrow> v),
       pr_description := (case u_description u of None \<Rightarrow> pr_description p | Some v \<Rightarrow> v),
       pr_status := (case u_status u of None \<Rightarrow> pr_status p | Some v \<Rightarrow> v),
       pr_type := (case u_type u of None \<Rightarrow> pr_type p | Some v \<Rightarrow> v),
       pr_products := (case u_products u of None \<Rightarrow> pr_products p | Some v \<Rightarrow> v),
       pr_budget := (case u_budget u of None \<Rightarrow> pr_budget p | Some v \<Rightarrow> v),
       pr_start_date := (case u_start_date u of None \<Rightarrow> pr_start_date p | Some v \<Rightarrow> v),
       pr_end_date := (case u_end_date u of None \<Rightarrow> pr_end_date p | Some v \<Rightarrow> v),
       pr_created_at := (case u_created_at u of None \<Rightarrow> pr_created_at p | Some v \<Rightarrow> v),
       pr_materials_cost := (case u_materials_cost u of None \<Rightarrow> pr_materials_cost p | Some v \<Rightarrow> Some v),
       pr_labor_cost := (case u_labor_cost u of None \<Rightarrow> pr_labor_cost p | Some v \<Rightarrow> Some v),
       pr_profit_margin := (case u_profit_margin u of None \<Rightarrow> pr_profit_margin p | Some v \<Rightarrow> Some v),
       pr_payment_terms := (case u_payment_terms u of None \<Rightarrow> pr_payment_terms p | Some v \<Rightarrow> Some v)\<rparr>"

definition final_payment :: "env \<Rightarrow> string \<Rightarrow> project \<Rightarrow> transaction" where
  "final_payment e ident proj =
     \<lparr>t_id = [], t_project_id = Some ident,
      t_project_title = Some (pr_title proj),
      t_type = entrada, t_category = ''Pagamento Final'',
      t_description = ''Pagamento final - Projeto #'' @ string_of_int (pr_number proj),
      t_amount = pr_budget proj * 0.5, t_date = today e, t_created_at = []\<rparr>"

definition updateProject :: "env \<Rightarrow> string \<Rightarrow> project_updates \<Rightarrow> app_state \<Rightarrow> app_state" where
  "updateProject e ident updates s =
     (let found = find (\<lambda>p. pr_id p = ident) (projects s);
          s1 = s\<lparr>projects := map (\<lambda>p. if pr_id p = ident then apply_updates p updates else p)
                                 (projects s)\<rparr>
      in case found of
           None \<Rightarrow> s1
         | Some proj \<Rightarrow>
             if u_status updates = Some concluido \<and> pr_status proj \<noteq> concluido
             then addTransaction e (final_payment e ident proj) s1
             else s1)"

definition deleteProject :: "string \<Rightarrow> app_state \<Rightarrow> app_state" where
  "deleteProject ident s =
     s\<lparr>projects := filter (\<lambda>p. pr_id p \<noteq> ident) (projects s),
       transactions := filter (\<lambda>t. t_project_id t \<noteq> Some ident) (transactions s),
       stockMovements := filter (\<lambda>sm. sm_project_id sm \<noteq> Some ident) (stockMovements s)\<rparr>"

section \<open>The product catalog\<close>

text \<open>
  A loop that asks \<open>chk\<close> about each component in turn and stops at the first
  \<^verbatim>\<open>true\<close>: the \<^verbatim>\<open>for ... of\<close> loops of \<^verbatim>\<open>checkCircularReference\<close>,
  \<^verbatim>\<open>addProduct\<close> and \<^verbatim>\<open>updateProduct\<close>. \<open>None\<close> is a check that does not return.
\<close>

fun some_component :: "(string \<Rightarrow> bool option) \<Rightarrow> product_component list \<Rightarrow> bool option" where
  "some_component chk [] = Some False"
| "some_component chk (component # rest) =
     (case chk (pc_product_id component) of
        None \<Rightarrow> None
      | Some True \<Rightarrow> Some True
      | Some False \<Rightarrow> some_component chk rest)"

text \<open>
  \<^verbatim>\<open>checkCircularReference\<close> recurses with no visited set, so it need not return.
  The first argument bounds the depth of the recursion; \<open>None\<close> says the bound was
  reached. A call that returns \<open>None\<close> at every bound is a call that never returns.
\<close>

fun checkCircularReference :: "nat \<Rightarrow> product list \<Rightarrow> string \<Rightarrow> string \<Rightarrow> bool option" where
  "checkCircularReference 0 catalog productId componentId = None"
| "checkCircularReference (Suc n) catalog productId componentId =
     (if productId = componentId then Some True
      else case find (\<lambda>p. p_id p = componentId) catalog of
             None \<Rightarrow> Some False
           | Some prd \<Rightarrow>
               some_component (\<lambda>c. checkCircularReference n catalog productId c)
                 (p_components prd))"

declare checkCircularReference.simps [simp del]

definition insertProduct :: "env \<Rightarrow> product \<Rightarrow> app_state \<Rightarrow> app_state" where
  "insertProduct e productData s =
     (let (i, s1) = generateId e s;
          newProduct = productData\<lparr>p_id := i, p_created_at := now_iso e\<rparr>
      in s1\<lparr>products := newProduct # products s1\<rparr>)"

definition addProduct :: "nat \<Rightarrow> env \<Rightarrow> product \<Rightarrow> app_state \<Rightarrow> (error + app_state) option" where
  "addProduct fuel e productData s =
     (if p_components productData \<noteq> []
      then
        (let (tempId, s1) = generateId e s
         in case some_component (checkCircularReference fuel (products s) tempId)
                   (p_components productData) of
              None \<Rightarrow> None
            | Some True \<Rightarrow> Some (Inl CircularReference)
            | Some False \<Rightarrow> Some (Inr (insertProduct e productData s1)))
      else Some (Inr (insertProduct e productData s)))"

definition replaceProduct :: "product \<Rightarrow> app_state \<Rightarrow> app_state" where
  "replaceProduct prd s =
     s\<lparr>products := map (\<lambda>p. if p_id p = p_id prd then prd else p) (products s)\<rparr>"

definition updateProduct :: "nat \<Rightarrow> product \<Rightarrow> app_state \<Rightarrow> (error + app_state) option" where
  "updateProduct fuel prd s =
     (if p_components prd \<noteq> []
      then
        (case some_component (checkCircularReference fuel (products s) (p_id prd))
                (p_components prd) of
           None \<Rightarrow> None
         | Some True \<Rightarrow> Some (Inl CircularReference)
         | Some False \<Rightarrow> Some (Inr (replaceProduct prd s)))
      else Some (Inr (replaceProduct prd s)))"

definition deleteProduct :: "string \<Rightarrow> app_state \<Rightarrow> error + app_state" where
  "deleteProduct ident s =
     (let usedIn = list_ex (\<lambda>p. list_ex (\<lambda>c. pc_product_id c = ident) (p_components p))
                     (products s)
      in if usedIn then Inl ProductInUse
         else Inr (s\<lparr>products := filter (\<lambda>p. p_id p \<noteq> ident) (products s)\<rparr>))"

text \<open>
  \<^verbatim>\<open>calculateProductCost\<close>: the loop adds \<open>componentCost * quantity\<close> to the running
  total; the recursion is bounded in depth as above.
\<close>

fun cost_loop :: "(string \<Rightarrow> real option) \<Rightarrow> product_component list \<Rightarrow> real \<Rightarrow> real option" where
  "cost_loop cost [] totalCost = Some totalCost"
| "cost_loop cost (component # rest) totalCost =
     (case cost (pc_product_id component) of
        None \<Rightarrow> None
      | Some componentCost \<Rightarrow>
          cost_loop cost rest (totalCost + componentCost * pc_quantity component))"

fun calculateProductCost :: "nat \<Rightarrow> product list \<Rightarrow> string \<Rightarrow> real option" where
  "calculateProductCost 0 catalog productId = None"
| "calculateProductCost (Suc n) catalog productId =
     (case find (\<lambda>p. p_id p = productId) catalog of
        None \<Rightarrow> Some 0
      | Some prd \<Rightarrow>
          if p_type prd = material_bruto then Some (p_cost_price prd)
          else cost_loop (\<lambda>c. calculateProductCost n catalog c) (p_components prd) 0)"

declare calculateProductCost.simps [simp del]

section \<open>The component graph, as the specification words it\<close>

text \<open>
  An edge leads from a product identifier to the identifier of each component of the
  product the catalog finds under it (the first one with that identifier).
  \<open>reaches catalog a b\<close>: \<open>b\<close> is \<open>a\<close> or is transitively reachable from \<open>a\<close>.
  \<open>reachable_edges catalog start\<close> are the edges that leave a node \<open>start\<close> reaches:
  the part of the graph a traversal from \<open>start\<close> can see.
\<close>

definition component_edges :: "product list \<Rightarrow> (string \<times> string) set" where
  "component_edges catalog =
     {(a, b). \<exists>prd. find (\<lambda>p. p_id p = a) catalog = Some prd \<and>
                    b \<in> pc_product_id ` set (p_components prd)}"

definition reaches :: "product list \<Rightarrow> string \<Rightarrow> string \<Rightarrow> bool" where
  "reaches catalog a b \<longleftrightarrow> a = b \<or> (a, b) \<in> (component_edges catalog)\<^sup>+"

definition reachable_edges :: "product list \<Rightarrow> string \<Rightarrow> (string \<times> string) set" where
  "reachable_edges catalog start =
     {(a, b). reaches catalog start a \<and> (a, b) \<in> component_edges catalog}"

section \<open>The dashboard\<close>

text \<open>
  \<^verbatim>\<open>new Date(s).getMonth()\<close> for a date \<open>s\<close> in the form \<^verbatim>\<open>YYYY-MM-DD\<close>, the form the
  application writes, read in UTC: the month from 0 to 11. \<open>None\<close> stands for the
  \<^verbatim>\<open>NaN\<close> of an invalid date; texts in other forms are taken as invalid. The time
  zone of the runtime is taken to be UTC (in a zone behind UTC the first day of a month
  falls into the month before), and a day from 1 to 31 is read with the month written,
  also where the month is shorter.
\<close>

definition digit_of :: "char \<Rightarrow> nat option" where
  "digit_of c = map_of (zip ''0123456789'' [0, 1, 2, 3, 4, 5, 6, 7, 8, 9]) c"

definition two_digits :: "char \<Rightarrow> char \<Rightarrow> nat option" where
  "two_digits a b =
     (case (digit_of a, digit_of b) of
        (Some x, Some y) \<Rightarrow> Some (10 * x + y)
      | _ \<Rightarrow> None)"

fun getMonth :: "string \<Rightarrow> nat option" where
  "getMonth [y1, y2, y3, y4, s1, m1, m2, s2, d1, d2] =
     (if s1 = CHR ''-'' \<and> s2 = CHR ''-'' \<and> two_digits y1 y2 \<noteq> None \<and> two_digits y3 y4 \<noteq> None
      then (case (two_digits m1 m2, two_digits d1 d2) of
              (Some m, Some d) \<Rightarrow>
                if 1 \<le> m \<and> m \<le> 12 \<and> 1 \<le> d \<and> d \<le> 31 then Some (m - 1) else None
            | _ \<Rightarrow> None)
      else None)"
| "getMonth _ = None"

text \<open>\<^verbatim>\<open>a === b\<close> on two months: \<^verbatim>\<open>NaN\<close> equals nothing.\<close>

definition same_month :: "nat option \<Rightarrow> nat option \<Rightarrow> bool" where
  "same_month a b = (case (a, b) of (Some x, Some y) \<Rightarrow> x = y | _ \<Rightarrow> False)"

text \<open>
  The numbers of \<^verbatim>\<open>getDashboardStats\<close>. (The activity feed, which formats amounts for
  the locale, is left out.)
\<close>

record dashboard_stats =
  totalClients :: nat
  activeProjects :: nat
  monthlyRevenue :: real
  pendingPayments :: real
  lowStockItems :: nat

definition getDashboardStats :: "env \<Rightarrow> app_state \<Rightarrow> dashboard_stats" where
  "getDashboardStats e s =
     (let currentMonth = getMonth (today e)
      in \<lparr>totalClients = length (clients s),
          activeProjects =
            length (filter (\<lambda>p. pr_status p = em_producao \<or> pr_status p = aprovado) (projects s)),
          monthlyRevenue =
            foldl (\<lambda>sum t. sum + t_amount t) 0
              (filter (\<lambda>t. t_type t = entrada \<and> same_month (getMonth (t_date t)) currentMonth)
                 (transactions s)),
          pendingPayments =
            foldl (\<lambda>sum p. sum + pr_budget p * 0.5) 0
              (filter (\<lambda>p. pr_status p = concluido \<or> pr_status p = entregue) (projects s)),
          lowStockItems = length (filter (\<lambda>p. p_current_stock p \<le> p_min_stock p) (products s))\<rparr>)"

section \<open>CSV export and import\<close>

text \<open>
  Texts are lists of \<^typ>\<open>char\<close>, each \<^typ>\<open>char\<close> standing for the UTF-16 code unit of
  the same value, so the texts of the model are the JavaScript strings of code units
  below 256; \<open>dquote\<close> is the double quote and \<open>newline\<close> the line feed. \<open>trim\<close>
  removes at both ends what \<^verbatim>\<open>String.prototype.trim\<close> removes there: among the code
  units below 256 these are tab, line feed, vertical tab, form feed, carriage return,
  space and the no-break space \<open>0xA0\<close>. The white space it removes beyond that range
  has no \<^typ>\<open>char\<close>.
\<close>

definition dquote :: char where "dquote = CHR 0x22"
definition newline :: char where "newline = CHR 0x0A"

definition is_space :: "char \<Rightarrow> bool" where
  "is_space c \<longleftrightarrow>
     c \<in> {CHR 0x09, CHR 0x0A, CHR 0x0B, CHR 0x0C, CHR 0x0D, CHR 0x20, CHR 0xA0}"

definition trim :: "string \<Rightarrow> string" where
  "trim s = rev (dropWhile is_space (rev (dropWhile is_space s)))"

definition quoted :: "string \<Rightarrow> string" where
  "quoted s = dquote # s @ [dquote]"

fun join :: "string \<Rightarrow> string list \<Rightarrow> string" where
  "join sep [] = []"
| "join sep [x] = x"
| "join sep (x # y # ys) = x @ sep @ join sep (y # ys)"

text \<open>\<^verbatim>\<open>text.split('\n')\<close>: always at least one piece.\<close>

fun split_lines :: "string \<Rightarrow> string list" where
  "split_lines [] = [[]]"
| "split_lines (c # cs) =
     (if c = newline then [] # split_lines cs
      else (case split_lines cs of
              [] \<Rightarrow> [[c]]
            | piece # pieces \<Rightarrow> (c # piece) # pieces))"

text \<open>The text of an optional field in a template: \<^verbatim>\<open>x || ''\<close> and \<^verbatim>\<open>${x}\<close>.\<close>

definition or_empty :: "string option \<Rightarrow> string" where
  "or_empty x = (case x of None \<Rightarrow> [] | Some v \<Rightarrow> v)"

definition template :: "string option \<Rightarrow> string" where
  "template x = (case x of None \<Rightarrow> ''undefined'' | Some v \<Rightarrow> v)"

definition bool_text :: "bool \<Rightarrow> string" where
  "bool_text b = (if b then ''true'' else ''false'')"

definition client_headers :: "string list" where
  "client_headers =
     [''tipo'', ''nome'', ''endereco'', ''tipopessoa'', ''fone_comercial'', ''fone_celular'',
      ''cep'', ''cidade'', ''email'', ''cpf_cnpj'', ''inscricao_estadual'', ''bairro'',
      ''complemento'', ''numero'', ''isento_icms'', ''razao_social'', ''id_empresa'', ''fl_ativo'']"

definition client_row :: "client \<Rightarrow> string list" where
  "client_row c =
     [''Cliente'',
      quoted (c_name c),
      quoted (streetType (c_address c) @ '' '' @ street (c_address c)),
      (if c_type c = ''pj'' then ''J'' else ''F''),
      quoted (c_phone c),
      quoted (c_mobile c),
      quoted (zipCode (c_address c)),
      quoted (city (c_address c)),
      quoted (c_email c),
      quoted (template (if c_type c = ''pj'' then c_cnpj c else c_cpf c)),
      quoted (or_empty (c_inscricao_estadual c)),
      quoted (neighborhood (c_address c)),
      quoted (or_empty (c_complemento c)),
      quoted (or_empty (c_numero c)),
      bool_text (c_isento_icms c = Some True),
      quoted (or_empty (c_razao_social c)),
      quoted (or_empty (c_id_empresa c)),
      bool_text (c_fl_ativo c)]"

text \<open>The content \<^verbatim>\<open>exportClientsCSV\<close> hands to the download.\<close>

definition exportClientsCSV :: "app_state \<Rightarrow> string" where
  "exportClientsCSV s =
     join [newline] (join '','' client_headers # map (\<lambda>c. join '','' (client_row c)) (clients s))"

fun parse_loop :: "string \<Rightarrow> string list \<Rightarrow> string \<Rightarrow> bool \<Rightarrow> string list" where
  "parse_loop [] result current inQuotes = result @ [trim current]"
| "parse_loop (ch # rest) result current inQuotes =
     (if ch = dquote then parse_loop rest result current (\<not> inQuotes)
      else if ch = CHR '','' \<and> \<not> inQuotes then parse_loop rest (result @ [trim current]) [] inQuotes
      else parse_loop rest result (current @ [ch]) inQuotes)"

definition parseCSVLine :: "string \<Rightarrow> string list" where
  "parseCSVLine line = parse_loop line [] [] False"

text \<open>
  \<^verbatim>\<open>values[k]\<close> (\<open>None\<close> is \<^verbatim>\<open>undefined\<close>), \<^verbatim>\<open>values[k] || ''\<close> and
  \<^verbatim>\<open>values[k] || undefined\<close>.
\<close>

definition field_at :: "string list \<Rightarrow> nat \<Rightarrow> string option" where
  "field_at vs k = (if k < length vs then Some (vs ! k) else None)"

definition field_or_empty :: "string list \<Rightarrow> nat \<Rightarrow> string" where
  "field_or_empty vs k = (case field_at vs k of None \<Rightarrow> [] | Some v \<Rightarrow> v)"

definition field_or_undefined :: "string list \<Rightarrow> nat \<Rightarrow> string option" where
  "field_or_undefined vs k = (case field_at vs k of None \<Rightarrow> None | Some v \<Rightarrow> if v = [] then None else Some v)"

definition client_of_values :: "string list \<Rightarrow> client" where
  "client_of_values vs =
     \<lparr>c_id = [],
      c_name = field_or_empty vs 1,
      c_type = (if field_at vs 3 = Some ''J'' then ''pj'' else ''pf''),
      c_cpf = (if field_at vs 3 = Some ''F'' then field_at vs 9 else None),
      c_cnpj = (if field_at vs 3 = Some ''J'' then field_at vs 9 else None),
      c_email = field_or_empty vs 8,
      c_phone = field_or_empty vs 4,
      c_mobile = field_or_empty vs 5,
      c_razao_social = field_or_undefined vs 15,
      c_inscricao_estadual = field_or_undefined vs 10,
      c_isento_icms = Some (field_at vs 14 = Some ''true''),
      c_numero = field_or_undefined vs 13,
      c_complemento = field_or_undefined vs 12,
      c_id_empresa = field_or_undefined vs 16,
      c_fl_ativo = (field_at vs 17 \<noteq> Some ''false''),
      c_address = \<lparr>country = ''Brasil'', state = [], city = field_or_empty vs 7,
                   zipCode = field_or_empty vs 6, neighborhood = field_or_empty vs 11,
                   streetType = ''Rua'', street = field_or_empty vs 2\<rparr>,
      c_created_at = [],
      c_total_projects = Some 0,
      c_total_value = Some 0\<rparr>"

text \<open>One turn of the import loop, and the loop over the lines after the header.\<close>

definition import_client_line :: "env \<Rightarrow> string \<Rightarrow> app_state \<Rightarrow> app_state" where
  "import_client_line e raw s =
     (let line = trim raw
      in if line = [] then s
         else (let vs = parseCSVLine line
               in if length vs < 10 then s else addClient e (client_of_values vs) s))"

definition importClientsCSV :: "env \<Rightarrow> string \<Rightarrow> app_state \<Rightarrow> app_state" where
  "importClientsCSV e text s = fold (import_client_line e) (drop 1 (split_lines text)) s"

text \<open>
  The fields of an exported row, as they are written: plain or wrapped in double
  quotes. \<open>cell_ok\<close> says that the line parser reads the field back as one field.
\<close>

datatype cell = Plain string | Quoted string

fun render :: "cell \<Rightarrow> string" where
  "render (Plain s) = s"
| "render (Quoted s) = quoted s"

fun content :: "cell \<Rightarrow> string" where
  "content (Plain s) = s"
| "content (Quoted s) = s"

fun cell_ok :: "cell \<Rightarrow> bool" where
  "cell_ok (Plain s) \<longleftrightarrow> dquote \<notin> set s \<and> CHR '','' \<notin> set s"
| "cell_ok (Quoted s) \<longleftrightarrow> dquote \<notin> set s"

definition client_line :: "client \<Rightarrow> string" where
  "client_line c = join '','' (client_row c)"

definition client_cells :: "client \<Rightarrow> cell list" where
  "client_cells c =
     [Plain ''Cliente'',
      Quoted (c_name c),
      Quoted (streetType (c_address c) @ '' '' @ street (c_address c)),
      Plain (if c_type c = ''pj'' then ''J'' else ''F''),
      Quoted (c_phone c),
      Quoted (c_mobile c),
      Quoted (zipCode (c_address c)),
      Quoted (city (c_address c)),
      Quoted (c_email c),
      Quoted (template (if c_type c = ''pj'' then c_cnpj c else c_cpf c)),
      Quoted (or_empty (c_inscricao_estadual c)),
      Quoted (neighborhood (c_address c)),
      Quoted (or_empty (c_complemento c)),
      Quoted (or_empty (c_numero c)),
      Plain (bool_text (c_isento_icms c = Some True)),
      Quoted (or_empty (c_razao_social c)),
      Quoted (or_empty (c_id_empresa c)),
      Plain (bool_text (c_fl_ativo c))]"

text \<open>
  A text the export can write and the import reads back whole: no double quote and no
  line feed in it. A client is safe when all its exported texts are.
\<close>

definition csv_safe :: "string \<Rightarrow> bool" where
  "csv_safe s \<longleftrightarrow> dquote \<notin> set s \<and> newline \<notin> set s"

definition client_safe :: "client \<Rightarrow> bool" where
  "client_safe c \<longleftrightarrow>
     list_all csv_safe
       [c_name c, streetType (c_address c), street (c_address c), c_phone c, c_mobile c,
        zipCode (c_address c), city (c_address c), c_email c,
        template (if c_type c = ''pj'' then c_cnpj c else c_cpf c),
        or_empty (c_inscricao_estadual c), neighborhood (c_address c),
        or_empty (c_complemento c), or_empty (c_numero c), or_empty (c_razao_social c),
        or_empty (c_id_empresa c)]"

text \<open>
  What a client becomes by export and import, before the identifier and the creation
  time are assigned: texts are trimmed, an empty optional text is undefined, the street
  is the exported street type and street in one, the street type is always \<^verbatim>\<open>Rua\<close>.
\<close>

definition nonempty :: "string \<Rightarrow> string option" where
  "nonempty s = (if s = [] then None else Some s)"

definition reimported :: "client \<Rightarrow> client" where
  "reimported c =
     \<lparr>c_id = [],
      c_name = trim (c_name c),
      c_type = (if c_type c = ''pj'' then ''pj'' else ''pf''),
      c_cpf = (if c_type c = ''pj'' then None else Some (trim (template (c_cpf c)))),
      c_cnpj = (if c_type c = ''pj'' then Some (trim (template (c_cnpj c))) else None),
      c_email = trim (c_email c),
      c_phone = trim (c_phone c),
      c_mobile = trim (c_mobile c),
      c_razao_social = nonempty (trim (or_empty (c_razao_social c))),
      c_inscricao_estadual = nonempty (trim (or_empty (c_inscricao_estadual c))),
      c_isento_icms = Some (c_isento_icms c = Some True),
      c_numero = nonempty (trim (or_empty (c_numero c))),
      c_complemento = nonempty (trim (or_empty (c_complemento c))),
      c_id_empresa = nonempty (trim (or_empty (c_id_empresa c))),
      c_fl_ativo = c_fl_ativo c,
      c_address = \<lparr>country = ''Brasil'', state = [], city = trim (city (c_address c)),
                   zipCode = trim (zipCode (c_address c)),
                   neighborhood = trim (neighborhood (c_address c)),
                   streetType = ''Rua'',
                   street = trim (streetType (c_address c) @ '' '' @ street (c_address c))\<rparr>,
      c_created_at = [],
      c_total_projects = Some 0,
      c_total_value = Some 0\<rparr>"

fun stamp_clients :: "env \<Rightarrow> nat \<Rightarrow> client list \<Rightarrow> client list" where
  "stamp_clients e k [] = []"
| "stamp_clients e k (c # cs) =
     c\<lparr>c_id := new_id e k, c_created_at := now_iso e\<rparr> # stamp_clients e (Suc k) cs"

text \<open>
  The product import. \<open>parseFloat\<close> is the platform's function, \<open>None\<close> for \<^verbatim>\<open>NaN\<close>;
  \<^verbatim>\<open>parseFloat(x) || 0\<close> and \<^verbatim>\<open>parseFloat(x) || undefined\<close> follow. The product
  built from a row has no components, so \<^verbatim>\<open>addProduct\<close> does not look at the catalog
  and it makes no difference which render's catalog it holds.
\<close>

definition float_or_zero :: "(string \<Rightarrow> real option) \<Rightarrow> string option \<Rightarrow> real" where
  "float_or_zero parseFloat x =
     (case x of None \<Rightarrow> 0 | Some v \<Rightarrow> (case parseFloat v of None \<Rightarrow> 0 | Some r \<Rightarrow> r))"

definition float_or_undefined :: "(string \<Rightarrow> real option) \<Rightarrow> string option \<Rightarrow> real option" where
  "float_or_undefined parseFloat x =
     (case x of None \<Rightarrow> None
      | Some v \<Rightarrow> (case parseFloat v of None \<Rightarrow> None | Some r \<Rightarrow> if r = 0 then None else Some r))"

definition product_of_values :: "(string \<Rightarrow> real option) \<Rightarrow> string list \<Rightarrow> product" where
  "product_of_values parseFloat vs =
     \<lparr>p_id = [],
      p_name = field_or_empty vs 1,
      p_description = field_or_empty vs 2,
      p_category = field_or_empty vs 3,
      p_type = (if field_or_empty vs 4 = [] then material_bruto else field_or_empty vs 4),
      p_unit = (if field_or_empty vs 5 = [] then ''UN'' else field_or_empty vs 5),
      p_components = [],
      p_cost_price = float_or_zero parseFloat (field_at vs 6),
      p_sale_price = float_or_undefined parseFloat (field_at vs 7),
      p_current_stock = float_or_zero parseFloat (field_at vs 8),
      p_min_stock = float_or_zero parseFloat (field_at vs 9),
      p_supplier = None,
      p_created_at = []\<rparr>"

definition import_product_line ::
  "nat \<Rightarrow> (string \<Rightarrow> real option) \<Rightarrow> env \<Rightarrow> string \<Rightarrow> app_state \<Rightarrow> (error + app_state) option" where
  "import_product_line fuel parseFloat e raw s =
     (let line = trim raw
      in if line = [] then Some (Inr s)
         else (let vs = parseCSVLine line
               in if length vs < 10 then Some (Inr s)
                  else addProduct fuel e (product_of_values parseFloat vs) s))"

fun import_products_loop ::
  "nat \<Rightarrow> (string \<Rightarrow> real option) \<Rightarrow> env \<Rightarrow> string list \<Rightarrow> app_state \<Rightarrow> (error + app_state) option" where
  "import_products_loop fuel parseFloat e [] s = Some (Inr s)"
| "import_products_loop fuel parseFloat e (raw # rest) s =
     (case import_product_line fuel parseFloat e raw s of
        None \<Rightarrow> None
      | Some (Inl err) \<Rightarrow> Some (Inl err)
      | Some (Inr s1) \<Rightarrow> import_products_loop fuel parseFloat e rest s1)"

definition importProductsCSV ::
  "nat \<Rightarrow> (string \<Rightarrow> real option) \<Rightarrow> env \<Rightarrow> string \<Rightarrow> app_state \<Rightarrow> (error + app_state) option" where
  "importProductsCSV fuel parseFloat e text s =
     import_products_loop fuel parseFloat e (drop 1 (split_lines text)) s"


text \<open>
  Numbers in the files. \<open>toString\<close> is the text JavaScript writes for a number and
  \<open>parseFloat\<close> the platform's parser, both taken as given. \<open>number_ok\<close> says what the
  round trip needs of a number: its text is not empty, has no white space at its ends,
  no double quote, comma or line feed, and parses back to the number.
\<close>

definition number_ok :: "(real \<Rightarrow> string) \<Rightarrow> (string \<Rightarrow> real option) \<Rightarrow> real \<Rightarrow> bool" where
  "number_ok toString parseFloat x \<longleftrightarrow>
     toString x \<noteq> [] \<and> \<not> is_space (hd (toString x)) \<and> \<not> is_space (last (toString x)) \<and>
     dquote \<notin> set (toString x) \<and> CHR '','' \<notin> set (toString x) \<and>
     newline \<notin> set (toString x) \<and> parseFloat (toString x) = Some x"

text \<open>\<^verbatim>\<open>x || 0\<close> on an optional number, and \<^verbatim>\<open>values[k] || d\<close>.\<close>

definition or_zero :: "real option \<Rightarrow> real" where
  "or_zero x = (case x of None \<Rightarrow> 0 | Some v \<Rightarrow> v)"

definition field_or :: "string list \<Rightarrow> nat \<Rightarrow> string \<Rightarrow> string" where
  "field_or vs k d = (if field_or_empty vs k = [] then d else field_or_empty vs k)"

definition float_or :: "(string \<Rightarrow> real option) \<Rightarrow> string option \<Rightarrow> real \<Rightarrow> real" where
  "float_or parseFloat x d =
     (case x of None \<Rightarrow> d
      | Some v \<Rightarrow> (case parseFloat v of None \<Rightarrow> d | Some r \<Rightarrow> if r = 0 then d else r))"

text \<open>The transaction file.\<close>

definition transaction_headers :: "string list" where
  "transaction_headers = [''tipo'', ''categoria'', ''descricao'', ''valor'', ''data'', ''projeto'']"

definition transaction_row :: "(real \<Rightarrow> string) \<Rightarrow> transaction \<Rightarrow> string list" where
  "transaction_row toString t =
     [quoted (t_type t),
      quoted (t_category t),
      quoted (t_description t),
      toString (t_amount t),
      quoted (t_date t),
      quoted (or_empty (t_project_title t))]"

definition exportTransactionsCSV :: "(real \<Rightarrow> string) \<Rightarrow> app_state \<Rightarrow> string" where
  "exportTransactionsCSV toString s =
     join [newline] (join '','' transaction_headers #
                     map (\<lambda>t. join '','' (transaction_row toString t)) (transactions s))"

definition transaction_of_values :: "(string \<Rightarrow> real option) \<Rightarrow> env \<Rightarrow> string list \<Rightarrow> transaction" where
  "transaction_of_values parseFloat e vs =
     \<lparr>t_id = [],
      t_project_id = None,
      t_project_title = field_or_undefined vs 5,
      t_type = field_or vs 0 entrada,
      t_category = field_or_empty vs 1,
      t_description = field_or_empty vs 2,
      t_amount = float_or_zero parseFloat (field_at vs 3),
      t_date = field_or vs 4 (today e),
      t_created_at = []\<rparr>"

definition import_transaction_line ::
  "(string \<Rightarrow> real option) \<Rightarrow> env \<Rightarrow> string \<Rightarrow> app_state \<Rightarrow> app_state" where
  "import_transaction_line parseFloat e raw s =
     (let line = trim raw
      in if line = [] then s
         else (let vs = parseCSVLine line
               in if length vs < 5 then s
                  else addTransaction e (transaction_of_values parseFloat e vs) s))"

definition importTransactionsCSV ::
  "(string \<Rightarrow> real option) \<Rightarrow> env \<Rightarrow> string \<Rightarrow> app_state \<Rightarrow> app_state" where
  "importTransactionsCSV parseFloat e text s =
     fold (import_transaction_line parseFloat e) (drop 1 (split_lines text)) s"

text \<open>The product file, as \<^verbatim>\<open>exportProductsCSV\<close> writes it.\<close>

definition product_headers :: "string list" where
  "product_headers =
     [''id'', ''nome'', ''descricao'', ''categoria'', ''tipo'', ''unidade'', ''custo'',
      ''preco_venda'', ''estoque_atual'', ''estoque_minimo'', ''componentes'']"

definition components_text :: "(real \<Rightarrow> string) \<Rightarrow> product_component list \<Rightarrow> string" where
  "components_text toString cs =
     join '';'' (map (\<lambda>c. pc_product_name c @ '':'' @ toString (pc_quantity c)) cs)"

definition product_row :: "(real \<Rightarrow> string) \<Rightarrow> product \<Rightarrow> string list" where
  "product_row toString p =
     [quoted (p_id p),
      quoted (p_name p),
      quoted (p_description p),
      quoted (p_category p),
      quoted (p_type p),
      quoted (p_unit p),
      toString (p_cost_price p),
      toString (or_zero (p_sale_price p)),
      toString (p_current_stock p),
      toString (p_min_stock p),
      quoted (components_text toString (p_components p))]"

definition exportProductsCSV :: "(real \<Rightarrow> string) \<Rightarrow> app_state \<Rightarrow> string" where
  "exportProductsCSV toString s =
     join [newline] (join '','' product_headers #
                     map (\<lambda>p. join '','' (product_row toString p)) (products s))"

text \<open>The project file.\<close>

definition project_headers :: "string list" where
  "project_headers =
     [''numero'', ''cliente'', ''titulo'', ''descricao'', ''status'', ''tipo'', ''orcamento'',
      ''data_inicio'', ''data_fim'', ''custo_materiais'', ''custo_mao_obra'', ''margem_lucro'']"

definition project_row :: "(real \<Rightarrow> string) \<Rightarrow> project \<Rightarrow> string list" where
  "project_row toString p =
     [string_of_int (pr_number p),
      quoted (template (pr_client_name p)),
      quoted (pr_title p),
      quoted (pr_description p),
      quoted (pr_status p),
      quoted (pr_type p),
      toString (pr_budget p),
      quoted (pr_start_date p),
      quoted (pr_end_date p),
      toString (or_zero (pr_materials_cost p)),
      toString (or_zero (pr_labor_cost p)),
      toString (or_zero (pr_profit_margin p))]"

definition exportProjectsCSV :: "(real \<Rightarrow> string) \<Rightarrow> app_state \<Rightarrow> string" where
  "exportProjectsCSV toString s =
     join [newline] (join '','' project_headers #
                     map (\<lambda>p. join '','' (project_row toString p)) (projects s))"

definition project_of_values ::
  "(string \<Rightarrow> real option) \<Rightarrow> env \<Rightarrow> client \<Rightarrow> string list \<Rightarrow> project" where
  "project_of_values parseFloat e cl vs =
     \<lparr>pr_id = [],
      pr_number = 0,
      pr_client_id = c_id cl,
      pr_client_name = field_at vs 1,
      pr_title = field_or_empty vs 2,
      pr_description = field_or_empty vs 3,
      pr_status = field_or vs 4 orcamento,
      pr_type = field_or vs 5 orcamento,
      pr_products = [],
      pr_budget = float_or_zero parseFloat (field_at vs 6),
      pr_start_date = field_or vs 7 (today e),
      pr_end_date = field_or vs 8 (today e),
      pr_created_at = [],
      pr_materials_cost = Some (float_or_zero parseFloat (field_at vs 9)),
      pr_labor_cost = Some (float_or_zero parseFloat (field_at vs 10)),
      pr_profit_margin = Some (float_or parseFloat (field_at vs 11) 20),
      pr_payment_terms = None\<rparr>"

text \<open>
  One turn of the project import. \<open>known\<close>, \<open>seen\<close> and \<open>catalog\<close> are the clients,
  projects and products of the render the import started in.
\<close>

definition import_project_line ::
  "(string \<Rightarrow> real option) \<Rightarrow> env \<Rightarrow> client list \<Rightarrow> project list \<Rightarrow> product list \<Rightarrow>
   string \<Rightarrow> app_state \<Rightarrow> app_state" where
  "import_project_line parseFloat e known seen catalog raw s =
     (let line = trim raw
      in if line = [] then s
         else (let vs = parseCSVLine line
               in if length vs < 8 then s
                  else (case find (\<lambda>c. Some (c_name c) = field_at vs 1) known of
                          None \<Rightarrow> s
                        | Some cl \<Rightarrow>
                            addProject_in e seen catalog (project_of_values parseFloat e cl vs) s)))"

definition importProjectsCSV ::
  "(string \<Rightarrow> real option) \<Rightarrow> env \<Rightarrow> string \<Rightarrow> app_state \<Rightarrow> app_state" where
  "importProjectsCSV parseFloat e text s =
     fold (import_project_line parseFloat e (clients s) (projects s) (products s))
       (drop 1 (split_lines text)) s"

text \<open>
  What the round trip needs and gives, per kind of record. \<open>X_cells\<close> are the fields
  of an exported row; \<open>X_safe\<close> says that the texts of a record hold no double quote or
  line feed and that its numbers are \<open>number_ok\<close>; \<open>reimported_X\<close> is the record the
  import builds from the exported row, before identifier and creation time are assigned;
  \<open>stamp_X\<close> assigns those in the order of the calls of \<^verbatim>\<open>generateId\<close>.
\<close>

definition or_default :: "string \<Rightarrow> string \<Rightarrow> string" where
  "or_default s d = (if s = [] then d else s)"

definition line_of :: "cell list \<Rightarrow> string" where
  "line_of cells = join '','' (map render cells)"

definition transaction_cells :: "(real \<Rightarrow> string) \<Rightarrow> transaction \<Rightarrow> cell list" where
  "transaction_cells toString t =
     [Quoted (t_type t), Quoted (t_category t), Quoted (t_description t),
      Plain (toString (t_amount t)), Quoted (t_date t), Quoted (or_empty (t_project_title t))]"

definition transaction_safe ::
  "(real \<Rightarrow> string) \<Rightarrow> (string \<Rightarrow> real option) \<Rightarrow> transaction \<Rightarrow> bool" where
  "transaction_safe toString parseFloat t \<longleftrightarrow>
     list_all csv_safe [t_type t, t_category t, t_description t, t_date t,
                        or_empty (t_project_title t)] \<and>
     number_ok toString parseFloat (t_amount t)"

definition reimported_transaction :: "env \<Rightarrow> transaction \<Rightarrow> transaction" where
  "reimported_transaction e t =
     \<lparr>t_id = [],
      t_project_id = None,
      t_project_title = nonempty (trim (or_empty (t_project_title t))),
      t_type = or_default (trim (t_type t)) entrada,
      t_category = trim (t_category t),
      t_description = trim (t_description t),
      t_amount = t_amount t,
      t_date = or_default (trim (t_date t)) (today e),
      t_created_at = []\<rparr>"

fun stamp_transactions :: "env \<Rightarrow> nat \<Rightarrow> transaction list \<Rightarrow> transaction list" where
  "stamp_transactions e k [] = []"
| "stamp_transactions e k (t # ts) =
     t\<lparr>t_id := new_id e k, t_created_at := now_iso e\<rparr> # stamp_transactions e (Suc k) ts"

definition product_cells :: "(real \<Rightarrow> string) \<Rightarrow> product \<Rightarrow> cell list" where
  "product_cells toString p =
     [Quoted (p_id p), Quoted (p_name p), Quoted (p_description p), Quoted (p_category p),
      Quoted (p_type p), Quoted (p_unit p), Plain (toString (p_cost_price p)),
      Plain (toString (or_zero (p_sale_price p))), Plain (toString (p_current_stock p)),
      Plain (toString (p_min_stock p)),
      Quoted (components_text toString (p_components p))]"

definition product_safe ::
  "(real \<Rightarrow> string) \<Rightarrow> (string \<Rightarrow> real option) \<Rightarrow> product \<Rightarrow> bool" where
  "product_safe toString parseFloat p \<longleftrightarrow>
     list_all csv_safe [p_id p, p_name p, p_description p, p_category p, p_type p, p_unit p,
                        components_text toString (p_components p)] \<and>
     list_all (number_ok toString parseFloat)
       [p_cost_price p, or_zero (p_sale_price p), p_current_stock p, p_min_stock p]"

definition reimported_product :: "product \<Rightarrow> product" where
  "reimported_product p =
     \<lparr>p_id = [],
      p_name = trim (p_name p),
      p_description = trim (p_description p),
      p_category = trim (p_category p),
      p_type = or_default (trim (p_type p)) material_bruto,
      p_unit = or_default (trim (p_unit p)) ''UN'',
      p_components = [],
      p_cost_price = p_cost_price p,
      p_sale_price = (if or_zero (p_sale_price p) = 0 then None else Some (or_zero (p_sale_price p))),
      p_current_stock = p_current_stock p,
      p_min_stock = p_min_stock p,
      p_supplier = None,
      p_created_at = []\<rparr>"

fun stamp_products :: "env \<Rightarrow> nat \<Rightarrow> product list \<Rightarrow> product list" where
  "stamp_products e k [] = []"
| "stamp_products e k (p # ps) =
     p\<lparr>p_id := new_id e k, p_created_at := now_iso e\<rparr> # stamp_products e (Suc k) ps"

definition project_cells :: "(real \<Rightarrow> string) \<Rightarrow> project \<Rightarrow> cell list" where
  "project_cells toString p =
     [Plain (string_of_int (pr_number p)), Quoted (template (pr_client_name p)),
      Quoted (pr_title p), Quoted (pr_description p), Quoted (pr_status p),
      Quoted (pr_type p), Plain (toString (pr_budget p)), Quoted (pr_start_date p),
      Quoted (pr_end_date p), Plain (toString (or_zero (pr_materials_cost p))),
      Plain (toString (or_zero (pr_labor_cost p))),
      Plain (toString (or_zero (pr_profit_margin p)))]"

definition project_safe ::
  "(real \<Rightarrow> string) \<Rightarrow> (string \<Rightarrow> real option) \<Rightarrow> project \<Rightarrow> bool" where
  "project_safe toString parseFloat p \<longleftrightarrow>
     list_all csv_safe [template (pr_client_name p), pr_title p, pr_description p,
                        pr_status p, pr_type p, pr_start_date p, pr_end_date p] \<and>
     list_all (number_ok toString parseFloat)
       [pr_budget p, or_zero (pr_materials_cost p), or_zero (pr_labor_cost p),
        or_zero (pr_profit_margin p)]"

definition reimported_project :: "env \<Rightarrow> int \<Rightarrow> client \<Rightarrow> project \<Rightarrow> project" where
  "reimported_project e n cl p =
     \<lparr>pr_id = [],
      pr_number = n,
      pr_client_id = c_id cl,
      pr_client_name = Some (trim (template (pr_client_name p))),
      pr_title = trim (pr_title p),
      pr_description = trim (pr_description p),
      pr_status = or_default (trim (pr_status p)) orcamento,
      pr_type = or_default (trim (pr_type p)) orcamento,
      pr_products = [],
      pr_budget = pr_budget p,
      pr_start_date = or_default (trim (pr_start_date p)) (today e),
      pr_end_date = or_default (trim (pr_end_date p)) (today e),
      pr_created_at = [],
      pr_materials_cost = Some (or_zero (pr_materials_cost p)),
      pr_labor_cost = Some (or_zero (pr_labor_cost p)),
      pr_profit_margin =
        Some (if or_zero (pr_profit_margin p) = 0 then 20 else or_zero (pr_profit_margin p)),
      pr_payment_terms = None\<rparr>"

definition reimport_projects :: "env \<Rightarrow> client list \<Rightarrow> int \<Rightarrow> project list \<Rightarrow> project list" where
  "reimport_projects e known n ps =
     List.map_filter
       (\<lambda>p. map_option (\<lambda>cl. reimported_project e n cl p)
              (find (\<lambda>c. c_name c = trim (template (pr_client_name p))) known)) ps"

fun stamp_projects :: "env \<Rightarrow> nat \<Rightarrow> project list \<Rightarrow> project list" where
  "stamp_projects e k [] = []"
| "stamp_projects e k (p # ps) =
     p\<lparr>pr_id := new_id e k, pr_created_at := now_iso e\<rparr> #
     stamp_projects e (k + (if pr_type p = venda \<and> pr_status p \<noteq> orcamento then 2 else 1)) ps"

text \<open>
  \<open>cost_returns catalog productId v\<close>: the call
  \<^verbatim>\<open>calculateProductCost(productId)\<close> returns \<open>v\<close>, that is, some depth of recursion
  is enough for it.
\<close>

definition cost_returns :: "product list \<Rightarrow> string \<Rightarrow> real \<Rightarrow> bool" where
  "cost_returns catalog productId v \<longleftrightarrow>
     (\<exists>n. calculateProductCost n catalog productId = Some v)"

section \<open>Sequences of project operations\<close>

text \<open>
  \<^verbatim>\<open>addProject\<close> reads \<^verbatim>\<open>projects\<close> and \<^verbatim>\<open>products\<close> from the closure of the
  render that created it; \<^verbatim>\<open>deleteProject\<close> reads nothing and filters the stored
  collections. The calls issued from one render therefore all run against that
  render's collections, while their updates accumulate in the state.
  \<open>run_render e seen catalog ops s\<close> runs the calls \<open>ops\<close> of one render whose
  closure holds \<open>seen\<close> and \<open>catalog\<close>; \<open>run_renders e renders s\<close> runs one render
  after another, each render holding the collections of the state it starts from.
  A render with several \<^verbatim>\<open>addProject\<close> calls is what
  \<^verbatim>\<open>importProjectsCSV\<close> produces.
\<close>

datatype project_op = AddProject project | DeleteProject string

fun run_render ::
  "env \<Rightarrow> project list \<Rightarrow> product list \<Rightarrow> project_op list \<Rightarrow> app_state \<Rightarrow> app_state" where
  "run_render e seen catalog [] s = s"
| "run_render e seen catalog (AddProject projectData # ops) s =
     run_render e seen catalog ops (addProject_in e seen catalog projectData s)"
| "run_render e seen catalog (DeleteProject ident # ops) s =
     run_render e seen catalog ops (deleteProject ident s)"

fun run_renders :: "env \<Rightarrow> project_op list list \<Rightarrow> app_state \<Rightarrow> app_state" where
  "run_renders e [] s = s"
| "run_renders e (ops # renders) s =
     run_renders e renders (run_render e (projects s) (products s) ops s)"

fun is_add :: "project_op \<Rightarrow> bool" where
  "is_add (AddProject projectData) = True"
| "is_add (DeleteProject ident) = False"

text \<open>
  \<open>one_add_each renders\<close>: no render issues more than one \<^verbatim>\<open>addProject\<close> call, so
  every \<^verbatim>\<open>addProject\<close> call runs in a render that has seen the projects added
  before it.
\<close>

definition one_add_each :: "project_op list list \<Rightarrow> bool" where
  "one_add_each renders = list_all (\<lambda>ops. length (filter is_add ops) \<le> 1) renders"

text \<open>
  Project numbers are JavaScript numbers; the model has them as integers and adds
  exactly. The two agree as long as the numbers are integers of magnitude below
  \<open>2 ^ 53\<close>: \<open>safe_numbers k ps\<close> says that the numbers of \<open>ps\<close> stay in that range
  when \<open>k\<close> is added to them.
\<close>

definition safe_numbers :: "nat \<Rightarrow> project list \<Rightarrow> bool" where
  "safe_numbers k ps =
     list_all (\<lambda>p. - (2 ^ 53) < pr_number p \<and> pr_number p + int k < 2 ^ 53) ps"

text \<open>
  The number the specification promises a new project: one more than the largest number
  among the projects of a collection, or 1 when the collection holds none.
\<close>

definition nextNumber :: "project list \<Rightarrow> int" where
  "nextNumber ps = (if ps = [] then 1 else Max (pr_number ` set ps) + 1)"

section \<open>Example data\<close>

definition env0 :: env where
  "env0 = \<lparr>now_iso = ''2026-11-02T10:00:00.000Z'', today = ''2026-11-02'',
           new_id = (\<lambda>n. ''id-'' @ string_of_nat n)\<rparr>"

definition empty_state :: app_state where
  "empty_state = \<lparr>clients = [], projects = [], transactions = [], products = [],
                  stockMovements = [], id_calls = 0\<rparr>"

definition quote_project :: project where
  "quote_project =
     \<lparr>pr_id = [], pr_number = 0, pr_client_id = ''c1'', pr_client_name = Some ''Ana'',
      pr_title = ''Mesa'', pr_description = [], pr_status = orcamento, pr_type = orcamento,
      pr_products = [], pr_budget = 1000, pr_start_date = ''2026-11-02'',
      pr_end_date = ''2026-12-02'', pr_created_at = [], pr_materials_cost = None,
      pr_labor_cost = None, pr_profit_margin = None, pr_payment_terms = None\<rparr>"

definition no_updates :: project_updates where
  "no_updates =
     \<lparr>u_id = None, u_number = None, u_client_id = None, u_client_name = None,
      u_title = None, u_description = None, u_status = None, u_type = None,
      u_products = None, u_budget = None, u_start_date = None, u_end_date = None,
      u_created_at = None, u_materials_cost = None, u_labor_cost = None,
      u_profit_margin = None, u_payment_terms = None\<rparr>"

definition one_project :: app_state where
  "one_project = addProject env0 quote_project empty_state"

definition to_completed :: project_updates where
  "to_completed = no_updates\<lparr>u_status := Some concluido\<rparr>"

definition to_approved :: project_updates where
  "to_approved = no_updates\<lparr>u_status := Some aprovado\<rparr>"

section \<open>The stock cascade and the stock ledger, as the specification words them\<close>

text \<open>What a stock movement says, without its identifier and time stamps.\<close>

type_synonym movement_summary = "string \<times> string \<times> real \<times> real option \<times> real option \<times> string option"

definition summary :: "stock_movement \<Rightarrow> movement_summary" where
  "summary m = (sm_product_id m, sm_type m, sm_quantity m, sm_unit_price m, sm_total_value m,
                sm_project_id m)"

text \<open>
  The cascade of one line item: nothing when the catalog has no such product; otherwise
  one \<^verbatim>\<open>saida\<close> movement of the sold product at the line item's quantity and prices and,
  when the product is not a raw material, one \<^verbatim>\<open>saida\<close> movement per direct component,
  scaled by the line item's quantity. Components of components are not visited.
\<close>

definition cascade_spec :: "product list \<Rightarrow> string \<Rightarrow> project_product \<Rightarrow> movement_summary list" where
  "cascade_spec catalog projectId lineItem =
     (case find (\<lambda>p. p_id p = pp_product_id lineItem) catalog of
        None \<Rightarrow> []
      | Some prd \<Rightarrow>
          (p_id prd, saida, pp_quantity lineItem, Some (pp_unit_price lineItem),
             Some (pp_total_price lineItem), Some projectId) #
          (if p_type prd \<noteq> material_bruto
           then map (\<lambda>c. (pc_product_id c, saida, pc_quantity c * pp_quantity lineItem,
                          Some (pc_unit_cost c), Some (pc_total_cost c * pp_quantity lineItem),
                          Some projectId)) (p_components prd)
           else []))"

text \<open>
  The signed sum of the movements of a product (\<^verbatim>\<open>entrada\<close> adds, anything else
  subtracts, as \<^verbatim>\<open>addStockMovement\<close> applies them), and the invariant: every product's
  counter is its initial stock plus that sum. The code does not store the initial
  stock; \<open>init\<close> gives it per product identifier.
\<close>

definition signed_quantity :: "stock_movement \<Rightarrow> real" where
  "signed_quantity m = (if sm_type m = entrada then sm_quantity m else - sm_quantity m)"

definition ledger_sum :: "stock_movement list \<Rightarrow> string \<Rightarrow> real" where
  "ledger_sum ms ident = sum_list (map signed_quantity (filter (\<lambda>m. sm_product_id m = ident) ms))"

definition stock_consistent :: "(string \<Rightarrow> real) \<Rightarrow> app_state \<Rightarrow> bool" where
  "stock_consistent init s =
     list_all (\<lambda>p. p_current_stock p = init (p_id p) + ledger_sum (stockMovements s) (p_id p))
       (products s)"

section \<open>Example catalog\<close>

text \<open>
  A raw material \<open>A\<close> (cost 120), a part \<open>B\<close> made of two \<open>A\<close>, and a finished
  product \<open>D\<close> made of one \<open>B\<close>.
\<close>

definition prodA :: product where
  "prodA = \<lparr>p_id = ''A'', p_name = ''Madeira'', p_description = [], p_category = ''Madeiras'',
            p_type = material_bruto, p_unit = ''M2'', p_components = [], p_cost_price = 120,
            p_sale_price = Some 180, p_current_stock = 50, p_min_stock = 10,
            p_supplier = None, p_created_at = []\<rparr>"

definition prodB :: product where
  "prodB = \<lparr>p_id = ''B'', p_name = ''Tampo'', p_description = [], p_category = ''Partes'',
            p_type = parte_produto, p_unit = ''UN'',
            p_components = [\<lparr>pc_product_id = ''A'', pc_product_name = ''Madeira'',
                              pc_quantity = 2, pc_unit = ''M2'', pc_unit_cost = 120,
                              pc_total_cost = 240\<rparr>],
            p_cost_price = 0, p_sale_price = Some 400, p_current_stock = 10, p_min_stock = 2,
            p_supplier = None, p_created_at = []\<rparr>"

definition prodD :: product where
  "prodD = \<lparr>p_id = ''D'', p_name = ''Mesa'', p_description = [], p_category = ''Moveis'',
            p_type = produto_pronto, p_unit = ''UN'',
            p_components = [\<lparr>pc_product_id = ''B'', pc_product_name = ''Tampo'',
                              pc_quantity = 1, pc_unit = ''UN'', pc_unit_cost = 240,
                              pc_total_cost = 240\<rparr>],
            p_cost_price = 0, p_sale_price = Some 900, p_current_stock = 5, p_min_stock = 1,
            p_supplier = None, p_created_at = []\<rparr>"

definition catalog_state :: app_state where
  "catalog_state = empty_state\<lparr>products := [prodD, prodB, prodA]\<rparr>"

definition initial_stock :: "string \<Rightarrow> real" where
  "initial_stock ident = (if ident = ''A'' then 50 else if ident = ''B'' then 10 else 5)"

definition three_B :: project_product where
  "three_B = \<lparr>pp_id = ''l1'', pp_product_id = ''B'', pp_product_name = ''Tampo'',
              pp_quantity = 3, pp_unit_price = 400, pp_total_price = 1200\<rparr>"

definition one_D :: project_product where
  "one_D = \<lparr>pp_id = ''l2'', pp_product_id = ''D'', pp_product_name = ''Mesa'',
            pp_quantity = 1, pp_unit_price = 900, pp_total_price = 900\<rparr>"

definition sale_project :: project where
  "sale_project = quote_project\<lparr>pr_status := aprovado, pr_type := venda,
                                pr_products := [three_B]\<rparr>"

definition restock_A :: stock_movement where
  "restock_A = \<lparr>sm_id = [], sm_product_id = ''A'', sm_product_name = ''Madeira'',
                sm_type = entrada, sm_quantity = 5, sm_unit_price = Some 120,
                sm_total_value = Some 600, sm_project_id = None, sm_project_title = None,
                sm_date = ''2026-11-02'', sm_created_at = []\<rparr>"

definition renamed_B :: product where
  "renamed_B = prodB\<lparr>p_name := ''Tampo novo''\<rparr>"

definition recounted_B :: product where
  "recounted_B = prodB\<lparr>p_current_stock := 99\<rparr>"

text \<open>
  A catalog that holds a cycle: \<open>X\<close> is made of \<open>Y\<close> and \<open>Y\<close> of \<open>X\<close>, beside the
  acyclic \<open>B\<close> and \<open>A\<close>.
\<close>

definition one_of :: "string \<Rightarrow> product_component" where
  "one_of ident = \<lparr>pc_product_id = ident, pc_product_name = ident, pc_quantity = 1,
                   pc_unit = ''UN'', pc_unit_cost = 0, pc_total_cost = 0\<rparr>"

definition prodX :: product where
  "prodX = prodB\<lparr>p_id := ''X'', p_name := ''X'', p_components := [one_of ''Y'']\<rparr>"

definition prodY :: product where
  "prodY = prodB\<lparr>p_id := ''Y'', p_name := ''Y'', p_components := [one_of ''X'']\<rparr>"

definition mixed_catalog :: "product list" where
  "mixed_catalog = [prodX, prodY, prodB, prodA]"

definition catalog_rank :: "string \<Rightarrow> nat" where
  "catalog_rank ident = (if ident = ''D'' then 2 else if ident = ''B'' then 1 else 0)"

text \<open>The demonstration client of the application, and a transaction of a year before.\<close>

definition demo_client :: client where
  "demo_client =
     \<lparr>c_id = ''c-1'', c_name = ''Joao Silva'', c_type = ''pf'',
      c_cpf = Some ''123.456.789-00'', c_cnpj = None, c_email = ''joao@email.com'',
      c_phone = ''(11) 3333-4444'', c_mobile = ''(11) 98888-7777'', c_razao_social = None,
      c_inscricao_estadual = None, c_isento_icms = None, c_numero = None,
      c_complemento = None, c_id_empresa = None, c_fl_ativo = True,
      c_address = \<lparr>country = ''Brasil'', state = ''SP'', city = ''Sao Paulo'',
                   zipCode = ''01310-100'', neighborhood = ''Centro'', streetType = ''Rua'',
                   street = ''Exemplo''\<rparr>,
      c_created_at = ''2026-01-05T09:00:00.000Z'', c_total_projects = Some 0,
      c_total_value = Some 0\<rparr>"

definition last_year_sale :: transaction where
  "last_year_sale =
     \<lparr>t_id = ''t-1'', t_project_id = None, t_project_title = None, t_type = entrada,
      t_category = ''Sinal'', t_description = ''Sinal'', t_amount = 100,
      t_date = ''2025-11-10'', t_created_at = ''2025-11-10T12:00:00.000Z''\<rparr>"

definition demo_state :: app_state where
  "demo_state = empty_state\<lparr>clients := [demo_client]\<rparr>"

text \<open>A product file of one row, with a components column.\<close>

definition products_text :: string where
  "products_text =
     ''id,nome'' @ [newline] @ ''x,Tampo,,Partes,parte_produto,UN,0,400,10,2,Madeira:2''"

text \<open>Numbers with their texts, for the examples; and stores to export.\<close>

definition demo_numbers :: "(real \<times> string) list" where
  "demo_numbers = [(0, ''0''), (2, ''2''), (10, ''10''), (100, ''100''), (400, ''400''),
                   (1000, ''1000'')]"

definition demo_toString :: "real \<Rightarrow> string" where
  "demo_toString x = (case map_of demo_numbers x of None \<Rightarrow> ''NaN'' | Some t \<Rightarrow> t)"

definition demo_parseFloat :: "string \<Rightarrow> real option" where
  "demo_parseFloat t = map_of (map (\<lambda>(x, t). (t, x)) demo_numbers) t"

definition ana_state :: app_state where
  "ana_state = empty_state\<lparr>clients := [demo_client\<lparr>c_name := ''Ana''\<rparr>]\<rparr>"

definition two_adds :: "project_op list list" where
  "two_adds = [[AddProject quote_project], [AddProject quote_project]]"

definition two_projects :: app_state where
  "two_projects = run_renders env0 two_adds empty_state"

definition parts_state :: app_state where
  "parts_state = empty_state\<lparr>products := [prodB]\<rparr>"

definition sales_state :: app_state where
  "sales_state = empty_state\<lparr>transactions := [last_year_sale]\<rparr>"


section \<open>What each operation leaves alone\<close>

lemma addTransaction_frame [simp]:
  "projects (addTransaction e td s) = projects s"
  "products (addTransaction e td s) = products s"
  "stockMovements (addTransaction e td s) = stockMovements s"
  "clients (addTransaction e td s) = clients s"
  "id_calls (addTransaction e td s) = Suc (id_calls s)"
  "transactions (addTransaction e td s) =
     td\<lparr>t_id := new_id e (id_calls s), t_created_at := now_iso e\<rparr> # transactions s"
  by (simp_all add: addTransaction_def generateId_def)

lemma addStockMovement_frame [simp]:
  "projects (addStockMovement e md s) = projects s"
  "transactions (addStockMovement e md s) = transactions s"
  "clients (addStockMovement e md s) = clients s"
  "id_calls (addStockMovement e md s) = Suc (id_calls s)"
  "stockMovements (addStockMovement e md s) =
     md\<lparr>sm_id := new_id e (id_calls s), sm_created_at := now_iso e\<rparr> # stockMovements s"
  by (simp_all add: addStockMovement_def generateId_def)

lemma component_loop_frame [simp]:
  "projects (component_loop e pid pp cs s) = projects s"
  "transactions (component_loop e pid pp cs s) = transactions s"
  "clients (component_loop e pid pp cs s) = clients s"
  by (induction cs arbitrary: s; simp)+

lemma process_loop_frame [simp]:
  "projects (process_loop e cat pid pps s) = projects s"
  "transactions (process_loop e cat pid pps s) = transactions s"
  "clients (process_loop e cat pid pps s) = clients s"
  by (induction pps arbitrary: s; simp split: option.splits add: Let_def)+

section \<open>Project numbers\<close>

lemma fold_max_Max: "fold max ns (n::int) = Max (set (n # ns))"
  using Max.set_eq_fold [of n ns] by simp

lemma addProject_in_projects:
  "projects (addProject_in e seen catalog pd s) =
     pd\<lparr>pr_id := new_id e (id_calls s), pr_number := nextNumber seen,
        pr_created_at := now_iso e\<rparr> # projects s"
proof (cases seen)
  case Nil
  then show ?thesis
    by (simp add: addProject_in_def generateId_def nextNumber_def Let_def)
next
  case (Cons p ps)
  have "fold max (map pr_number ps) (pr_number p) = Max (pr_number ` set (p # ps))"
    using fold_max_Max [of "map pr_number ps" "pr_number p"] by simp
  with Cons show ?thesis
    by (simp add: addProject_in_def generateId_def nextNumber_def Let_def)
qed

lemma addProject_projects:
  "projects (addProject e pd s) =
     pd\<lparr>pr_id := new_id e (id_calls s), pr_number := nextNumber (projects s),
        pr_created_at := now_iso e\<rparr> # projects s"
  by (simp add: addProject_def addProject_in_projects)

lemma nextNumber_greater:
  assumes "p \<in> set ps"
  shows "pr_number p < nextNumber ps"
proof -
  from assms have "pr_number p \<le> Max (pr_number ` set ps)" by simp
  with assms show ?thesis by (auto simp: nextNumber_def)
qed

lemma deleteProject_distinct:
  assumes "distinct (map pr_number (projects s))"
  shows "distinct (map pr_number (projects (deleteProject ident s)))"
  using assms by (simp add: deleteProject_def distinct_map_filter)

lemma addProject_in_distinct:
  assumes "distinct (map pr_number (projects s))" and "set (projects s) \<subseteq> set seen"
  shows "distinct (map pr_number (projects (addProject_in e seen catalog pd s)))"
proof -
  have "nextNumber seen \<notin> pr_number ` set (projects s)"
    using nextNumber_greater [of _ seen] assms(2) by force
  with assms(1) show ?thesis by (simp add: addProject_in_projects)
qed

lemma deleteProject_subset: "set (projects (deleteProject ident s)) \<subseteq> set (projects s)"
  by (auto simp: deleteProject_def)

lemma run_render_deletes_distinct:
  "filter is_add ops = [] \<Longrightarrow> distinct (map pr_number (projects s)) \<Longrightarrow>
   distinct (map pr_number (projects (run_render e seen catalog ops s)))"
proof (induction ops arbitrary: s)
  case Nil
  then show ?case by simp
next
  case (Cons op ops)
  then show ?case by (cases op) (simp_all add: deleteProject_distinct)
qed

lemma run_render_distinct:
  "length (filter is_add ops) \<le> 1 \<Longrightarrow> distinct (map pr_number (projects s)) \<Longrightarrow>
   set (projects s) \<subseteq> set seen \<Longrightarrow>
   distinct (map pr_number (projects (run_render e seen catalog ops s)))"
proof (induction ops arbitrary: s)
  case Nil
  then show ?case by simp
next
  case (Cons op ops)
  show ?case
  proof (cases op)
    case (AddProject pd)
    with Cons.prems(1) have "filter is_add ops = []" by simp
    moreover have "distinct (map pr_number (projects (addProject_in e seen catalog pd s)))"
      using Cons.prems(2,3) by (rule addProject_in_distinct)
    ultimately show ?thesis
      using AddProject by (simp add: run_render_deletes_distinct)
  next
    case (DeleteProject ident)
    have "set (projects (deleteProject ident s)) \<subseteq> set seen"
      using deleteProject_subset Cons.prems(3) by blast
    moreover have "distinct (map pr_number (projects (deleteProject ident s)))"
      using Cons.prems(2) by (rule deleteProject_distinct)
    moreover have "length (filter is_add ops) \<le> 1"
      using Cons.prems(1) DeleteProject by simp
    ultimately show ?thesis
      using DeleteProject Cons.IH by simp
  qed
qed

lemma run_renders_distinct:
  "one_add_each renders \<Longrightarrow> distinct (map pr_number (projects s)) \<Longrightarrow>
   distinct (map pr_number (projects (run_renders e renders s)))"
proof (induction renders arbitrary: s)
  case Nil
  then show ?case by simp
next
  case (Cons ops renders)
  from Cons.prems(1) have one: "length (filter is_add ops) \<le> 1" and rest: "one_add_each renders"
    by (simp_all add: one_add_each_def)
  have "distinct (map pr_number (projects (run_render e (projects s) (products s) ops s)))"
    using one Cons.prems(2) by (rule run_render_distinct) simp
  with rest show ?case by (simp add: Cons.IH)
qed

text \<open>
  Two \<^verbatim>\<open>addProject\<close> calls issued from the same render both number from that
  render's collection, so they assign the same number.
\<close>

lemma same_render_same_number:
  "map pr_number (projects (run_render e seen catalog
       [AddProject pd1, AddProject pd2] s)) =
     nextNumber seen # nextNumber seen # map pr_number (projects s)"
  by (simp add: addProject_in_projects)

text \<open>
  A sequence of operations each issued from a render of its own has no render with
  more than one \<^verbatim>\<open>addProject\<close> call.
\<close>

lemma one_add_each_singletons: "one_add_each (map (\<lambda>op. [op]) ops)"
  by (induction ops) (simp_all add: one_add_each_def)

lemma two_projects_projects:
  "projects two_projects =
     [quote_project\<lparr>pr_id := ''id-1'', pr_number := 2, pr_created_at := now_iso env0\<rparr>,
      quote_project\<lparr>pr_id := ''id-0'', pr_number := 1, pr_created_at := now_iso env0\<rparr>]"
  by (simp add: two_projects_def two_adds_def addProject_in_def generateId_def env0_def
        empty_state_def quote_project_def string_of_nat.simps)

text \<open>
  Claim C3, as the code has it. \<^verbatim>\<open>addProject\<close> puts the new project in front of the
  stored ones. When the projects collection of the render the call is issued from
  contains every stored project, the new project is numbered one more than the largest
  number in that collection (1 when it is empty), which is larger than the number of
  every stored project; for a call from the render of the current state the collection
  is the stored one. Along any sequence of renders issuing \<^verbatim>\<open>addProject\<close> and
  \<^verbatim>\<open>deleteProject\<close> calls, no render issuing more than one \<^verbatim>\<open>addProject\<close>, the
  stored projects keep pairwise different numbers. All of this is for numbers that
  stay integers of magnitude below \<open>2 ^ 53\<close>. Projects that were deleted play no part
  in the numbering.
\<close>

theorem C3_addProject_number:
  "(safe_numbers 0 seen \<and> set (projects s) \<subseteq> set seen \<longrightarrow>
      projects (addProject_in e seen catalog projectData s) =
        projectData\<lparr>pr_id := new_id e (id_calls s), pr_number := nextNumber seen,
                    pr_created_at := now_iso e\<rparr> # projects s
      \<and> (\<forall>p \<in> set (projects s). pr_number p < nextNumber seen))
   \<and> (safe_numbers 0 (projects s) \<longrightarrow>
        projects (addProject e projectData s) =
          projectData\<lparr>pr_id := new_id e (id_calls s), pr_number := nextNumber (projects s),
                      pr_created_at := now_iso e\<rparr> # projects s
        \<and> (\<forall>p \<in> set (projects s). pr_number p < nextNumber (projects s)))
   \<and> (safe_numbers (length renders) (projects s) \<and> one_add_each renders
        \<and> distinct (map pr_number (projects s)) \<longrightarrow>
        distinct (map pr_number (projects (run_renders e renders s))))"
proof (intro conjI impI ballI)
  show "projects (addProject_in e seen catalog projectData s) =
        projectData\<lparr>pr_id := new_id e (id_calls s), pr_number := nextNumber seen,
                    pr_created_at := now_iso e\<rparr> # projects s"
    by (rule addProject_in_projects)
  show "projects (addProject e projectData s) =
          projectData\<lparr>pr_id := new_id e (id_calls s), pr_number := nextNumber (projects s),
                      pr_created_at := now_iso e\<rparr> # projects s"
    by (rule addProject_projects)
  show "pr_number p < nextNumber seen"
    if "safe_numbers 0 seen \<and> set (projects s) \<subseteq> set seen" and "p \<in> set (projects s)" for p
    using that nextNumber_greater [of p seen] by blast
  show "pr_number p < nextNumber (projects s)" if "p \<in> set (projects s)" for p
    using that by (rule nextNumber_greater)
  show "distinct (map pr_number (projects (run_renders e renders s)))"
    if "safe_numbers (length renders) (projects s) \<and> one_add_each renders
        \<and> distinct (map pr_number (projects s))"
    using that run_renders_distinct by blast
qed

text \<open>
  The store holds the projects numbered 2 and 1. A project added from its render gets
  number 3; so does one added from that render after the call that deletes project 2.
  When the project is added from the render that follows the deletion, the numbers
  stored stay pairwise different.
\<close>

theorem C3_addProject_number_witness:
  "safe_numbers 0 (projects two_projects)
   \<and> set (projects (deleteProject ''id-1'' two_projects)) \<subseteq> set (projects two_projects)
   \<and> map pr_number (projects (addProject_in env0 (projects two_projects) []
         quote_project (deleteProject ''id-1'' two_projects))) = [3, 1]
   \<and> map pr_number (projects (addProject env0 quote_project two_projects)) = [3, 2, 1]
   \<and> safe_numbers 2 (projects two_projects)
   \<and> one_add_each [[DeleteProject ''id-1''], [AddProject quote_project]]
   \<and> distinct (map pr_number (projects two_projects))
   \<and> distinct (map pr_number (projects (run_renders env0
         [[DeleteProject ''id-1''], [AddProject quote_project]] two_projects)))"
proof -
  let ?s = two_projects
  let ?d = "deleteProject ''id-1'' two_projects"
  have numbers: "map pr_number (projects ?s) = [2, 1]"
    by (simp add: two_projects_projects)
  then have d: "distinct (map pr_number (projects ?s))" by simp
  have safe: "safe_numbers k (projects ?s) \<longleftrightarrow>
      list_all (\<lambda>n. - (2 ^ 53) < n \<and> n + int k < 2 ^ 53) [2, 1]" for k
    unfolding safe_numbers_def numbers [symmetric] by (simp add: list_all_iff)
  have s0: "safe_numbers 0 (projects ?s)" and s2: "safe_numbers 2 (projects ?s)"
    by (simp_all add: safe)
  have one: "one_add_each [[DeleteProject ''id-1''], [AddProject quote_project]]"
    by (simp add: one_add_each_def)
  have sub: "set (projects ?d) \<subseteq> set (projects ?s)" by (rule deleteProject_subset)
  have deleted: "map pr_number (projects ?d) = [1]"
    by (simp add: deleteProject_def two_projects_projects)
  have next3: "nextNumber (projects ?s) = 3"
  proof -
    have "pr_number ` set (projects ?s) = {2, 1}"
      using numbers by (metis list.set(1) list.set(2) set_map)
    moreover have "projects ?s \<noteq> []" using numbers by auto
    ultimately show ?thesis by (simp add: nextNumber_def)
  qed
  note stale = C3_addProject_number [where e = env0 and projectData = quote_project
      and s = ?d and seen = "projects ?s" and catalog = "[]"]
  from stale [THEN conjunct1] s0 sub
  have "projects (addProject_in env0 (projects ?s) [] quote_project ?d) =
     quote_project\<lparr>pr_id := new_id env0 (id_calls ?d), pr_number := nextNumber (projects ?s),
                 pr_created_at := now_iso env0\<rparr> # projects ?d" by blast
  then have a1: "map pr_number (projects (addProject_in env0 (projects ?s) [] quote_project ?d))
      = [3, 1]"
    using deleted next3 by simp
  note inst = C3_addProject_number [where e = env0 and projectData = quote_project
      and s = ?s and renders = "[[DeleteProject ''id-1''], [AddProject quote_project]]"]
  have "safe_numbers (length [[DeleteProject ''id-1''], [AddProject quote_project]])
          (projects ?s)"
    by (simp add: safe)
  with inst [THEN conjunct2, THEN conjunct2] one d
  have d2: "distinct (map pr_number (projects (run_renders env0
      [[DeleteProject ''id-1''], [AddProject quote_project]] ?s)))" by blast
  from inst [THEN conjunct2, THEN conjunct1] s0
  have "projects (addProject env0 quote_project ?s) =
     quote_project\<lparr>pr_id := new_id env0 (id_calls ?s), pr_number := nextNumber (projects ?s),
                 pr_created_at := now_iso env0\<rparr> # projects ?s" by blast
  then have a2: "map pr_number (projects (addProject env0 quote_project ?s)) = [3, 2, 1]"
    using numbers next3 by simp
  from s0 sub a1 a2 s2 one d d2 show ?thesis by blast
qed

text \<open>
  The claim as stated fails, also when every call is issued from a render of its own:
  after the project numbered 2 is deleted, the next project is numbered 2 again, where
  one more than every number ever assigned would be 3.
\<close>

theorem C3_number_reused_counterexample:
  "map (\<lambda>p. (pr_id p, pr_number p)) (projects (run_renders env0
       [[AddProject quote_project], [AddProject quote_project]] empty_state))
     = [(''id-1'', 2), (''id-0'', 1)]
   \<and> map (\<lambda>p. (pr_id p, pr_number p)) (projects (run_renders env0
       [[AddProject quote_project], [AddProject quote_project],
        [DeleteProject ''id-1''], [AddProject quote_project]] empty_state))
     = [(''id-2'', 2), (''id-0'', 1)]"
  by (simp add: env0_def empty_state_def quote_project_def addProject_in_def deleteProject_def
        generateId_def string_of_nat.simps)

section \<open>The final payment of a project\<close>

lemma updateProject_projects:
  "projects (updateProject e ident u s) =
     map (\<lambda>p. if pr_id p = ident then apply_updates p u else p) (projects s)"
  by (simp add: updateProject_def Let_def split: option.splits)

lemma updateProject_transactions:
  "transactions (updateProject e ident u s) =
     (case find (\<lambda>p. pr_id p = ident) (projects s) of
        None \<Rightarrow> transactions s
      | Some proj \<Rightarrow>
          if u_status u = Some concluido \<and> pr_status proj \<noteq> concluido
          then (final_payment e ident proj)\<lparr>t_id := new_id e (id_calls s),
                                            t_created_at := now_iso e\<rparr> # transactions s
          else transactions s)"
  by (simp add: updateProject_def Let_def split: option.splits)

lemma apply_updates_fields:
  "pr_status (apply_updates p u) = (case u_status u of None \<Rightarrow> pr_status p | Some v \<Rightarrow> v)"
  "pr_id (apply_updates p u) = (case u_id u of None \<Rightarrow> pr_id p | Some v \<Rightarrow> v)"
  "pr_budget (apply_updates p u) = (case u_budget u of None \<Rightarrow> pr_budget p | Some v \<Rightarrow> v)"
  by (simp_all add: apply_updates_def)

text \<open>
  After an update that sets the status to \<^verbatim>\<open>concluido\<close>, whatever project the next
  update finds under the same identifier is completed.
\<close>

lemma found_after_completed:
  assumes "u_status u = Some concluido"
    and "find (\<lambda>p. pr_id p = ident) (projects (updateProject e ident u s)) = Some q"
  shows "pr_status q = concluido"
proof -
  from assms(2) have "q \<in> set (projects (updateProject e ident u s))" and "pr_id q = ident"
    by (auto simp: find_Some_iff)
  then obtain p where "p \<in> set (projects s)"
    and q: "q = (if pr_id p = ident then apply_updates p u else p)"
    by (auto simp: updateProject_projects)
  with \<open>pr_id q = ident\<close> have "q = apply_updates p u" by (auto split: if_splits)
  with assms(1) show ?thesis by (simp add: apply_updates_fields)
qed

lemma resave_emits_nothing:
  assumes "u_status u = Some concluido"
  shows "transactions (updateProject e' ident u' (updateProject e ident u s)) =
         transactions (updateProject e ident u s)"
proof (cases "find (\<lambda>p. pr_id p = ident) (projects (updateProject e ident u s))")
  case None
  then show ?thesis by (simp add: updateProject_transactions [of e' ident u'])
next
  case (Some q)
  with assms have "pr_status q = concluido" by (rule found_after_completed)
  with Some show ?thesis by (simp add: updateProject_transactions [of e' ident u'])
qed

text \<open>
  Claim C5, as the code has it, for one call of \<^verbatim>\<open>updateProject\<close> on a stored project
  \<open>proj\<close> (the first one with the identifier). If the update sets the status to
  \<^verbatim>\<open>concluido\<close> and \<open>proj\<close> was not completed, exactly one transaction is put in front
  of the ledger: an inflow of half of the budget \<open>proj\<close> had, tagged with the project.
  If \<open>proj\<close> was completed already, or the update does not set the status to
  \<^verbatim>\<open>concluido\<close>, the ledger is unchanged. An update that directly follows one that
  set the status to \<^verbatim>\<open>concluido\<close> never emits a transaction. (The guard looks at the
  previous status only, so nothing is promised across a status that leaves
  \<^verbatim>\<open>concluido\<close> and returns.)
\<close>

theorem C5_updateProject_final_payment:
  "(find (\<lambda>p. pr_id p = ident) (projects s) = Some proj \<and> pr_status proj \<noteq> concluido \<and>
      u_status u = Some concluido \<longrightarrow>
      (\<exists>tx. transactions (updateProject e ident u s) = tx # transactions s \<and>
            t_type tx = entrada \<and> t_amount tx = 0.5 * pr_budget proj \<and>
            t_project_id tx = Some ident \<and> t_category tx = ''Pagamento Final''))
   \<and> (find (\<lambda>p. pr_id p = ident) (projects s) = Some proj \<and> pr_status proj = concluido \<longrightarrow>
        transactions (updateProject e ident u s) = transactions s)
   \<and> (u_status u \<noteq> Some concluido \<longrightarrow>
        transactions (updateProject e ident u s) = transactions s)
   \<and> (u_status u = Some concluido \<longrightarrow>
        transactions (updateProject e' ident u' (updateProject e ident u s)) =
        transactions (updateProject e ident u s))"
proof (intro conjI impI)
  assume "find (\<lambda>p. pr_id p = ident) (projects s) = Some proj \<and> pr_status proj \<noteq> concluido \<and>
      u_status u = Some concluido"
  then show "\<exists>tx. transactions (updateProject e ident u s) = tx # transactions s \<and>
            t_type tx = entrada \<and> t_amount tx = 0.5 * pr_budget proj \<and>
            t_project_id tx = Some ident \<and> t_category tx = ''Pagamento Final''"
    by (simp add: updateProject_transactions final_payment_def)
next
  assume "find (\<lambda>p. pr_id p = ident) (projects s) = Some proj \<and> pr_status proj = concluido"
  then show "transactions (updateProject e ident u s) = transactions s"
    by (simp add: updateProject_transactions)
next
  assume "u_status u \<noteq> Some concluido"
  then show "transactions (updateProject e ident u s) = transactions s"
    by (simp add: updateProject_transactions split: option.splits)
next
  assume "u_status u = Some concluido"
  then show "transactions (updateProject e' ident u' (updateProject e ident u s)) =
        transactions (updateProject e ident u s)"
    by (rule resave_emits_nothing)
qed

lemma one_project_projects:
  "projects one_project =
     [quote_project\<lparr>pr_id := ''id-0'', pr_number := 1, pr_created_at := now_iso env0\<rparr>]"
  "transactions one_project = []"
  "id_calls one_project = 1"
  by (simp_all add: one_project_def addProject_def addProject_in_def generateId_def env0_def empty_state_def
        quote_project_def string_of_nat.simps)

lemma completed_project:
  "projects (updateProject env0 ''id-0'' to_completed one_project) =
     [quote_project\<lparr>pr_id := ''id-0'', pr_number := 1, pr_status := concluido,
                    pr_created_at := now_iso env0\<rparr>]"
  by (simp add: updateProject_projects one_project_projects apply_updates_def to_completed_def
        no_updates_def quote_project_def)

theorem C5_updateProject_final_payment_witness:
  "find (\<lambda>p. pr_id p = ''id-0'') (projects one_project) = Some (hd (projects one_project))
   \<and> pr_status (hd (projects one_project)) \<noteq> concluido
   \<and> pr_budget (hd (projects one_project)) = 1000
   \<and> u_status to_completed = Some concluido
   \<and> u_status to_approved \<noteq> Some concluido
   \<and> map t_amount (transactions (updateProject env0 ''id-0'' to_completed one_project)) = [500]
   \<and> transactions (updateProject env0 ''id-0'' to_approved one_project) = []
   \<and> pr_status (hd (projects (updateProject env0 ''id-0'' to_completed one_project))) = concluido
   \<and> transactions (updateProject env0 ''id-0'' no_updates
         (updateProject env0 ''id-0'' to_completed one_project)) =
       transactions (updateProject env0 ''id-0'' to_completed one_project)
   \<and> transactions (updateProject env0 ''id-0'' to_completed
         (updateProject env0 ''id-0'' to_completed one_project)) =
       transactions (updateProject env0 ''id-0'' to_completed one_project)"
proof -
  let ?s1 = "updateProject env0 ''id-0'' to_completed one_project"
  have f: "find (\<lambda>p. pr_id p = ''id-0'') (projects one_project) = Some (hd (projects one_project))"
    and st: "pr_status (hd (projects one_project)) \<noteq> concluido"
    and b: "pr_budget (hd (projects one_project)) = 1000"
    by (simp_all add: one_project_projects quote_project_def)
  have c: "u_status to_completed = Some concluido"
    and a: "u_status to_approved \<noteq> Some concluido"
    by (simp_all add: to_completed_def to_approved_def no_updates_def)
  have f1: "find (\<lambda>p. pr_id p = ''id-0'') (projects ?s1) = Some (hd (projects ?s1))"
    and st1: "pr_status (hd (projects ?s1)) = concluido"
    by (simp_all add: completed_project)
  note inst = C5_updateProject_final_payment [where ident = "''id-0''" and s = one_project
      and proj = "hd (projects one_project)" and e = env0 and e' = env0 and u' = to_completed]
  from inst [where u = to_completed] f st c b
  have "map t_amount (transactions (updateProject env0 ''id-0'' to_completed one_project)) = [500]"
    by (auto simp: one_project_projects)
  moreover from inst [where u = to_approved] a
  have "transactions (updateProject env0 ''id-0'' to_approved one_project) = []"
    by (simp add: one_project_projects)
  moreover from C5_updateProject_final_payment [where ident = "''id-0''" and s = ?s1
      and proj = "hd (projects ?s1)" and e = env0 and u = no_updates] f1 st1
  have "transactions (updateProject env0 ''id-0'' no_updates ?s1) = transactions ?s1"
    by blast
  moreover from inst [where u = to_completed] c
  have "transactions (updateProject env0 ''id-0'' to_completed
         (updateProject env0 ''id-0'' to_completed one_project)) =
       transactions (updateProject env0 ''id-0'' to_completed one_project)"
    by blast
  ultimately show ?thesis using f st b c a st1 by blast
qed

text \<open>
  The claim as stated fails in its last part: a project that is completed, moved back
  to \<^verbatim>\<open>aprovado\<close> and completed again gets the final payment twice.
\<close>

theorem C5_final_payment_twice_counterexample:
  "map (\<lambda>t. (t_project_id t, t_category t, t_amount t))
     (transactions (updateProject env0 ''id-0'' to_completed
        (updateProject env0 ''id-0'' to_approved
           (updateProject env0 ''id-0'' to_completed one_project))))
   = [(Some ''id-0'', ''Pagamento Final'', 500), (Some ''id-0'', ''Pagamento Final'', 500)]"
  by (simp add: updateProject_def final_payment_def addTransaction_def generateId_def
        one_project_projects quote_project_def to_completed_def to_approved_def
        no_updates_def apply_updates_def)

text \<open>
  Claim C9. When one update both sets the status to \<^verbatim>\<open>concluido\<close> and supplies a new
  budget \<open>b\<close>, the final payment is half of the budget the stored project had before
  the update; the stored project itself gets budget \<open>b\<close>.
\<close>

theorem C9_final_payment_uses_old_budget:
  assumes "find (\<lambda>p. pr_id p = ident) (projects s) = Some proj"
    and "pr_status proj \<noteq> concluido"
    and "u_status u = Some concluido"
    and "u_budget u = Some b"
  shows "transactions (updateProject e ident u s) =
           (final_payment e ident proj)\<lparr>t_id := new_id e (id_calls s),
                                        t_created_at := now_iso e\<rparr> # transactions s
         \<and> t_amount (hd (transactions (updateProject e ident u s))) = 0.5 * pr_budget proj
         \<and> projects (updateProject e ident u s) =
             map (\<lambda>p. if pr_id p = ident then apply_updates p u else p) (projects s)
         \<and> pr_budget (apply_updates proj u) = b"
  using assms
  by (simp add: updateProject_transactions updateProject_projects apply_updates_fields
        final_payment_def)

theorem C9_final_payment_uses_old_budget_witness:
  "find (\<lambda>p. pr_id p = ''id-0'') (projects one_project) = Some (hd (projects one_project))
   \<and> pr_status (hd (projects one_project)) \<noteq> concluido
   \<and> pr_budget (hd (projects one_project)) = 1000
   \<and> t_amount (hd (transactions
        (updateProject env0 ''id-0'' (to_completed\<lparr>u_budget := Some 3000\<rparr>) one_project))) = 500
   \<and> map pr_budget (projects
        (updateProject env0 ''id-0'' (to_completed\<lparr>u_budget := Some 3000\<rparr>) one_project)) = [3000]"
proof -
  let ?u = "to_completed\<lparr>u_budget := Some 3000\<rparr>"
  have f: "find (\<lambda>p. pr_id p = ''id-0'') (projects one_project) = Some (hd (projects one_project))"
    and st: "pr_status (hd (projects one_project)) \<noteq> concluido"
    and b: "pr_budget (hd (projects one_project)) = 1000"
    by (simp_all add: one_project_projects quote_project_def)
  have c: "u_status ?u = Some concluido" and nb: "u_budget ?u = Some 3000"
    by (simp_all add: to_completed_def no_updates_def)
  note inst = C9_final_payment_uses_old_budget [OF f st c nb, of env0]
  from inst have "t_amount (hd (transactions (updateProject env0 ''id-0'' ?u one_project))) =
      0.5 * pr_budget (hd (projects one_project))" by blast
  with b have "t_amount (hd (transactions (updateProject env0 ''id-0'' ?u one_project))) = 500"
    by simp
  moreover from inst have "map pr_budget (projects (updateProject env0 ''id-0'' ?u one_project)) = [3000]"
    by (simp add: one_project_projects)
  ultimately show ?thesis using f st b by blast
qed

section \<open>The stock cascade of a sale\<close>

lemma summary_stamped [simp]:
  "summary (m\<lparr>sm_id := i, sm_created_at := t\<rparr>) = summary m"
  by (simp add: summary_def)

lemma component_loop_summary:
  "map summary (stockMovements (component_loop e pid pp cs s)) =
     rev (map (\<lambda>c. summary (component_movement e pid pp c)) cs) @ map summary (stockMovements s)"
  by (induction cs arbitrary: s) simp_all

lemma line_summary:
  "map summary (stockMovements
      (case find (\<lambda>p. p_id p = pp_product_id pp) cat of
          None \<Rightarrow> s
        | Some prd \<Rightarrow>
            (let s1 = addStockMovement e (sale_movement e pid prd pp) s
             in if p_type prd \<noteq> material_bruto
                then component_loop e pid pp (p_components prd) s1
                else s1))) =
   rev (cascade_spec cat pid pp) @ map summary (stockMovements s)"
  by (simp add: cascade_spec_def component_loop_summary Let_def summary_def sale_movement_def
        component_movement_def rev_map split: option.splits)

lemma process_loop_summary:
  "map summary (stockMovements (process_loop e cat pid pps s)) =
     rev (concat (map (cascade_spec cat pid) pps)) @ map summary (stockMovements s)"
proof (induction pps arbitrary: s)
  case Nil
  then show ?case by simp
next
  case (Cons pp pps)
  show ?case
    unfolding process_loop.simps Cons line_summary by simp
qed

text \<open>
  Claim C6. \<^verbatim>\<open>processProjectStockMovement\<close> puts in front of the ledger (newest first,
  so in reverse order of emission) exactly the movements of the cascade: per line item
  whose product is in the catalog, one \<^verbatim>\<open>saida\<close> movement of the sold product at the
  line item's quantity, unit price and total price, followed, when the product is not a
  raw material, by one \<^verbatim>\<open>saida\<close> movement per direct component with quantity
  \<open>component quantity * line quantity\<close> and total value
  \<open>component total cost * line quantity\<close>; nothing for deeper levels.
\<close>

theorem C6_processProjectStockMovement_cascade:
  "map summary (stockMovements (processProjectStockMovement e projectId lineItems s)) =
     rev (concat (map (cascade_spec (products s) projectId) lineItems))
       @ map summary (stockMovements s)"
  by (simp add: processProjectStockMovement_def process_loop_summary)

text \<open>
  Selling 3 of \<open>B\<close> (two \<open>A\<close> each, \<open>A\<close> at 120) gives one movement of \<open>B\<close> (3) and
  one of \<open>A\<close> (6, total value 720). Selling one \<open>D\<close> (made of \<open>B\<close>) moves \<open>D\<close> and
  \<open>B\<close>, and not the \<open>A\<close> inside \<open>B\<close>.
\<close>

theorem C6_processProjectStockMovement_cascade_witness:
  "map summary (stockMovements (processProjectStockMovement env0 ''P'' [three_B] catalog_state))
     = [(''A'', saida, 6, Some 120, Some 720, Some ''P''),
        (''B'', saida, 3, Some 400, Some 1200, Some ''P'')]
   \<and> map summary (stockMovements (processProjectStockMovement env0 ''P'' [one_D] catalog_state))
     = [(''B'', saida, 1, Some 240, Some 240, Some ''P''),
        (''D'', saida, 1, Some 900, Some 900, Some ''P'')]"
  using C6_processProjectStockMovement_cascade [of env0 "''P''" "[three_B]" catalog_state]
    C6_processProjectStockMovement_cascade [of env0 "''P''" "[one_D]" catalog_state]
  by (simp add: cascade_spec_def catalog_state_def empty_state_def prodA_def prodB_def
        prodD_def three_B_def one_D_def)

section \<open>The stock counter and the ledger\<close>

lemma ledger_sum_Cons:
  "ledger_sum (m # ms) i = (if sm_product_id m = i then signed_quantity m else 0) + ledger_sum ms i"
  by (simp add: ledger_sum_def)

lemma ledger_sum_none:
  assumes "\<forall>m \<in> set ms. sm_product_id m \<noteq> i"
  shows "ledger_sum ms i = 0"
proof -
  from assms have "filter (\<lambda>m. sm_product_id m = i) ms = []" by (simp add: filter_empty_conv)
  then show ?thesis by (simp add: ledger_sum_def)
qed

lemma addStockMovement_consistent:
  assumes "stock_consistent init s"
  shows "stock_consistent init (addStockMovement e md s)"
  using assms
  by (auto simp: stock_consistent_def addStockMovement_def generateId_def list_all_iff
        ledger_sum_Cons signed_quantity_def)

lemma component_loop_consistent:
  "stock_consistent init s \<Longrightarrow> stock_consistent init (component_loop e pid pp cs s)"
  by (induction cs arbitrary: s) (simp_all add: addStockMovement_consistent)

lemma process_loop_consistent:
  "stock_consistent init s \<Longrightarrow> stock_consistent init (process_loop e cat pid pps s)"
proof (induction pps arbitrary: s)
  case Nil
  then show ?case by simp
next
  case (Cons pp pps)
  then show ?case
    by (auto simp: Let_def addStockMovement_consistent component_loop_consistent
        split: option.splits intro!: Cons.IH)
qed

lemma addProject_in_consistent:
  assumes "stock_consistent init s"
  shows "stock_consistent init (addProject_in e seen catalog pd s)"
proof -
  let ?s2 = "(snd (generateId e s))\<lparr>projects :=
      pd\<lparr>pr_id := fst (generateId e s),
         pr_number := (case map pr_number seen of [] \<Rightarrow> 1 | n # ns \<Rightarrow> fold max ns n + 1),
         pr_created_at := now_iso e\<rparr> # projects (snd (generateId e s))\<rparr>"
  have c2: "stock_consistent init ?s2"
    using assms by (simp add: stock_consistent_def generateId_def)
  have c3: "stock_consistent init (addTransaction e td ?s2)" for td
    using c2 by (simp add: stock_consistent_def)
  show ?thesis
    using c2 c3 process_loop_consistent
    by (simp add: addProject_in_def Let_def split_beta)
qed

lemma addProject_consistent:
  assumes "stock_consistent init s"
  shows "stock_consistent init (addProject e pd s)"
  using assms by (simp add: addProject_def addProject_in_consistent)

lemma insertProduct_fields [simp]:
  "products (insertProduct e pd s) =
     pd\<lparr>p_id := new_id e (id_calls s), p_created_at := now_iso e\<rparr> # products s"
  "stockMovements (insertProduct e pd s) = stockMovements s"
  "id_calls (insertProduct e pd s) = Suc (id_calls s)"
  by (simp_all add: insertProduct_def generateId_def)

lemma insertProduct_consistent:
  assumes "stock_consistent init s"
    and "\<forall>p \<in> set (products s). p_id p \<noteq> new_id e (id_calls s)"
    and "\<forall>m \<in> set (stockMovements s). sm_product_id m \<noteq> new_id e (id_calls s)"
  shows "stock_consistent (init(new_id e (id_calls s) := p_current_stock pd)) (insertProduct e pd s)"
  using assms ledger_sum_none [OF assms(3)]
  by (auto simp: stock_consistent_def list_all_iff)

lemma addProduct_result:
  assumes "addProduct n e pd s = Some (Inr s')"
  shows "s' = insertProduct e pd (if p_components pd \<noteq> [] then snd (generateId e s) else s)"
  using assms
  by (auto simp: addProduct_def Let_def split_beta split: if_splits option.splits bool.splits)

lemma addProduct_consistent:
  assumes "addProduct n e pd s = Some (Inr s')"
    and "stock_consistent init s"
    and "\<forall>p \<in> set (products s). p_id p \<noteq> p_id (hd (products s'))"
    and "\<forall>m \<in> set (stockMovements s). sm_product_id m \<noteq> p_id (hd (products s'))"
  shows "stock_consistent (init(p_id (hd (products s')) := p_current_stock pd)) s'"
proof -
  let ?s0 = "if p_components pd \<noteq> [] then snd (generateId e s) else s"
  have s': "s' = insertProduct e pd ?s0" using assms(1) by (rule addProduct_result)
  have same: "products ?s0 = products s" "stockMovements ?s0 = stockMovements s"
    by (simp_all add: generateId_def)
  then have c: "stock_consistent init ?s0" using assms(2) by (simp add: stock_consistent_def)
  have i: "p_id (hd (products s')) = new_id e (id_calls ?s0)" by (simp add: s')
  show ?thesis
    unfolding i unfolding s'
    by (rule insertProduct_consistent [OF c]) (use assms(3,4) i same in simp_all)
qed

lemma updateProduct_result:
  assumes "updateProduct n prd s = Some (Inr s')"
  shows "s' = replaceProduct prd s"
  using assms
  by (auto simp: updateProduct_def split: if_splits option.splits bool.splits)

lemma updateProduct_consistent:
  assumes "updateProduct n prd s = Some (Inr s')"
    and "stock_consistent init s"
    and "\<forall>p \<in> set (products s). p_id p = p_id prd \<longrightarrow> p_current_stock p = p_current_stock prd"
  shows "stock_consistent init s'"
  using assms(2,3) unfolding updateProduct_result [OF assms(1)]
  by (auto simp: stock_consistent_def list_all_iff replaceProduct_def)

text \<open>
  Claim C1, as the code has it. With \<open>init\<close> the initial stock per product, the
  invariant \<open>current_stock = init + signed sum of the product's movements\<close> is
  preserved, for every product, by \<^verbatim>\<open>addStockMovement\<close>, by
  \<^verbatim>\<open>processProjectStockMovement\<close> and by \<^verbatim>\<open>addProject\<close> with its cascade. A
  successful \<^verbatim>\<open>addProduct\<close> preserves it with the new product's initial stock set to
  the stock it was created with, provided the new identifier is fresh (no stored product
  and no movement carries it). A successful \<^verbatim>\<open>updateProduct\<close> preserves it when the
  record it stores has the counter of the products it replaces.
\<close>

theorem C1_stock_consistent_preserved:
  "(stock_consistent init s \<longrightarrow> stock_consistent init (addStockMovement e md s))
   \<and> (stock_consistent init s \<longrightarrow>
        stock_consistent init (processProjectStockMovement e projectId lineItems s))
   \<and> (stock_consistent init s \<longrightarrow> stock_consistent init (addProject e projectData s))
   \<and> (stock_consistent init s \<and> addProduct n e productData s = Some (Inr s1) \<and>
        (\<forall>p \<in> set (products s). p_id p \<noteq> p_id (hd (products s1))) \<and>
        (\<forall>m \<in> set (stockMovements s). sm_product_id m \<noteq> p_id (hd (products s1))) \<longrightarrow>
        stock_consistent (init(p_id (hd (products s1)) := p_current_stock productData)) s1)
   \<and> (stock_consistent init s \<and> updateProduct n prd s = Some (Inr s2) \<and>
        (\<forall>p \<in> set (products s). p_id p = p_id prd \<longrightarrow> p_current_stock p = p_current_stock prd) \<longrightarrow>
        stock_consistent init s2)"
proof (intro conjI impI)
  assume "stock_consistent init s"
  then show "stock_consistent init (addStockMovement e md s)"
    by (rule addStockMovement_consistent)
next
  assume "stock_consistent init s"
  then show "stock_consistent init (processProjectStockMovement e projectId lineItems s)"
    by (simp add: processProjectStockMovement_def process_loop_consistent)
next
  assume "stock_consistent init s"
  then show "stock_consistent init (addProject e projectData s)"
    by (rule addProject_consistent)
next
  assume "stock_consistent init s \<and> addProduct n e productData s = Some (Inr s1) \<and>
        (\<forall>p \<in> set (products s). p_id p \<noteq> p_id (hd (products s1))) \<and>
        (\<forall>m \<in> set (stockMovements s). sm_product_id m \<noteq> p_id (hd (products s1)))"
  then show "stock_consistent (init(p_id (hd (products s1)) := p_current_stock productData)) s1"
    using addProduct_consistent by blast
next
  assume "stock_consistent init s \<and> updateProduct n prd s = Some (Inr s2) \<and>
        (\<forall>p \<in> set (products s). p_id p = p_id prd \<longrightarrow> p_current_stock p = p_current_stock prd)"
  then show "stock_consistent init s2"
    using updateProduct_consistent by blast
qed

lemma catalog_consistent: "stock_consistent initial_stock catalog_state"
  by (simp add: stock_consistent_def initial_stock_def catalog_state_def empty_state_def
        prodA_def prodB_def prodD_def ledger_sum_def)

lemma addProduct_prodB:
  "addProduct (Suc (Suc 0)) env0 prodB catalog_state =
     Some (Inr (insertProduct env0 prodB (catalog_state\<lparr>id_calls := 1\<rparr>)))"
  by (simp add: addProduct_def generateId_def catalog_state_def empty_state_def env0_def
        prodA_def prodB_def prodD_def string_of_nat.simps checkCircularReference.simps)

lemma updateProduct_renamed_B:
  "updateProduct (Suc (Suc 0)) renamed_B catalog_state =
     Some (Inr (replaceProduct renamed_B catalog_state))"
  by (simp add: updateProduct_def catalog_state_def empty_state_def renamed_B_def
        prodA_def prodB_def prodD_def checkCircularReference.simps)

theorem C1_stock_consistent_preserved_witness:
  "stock_consistent initial_stock catalog_state
   \<and> stock_consistent initial_stock (addStockMovement env0 restock_A catalog_state)
   \<and> stock_consistent initial_stock
       (processProjectStockMovement env0 ''P'' [three_B] catalog_state)
   \<and> stock_consistent initial_stock (addProject env0 sale_project catalog_state)
   \<and> addProduct (Suc (Suc 0)) env0 prodB catalog_state =
       Some (Inr (insertProduct env0 prodB (catalog_state\<lparr>id_calls := 1\<rparr>)))
   \<and> p_id (hd (products (insertProduct env0 prodB (catalog_state\<lparr>id_calls := 1\<rparr>)))) = ''id-1''
   \<and> stock_consistent (initial_stock(''id-1'' := 10))
       (insertProduct env0 prodB (catalog_state\<lparr>id_calls := 1\<rparr>))
   \<and> updateProduct (Suc (Suc 0)) renamed_B catalog_state =
       Some (Inr (replaceProduct renamed_B catalog_state))
   \<and> stock_consistent initial_stock (replaceProduct renamed_B catalog_state)"
proof -
  let ?s1 = "insertProduct env0 prodB (catalog_state\<lparr>id_calls := 1\<rparr>)"
  let ?s2 = "replaceProduct renamed_B catalog_state"
  note inst = C1_stock_consistent_preserved [where init = initial_stock and s = catalog_state
      and e = env0 and md = restock_A and projectId = "''P''" and lineItems = "[three_B]"
      and projectData = sale_project and n = "Suc (Suc 0)" and productData = prodB
      and ?s1.0 = ?s1 and prd = renamed_B and ?s2.0 = ?s2]
  have i: "p_id (hd (products ?s1)) = ''id-1''"
    by (simp add: env0_def string_of_nat.simps)
  have fresh_p: "\<forall>p \<in> set (products catalog_state). p_id p \<noteq> p_id (hd (products ?s1))"
    unfolding i by (simp add: catalog_state_def prodA_def prodB_def prodD_def)
  have fresh_m: "\<forall>m \<in> set (stockMovements catalog_state). sm_product_id m \<noteq> p_id (hd (products ?s1))"
    by (simp add: catalog_state_def empty_state_def)
  have same: "\<forall>p \<in> set (products catalog_state).
      p_id p = p_id renamed_B \<longrightarrow> p_current_stock p = p_current_stock renamed_B"
    by (simp add: catalog_state_def renamed_B_def prodA_def prodB_def prodD_def)
  have st: "p_current_stock prodB = 10" by (simp add: prodB_def)
  from inst catalog_consistent
  have "stock_consistent initial_stock (addStockMovement env0 restock_A catalog_state)"
    and "stock_consistent initial_stock
       (processProjectStockMovement env0 ''P'' [three_B] catalog_state)"
    and "stock_consistent initial_stock (addProject env0 sale_project catalog_state)"
    by blast+
  moreover from inst catalog_consistent addProduct_prodB fresh_p fresh_m
  have "stock_consistent (initial_stock(p_id (hd (products ?s1)) := p_current_stock prodB)) ?s1"
    by blast
  then have "stock_consistent (initial_stock(''id-1'' := 10)) ?s1"
    unfolding i st .
  moreover from inst catalog_consistent updateProduct_renamed_B same
  have "stock_consistent initial_stock ?s2" by blast
  ultimately show ?thesis
    using catalog_consistent addProduct_prodB updateProduct_renamed_B i by blast
qed

text \<open>
  The claim as stated fails. \<^verbatim>\<open>deleteProject\<close> removes the movements of a project
  and leaves the counters as they are: after a sale of 3 \<open>B\<close> is created and deleted,
  the ledger is empty again while the counters of \<open>B\<close> and \<open>A\<close> stay at 7 and 44
  instead of 10 and 50. And \<^verbatim>\<open>updateProduct\<close> stores whatever counter the caller
  passes, with no movement to account for it.
\<close>

theorem C1_ledger_diverges_counterexample:
  "stock_consistent initial_stock catalog_state
   \<and> stock_consistent initial_stock (addProject env0 sale_project catalog_state)
   \<and> \<not> stock_consistent initial_stock
         (deleteProject ''id-0'' (addProject env0 sale_project catalog_state))
   \<and> map p_current_stock (products
         (deleteProject ''id-0'' (addProject env0 sale_project catalog_state))) = [5, 7, 44]
   \<and> stockMovements (deleteProject ''id-0'' (addProject env0 sale_project catalog_state)) = []
   \<and> updateProduct (Suc (Suc 0)) recounted_B catalog_state =
       Some (Inr (replaceProduct recounted_B catalog_state))
   \<and> \<not> stock_consistent initial_stock (replaceProduct recounted_B catalog_state)"
  by (simp add: stock_consistent_def initial_stock_def catalog_state_def empty_state_def
       addProject_def addProject_in_def deleteProject_def sale_project_def quote_project_def env0_def generateId_def
       addTransaction_def addStockMovement_def sale_movement_def component_movement_def
       prodA_def prodB_def prodD_def three_B_def ledger_sum_def signed_quantity_def
       string_of_nat.simps updateProduct_def replaceProduct_def recounted_B_def
       checkCircularReference.simps)

section \<open>The cycle check\<close>

lemma reaches_rtrancl: "reaches cat a b \<longleftrightarrow> (a, b) \<in> (component_edges cat)\<^sup>*"
  by (auto simp: reaches_def rtrancl_eq_or_trancl)

lemma check_Suc_found:
  "t \<noteq> x \<Longrightarrow> find (\<lambda>p. p_id p = x) cat = Some prd \<Longrightarrow>
   checkCircularReference (Suc n) cat t x =
     some_component (\<lambda>c. checkCircularReference n cat t c) (p_components prd)"
  by (simp add: checkCircularReference.simps)

lemma check_Suc_same: "checkCircularReference (Suc n) cat t t = Some True"
  by (simp add: checkCircularReference.simps)

lemma check_Suc_missing:
  "t \<noteq> x \<Longrightarrow> find (\<lambda>p. p_id p = x) cat = None \<Longrightarrow>
   checkCircularReference (Suc n) cat t x = Some False"
  by (simp add: checkCircularReference.simps)

lemma check_0: "checkCircularReference 0 cat t x = None"
  by (simp add: checkCircularReference.simps)

lemma some_component_mono:
  assumes "\<And>c b. c \<in> pc_product_id ` set cs \<Longrightarrow> f c = Some b \<Longrightarrow> g c = Some b"
    and "some_component f cs = Some r"
  shows "some_component g cs = Some r"
  using assms
proof (induction cs)
  case Nil
  then show ?case by simp
next
  case (Cons c cs)
  then show ?case
    by (cases "f (pc_product_id c)") (auto split: bool.splits)
qed

lemma check_mono_Suc:
  "checkCircularReference n cat t x = Some r \<Longrightarrow> checkCircularReference (Suc n) cat t x = Some r"
proof (induction n arbitrary: x r)
  case 0
  then show ?case by (simp add: check_0)
next
  case (Suc n)
  show ?case
  proof (cases "t = x")
    case True
    with Suc.prems show ?thesis by (simp add: check_Suc_same)
  next
    case False
    show ?thesis
    proof (cases "find (\<lambda>p. p_id p = x) cat")
      case None
      with False Suc.prems show ?thesis by (simp add: check_Suc_missing)
    next
      case (Some prd)
      with False Suc.prems have "some_component (\<lambda>c. checkCircularReference n cat t c) (p_components prd) = Some r"
        by (simp add: check_Suc_found)
      then have "some_component (\<lambda>c. checkCircularReference (Suc n) cat t c) (p_components prd) = Some r"
        by (rule some_component_mono [rotated]) (rule Suc.IH)
      with False Some show ?thesis by (simp add: check_Suc_found)
    qed
  qed
qed

lemma check_mono:
  "checkCircularReference n cat t x = Some r \<Longrightarrow> n \<le> m \<Longrightarrow> checkCircularReference m cat t x = Some r"
  by (induction m) (auto simp: le_Suc_eq check_mono_Suc)

lemma some_component_True:
  "some_component f cs = Some True \<Longrightarrow> \<exists>c \<in> set cs. f (pc_product_id c) = Some True"
  by (induction cs) (auto split: option.splits bool.splits)

lemma some_component_False:
  "some_component f cs = Some False \<Longrightarrow> \<forall>c \<in> set cs. f (pc_product_id c) = Some False"
  by (induction cs) (auto split: option.splits bool.splits)

lemma edgeI:
  "find (\<lambda>p. p_id p = a) cat = Some prd \<Longrightarrow> c \<in> set (p_components prd) \<Longrightarrow> (a, pc_product_id c) \<in> component_edges cat"
  by (auto simp: component_edges_def)

lemma check_True_reaches:
  "checkCircularReference n cat t x = Some True \<Longrightarrow> reaches cat x t"
proof (induction n arbitrary: x)
  case 0
  then show ?case by (simp add: check_0)
next
  case (Suc n)
  show ?case
  proof (cases "t = x")
    case True
    then show ?thesis by (simp add: reaches_rtrancl)
  next
    case False
    with Suc.prems obtain prd where f: "find (\<lambda>p. p_id p = x) cat = Some prd"
      and sc: "some_component (\<lambda>c. checkCircularReference n cat t c) (p_components prd) = Some True"
      by (cases "find (\<lambda>p. p_id p = x) cat") (auto simp: check_Suc_missing check_Suc_found)
    from some_component_True [OF sc] obtain c where c: "c \<in> set (p_components prd)"
      and "checkCircularReference n cat t (pc_product_id c) = Some True" by blast
    then have "reaches cat (pc_product_id c) t" by (simp add: Suc.IH)
    with edgeI [OF f c] show ?thesis
      unfolding reaches_rtrancl by (rule converse_rtrancl_into_rtrancl)
  qed
qed

lemma check_False_not_reaches:
  "checkCircularReference n cat t x = Some False \<Longrightarrow> \<not> reaches cat x t"
proof (induction n arbitrary: x)
  case 0
  then show ?case by (simp add: check_0)
next
  case (Suc n)
  from Suc.prems have ne: "t \<noteq> x" by (auto simp: check_Suc_same)
  show ?case
  proof
    assume "reaches cat x t"
    then have "(x, t) \<in> (component_edges cat)\<^sup>*" by (simp add: reaches_rtrancl)
    with ne obtain y where xy: "(x, y) \<in> component_edges cat" and yt: "(y, t) \<in> (component_edges cat)\<^sup>*"
      by (auto elim: converse_rtranclE)
    from xy obtain prd c where f: "find (\<lambda>p. p_id p = x) cat = Some prd"
      and c: "c \<in> set (p_components prd)" and y: "y = pc_product_id c"
      by (auto simp: component_edges_def)
    from Suc.prems ne f have "some_component (\<lambda>c. checkCircularReference n cat t c) (p_components prd) = Some False"
      by (simp add: check_Suc_found)
    from some_component_False [OF this] c have "checkCircularReference n cat t (pc_product_id c) = Some False"
      by blast
    then have "\<not> reaches cat y t" unfolding y by (rule Suc.IH)
    with yt show False by (simp add: reaches_rtrancl)
  qed
qed

lemma check_result:
  "checkCircularReference n cat t x = Some r \<Longrightarrow> r = reaches cat x t"
  using check_True_reaches check_False_not_reaches by (cases r) auto


lemma find_SomeD: "find P xs = Some x \<Longrightarrow> x \<in> set xs \<and> P x"
  by (induction xs) (auto split: if_splits)

lemma finite_component_edges: "finite (component_edges cat)"
proof -
  have "component_edges cat \<subseteq>
      (p_id ` set cat) \<times> (\<Union>p \<in> set cat. pc_product_id ` set (p_components p))"
  proof
    fix e assume "e \<in> component_edges cat"
    then obtain a b prd where e: "e = (a, b)"
      and f: "find (\<lambda>p. p_id p = a) cat = Some prd"
      and b: "b \<in> pc_product_id ` set (p_components prd)"
      by (auto simp: component_edges_def)
    from find_SomeD [OF f] have "prd \<in> set cat" and "p_id prd = a" by simp_all
    with b e show "e \<in> (p_id ` set cat) \<times> (\<Union>p \<in> set cat. pc_product_id ` set (p_components p))"
      by auto
  qed
  then show ?thesis by (rule finite_subset) simp
qed

lemma reachable_edges_subset: "reachable_edges cat start \<subseteq> component_edges cat"
  by (auto simp: reachable_edges_def)

lemma some_component_total:
  "\<forall>c \<in> set cs. f (pc_product_id c) \<noteq> None \<Longrightarrow> some_component f cs \<noteq> None"
  by (induction cs) (auto split: option.splits bool.splits)

lemma uniform_fuel:
  assumes "\<forall>c \<in> set cs. \<exists>n. checkCircularReference n cat t (pc_product_id c) \<noteq> None"
  shows "\<exists>N. \<forall>c \<in> set cs. checkCircularReference N cat t (pc_product_id c) \<noteq> None"
  using assms
proof (induction cs)
  case Nil
  then show ?case by simp
next
  case (Cons c cs)
  then obtain N where N: "\<forall>c \<in> set cs. checkCircularReference N cat t (pc_product_id c) \<noteq> None"
    by auto
  from Cons.prems obtain n where n: "checkCircularReference n cat t (pc_product_id c) \<noteq> None"
    by auto
  have "\<forall>d \<in> set (c # cs). checkCircularReference (max n N) cat t (pc_product_id d) \<noteq> None"
  proof
    fix d assume "d \<in> set (c # cs)"
    then consider "d = c" | "d \<in> set cs" by auto
    then have "\<exists>k \<le> max n N. checkCircularReference k cat t (pc_product_id d) \<noteq> None"
    proof cases
      case 1
      with n have "n \<le> max n N \<and> checkCircularReference n cat t (pc_product_id d) \<noteq> None"
        by simp
      then show ?thesis by blast
    next
      case 2
      with N have "N \<le> max n N \<and> checkCircularReference N cat t (pc_product_id d) \<noteq> None"
        by simp
      then show ?thesis by blast
    qed
    then obtain k r where "k \<le> max n N"
      and "checkCircularReference k cat t (pc_product_id d) = Some r" by auto
    then have "checkCircularReference (max n N) cat t (pc_product_id d) = Some r"
      using check_mono by blast
    then show "checkCircularReference (max n N) cat t (pc_product_id d) \<noteq> None" by simp
  qed
  then show ?case ..
qed

lemma check_terminates_from:
  assumes ac: "acyclic (reachable_edges cat start)"
  shows "reaches cat start x \<Longrightarrow> \<exists>n. checkCircularReference n cat t x \<noteq> None"
proof -
  have "finite (reachable_edges cat start)"
    using finite_component_edges reachable_edges_subset by (rule rev_finite_subset)
  then have wf: "wf ((reachable_edges cat start)\<inverse>)"
    using ac by (rule finite_acyclic_wf_converse)
  show "reaches cat start x \<Longrightarrow> \<exists>n. checkCircularReference n cat t x \<noteq> None"
  using wf
  proof (induction x rule: wf_induct_rule)
    case (less x)
    show ?case
    proof (cases "t = x")
      case True
      then have "checkCircularReference (Suc 0) cat t x \<noteq> None" by (simp add: check_Suc_same)
      then show ?thesis ..
    next
      case False
      show ?thesis
      proof (cases "find (\<lambda>p. p_id p = x) cat")
        case None
        with False have "checkCircularReference (Suc 0) cat t x \<noteq> None"
          by (simp add: check_Suc_missing)
        then show ?thesis ..
      next
        case (Some prd)
        have "\<forall>c \<in> set (p_components prd). \<exists>n. checkCircularReference n cat t (pc_product_id c) \<noteq> None"
        proof
          fix c assume c: "c \<in> set (p_components prd)"
          from edgeI [OF Some c] have e: "(x, pc_product_id c) \<in> component_edges cat" .
          with less.prems have "(pc_product_id c, x) \<in> (reachable_edges cat start)\<inverse>"
            by (simp add: reachable_edges_def)
          moreover from less.prems e have "reaches cat start (pc_product_id c)"
            by (simp add: reaches_rtrancl)
          ultimately show "\<exists>n. checkCircularReference n cat t (pc_product_id c) \<noteq> None"
            by (rule less.IH)
        qed
        from uniform_fuel [OF this] obtain N
          where "\<forall>c \<in> set (p_components prd). checkCircularReference N cat t (pc_product_id c) \<noteq> None" ..
        then have "some_component (\<lambda>c. checkCircularReference N cat t c) (p_components prd) \<noteq> None"
          by (rule some_component_total)
        with False Some have "checkCircularReference (Suc N) cat t x \<noteq> None"
          by (simp add: check_Suc_found)
        then show ?thesis ..
      qed
    qed
  qed
qed

lemma check_terminates:
  assumes "acyclic (reachable_edges cat start)"
  shows "\<exists>n. \<forall>m \<ge> n. checkCircularReference m cat t start = Some (reaches cat start t)"
proof -
  have "reaches cat start start" by (simp add: reaches_def)
  with assms obtain n r where n: "checkCircularReference n cat t start = Some r"
    using check_terminates_from by blast
  then have "r = reaches cat start t" by (rule check_result)
  with n have "\<forall>m \<ge> n. checkCircularReference m cat t start = Some (reaches cat start t)"
    using check_mono by blast
  then show ?thesis ..
qed

text \<open>
  Claim C4, as the code has it. When no cycle of the component graph can be reached
  from \<open>proposedComponentId\<close>, the check returns (every depth of recursion from some
  depth on is enough), and it returns \<^verbatim>\<open>true\<close> exactly when \<open>proposedComponentId\<close> is
  \<open>candidateProductId\<close> or reaches it through component edges. Cycles in parts of the
  catalog the traversal does not reach do no harm.
\<close>

theorem C4_checkCircularReference_acyclic:
  assumes "acyclic (reachable_edges catalog proposedComponentId)"
  shows "\<exists>n. \<forall>m \<ge> n.
           checkCircularReference m catalog candidateProductId proposedComponentId =
             Some (proposedComponentId = candidateProductId \<or>
                   (proposedComponentId, candidateProductId) \<in> (component_edges catalog)\<^sup>+)"
  using check_terminates [OF assms, of candidateProductId] by (simp add: reaches_def)

lemma find_mixed:
  "find (\<lambda>p. p_id p = ''B'') mixed_catalog = Some prodB"
  "find (\<lambda>p. p_id p = ''A'') mixed_catalog = Some prodA"
  "find (\<lambda>p. p_id p = ''X'') mixed_catalog = Some prodX"
  "find (\<lambda>p. p_id p = ''Y'') mixed_catalog = Some prodY"
  by (simp_all add: mixed_catalog_def prodA_def prodB_def prodX_def prodY_def)

lemma edges_from_B: "(''B'', b) \<in> component_edges mixed_catalog \<longleftrightarrow> b = ''A''"
  by (auto simp: component_edges_def find_mixed prodB_def)

lemma edges_from_A: "(''A'', b) \<notin> component_edges mixed_catalog"
  by (auto simp: component_edges_def find_mixed prodA_def)

lemma reaches_from_B:
  assumes "reaches mixed_catalog ''B'' a"
  shows "a = ''B'' \<or> a = ''A''"
proof -
  from assms have "(''B'', a) \<in> (component_edges mixed_catalog)\<^sup>*"
    by (simp add: reaches_rtrancl)
  then show ?thesis
    by (induction rule: rtrancl_induct) (auto simp: edges_from_B edges_from_A)
qed

lemma reachable_edges_B: "reachable_edges mixed_catalog ''B'' = {(''B'', ''A'')}"
proof
  show "reachable_edges mixed_catalog ''B'' \<subseteq> {(''B'', ''A'')}"
  proof
    fix e assume "e \<in> reachable_edges mixed_catalog ''B''"
    then obtain a b where e: "e = (a, b)" and r: "reaches mixed_catalog ''B'' a"
      and ab: "(a, b) \<in> component_edges mixed_catalog"
      by (auto simp: reachable_edges_def)
    from reaches_from_B [OF r] ab have "a = ''B''" using edges_from_A by blast
    with ab e show "e \<in> {(''B'', ''A'')}" by (simp add: edges_from_B)
  qed
  show "{(''B'', ''A'')} \<subseteq> reachable_edges mixed_catalog ''B''"
    by (simp add: reachable_edges_def reaches_def edges_from_B)
qed

lemma acyclic_from_B: "acyclic (reachable_edges mixed_catalog ''B'')"
  by (simp add: reachable_edges_B acyclic_insert wf_acyclic)

text \<open>
  In the mixed catalog \<open>X\<close> and \<open>Y\<close> form a cycle, which \<open>B\<close> does not reach: the
  check from \<open>B\<close> returns, \<^verbatim>\<open>true\<close> for the candidate \<open>A\<close> and \<^verbatim>\<open>false\<close> for \<open>X\<close>.
\<close>

theorem C4_checkCircularReference_acyclic_witness:
  "acyclic (reachable_edges mixed_catalog ''B'')
   \<and> (''X'', ''Y'') \<in> component_edges mixed_catalog
   \<and> (''Y'', ''X'') \<in> component_edges mixed_catalog
   \<and> (\<exists>n. checkCircularReference n mixed_catalog ''A'' ''B'' = Some True)
   \<and> (\<exists>n. checkCircularReference n mixed_catalog ''X'' ''B'' = Some False)"
proof -
  have BA: "(''B'', ''A'') \<in> (component_edges mixed_catalog)\<^sup>+"
    by (simp add: edges_from_B r_into_trancl)
  have "\<not> reaches mixed_catalog ''B'' ''X''" using reaches_from_B by fastforce
  then have BX: "\<not> (''B'' = ''X'' \<or> (''B'', ''X'') \<in> (component_edges mixed_catalog)\<^sup>+)"
    by (simp add: reaches_def)
  from C4_checkCircularReference_acyclic [OF acyclic_from_B, of "''A''"] BA
  have "\<exists>n. checkCircularReference n mixed_catalog ''A'' ''B'' = Some True" by auto
  moreover from C4_checkCircularReference_acyclic [OF acyclic_from_B, of "''X''"] BX
  have "\<exists>n. checkCircularReference n mixed_catalog ''X'' ''B'' = Some False" by auto
  moreover have "(''X'', ''Y'') \<in> component_edges mixed_catalog" "(''Y'', ''X'') \<in> component_edges mixed_catalog"
    by (simp_all add: component_edges_def find_mixed prodX_def prodY_def one_of_def)
  ultimately show ?thesis using acyclic_from_B by blast
qed

text \<open>
  The claim as stated fails: with a cycle between \<open>X\<close> and \<open>Y\<close>, neither of them the
  candidate \<open>Z\<close>, the check started at \<open>X\<close> exceeds every depth of recursion; it never
  returns.
\<close>

lemma check_cycle_never:
  "checkCircularReference n mixed_catalog ''Z'' ''X'' = None \<and>
   checkCircularReference n mixed_catalog ''Z'' ''Y'' = None"
proof (induction n)
  case 0
  then show ?case by (simp add: check_0)
next
  case (Suc n)
  then show ?case
    by (simp add: check_Suc_found [of _ _ mixed_catalog] find_mixed prodX_def prodY_def one_of_def)
qed

theorem C4_checkCircularReference_diverges_counterexample:
  "\<forall>n. checkCircularReference n mixed_catalog ''Z'' ''X'' = None"
  using check_cycle_never by blast

section \<open>Creating a product\<close>

lemma some_component_all_False:
  "\<forall>c \<in> set cs. f (pc_product_id c) = Some False \<Longrightarrow> some_component f cs = Some False"
  by (induction cs) auto

lemma fresh_not_reached:
  assumes "x \<in> p_id ` set cat"
    and "t \<notin> p_id ` set cat"
    and "\<forall>p \<in> set cat. t \<notin> pc_product_id ` set (p_components p)"
  shows "\<not> reaches cat x t"
proof
  assume "reaches cat x t"
  with assms(1,2) have "(x, t) \<in> (component_edges cat)\<^sup>+" by (auto simp: reaches_def)
  then obtain y where "(y, t) \<in> component_edges cat" by (auto elim: tranclE)
  then obtain prd where f: "find (\<lambda>p. p_id p = y) cat = Some prd"
    and t: "t \<in> pc_product_id ` set (p_components prd)"
    by (auto simp: component_edges_def)
  from find_SomeD [OF f] have "prd \<in> set cat" by simp
  with assms(3) t show False by blast
qed

lemma check_fresh:
  assumes ac: "acyclic (component_edges cat)"
    and refs: "\<forall>c \<in> set cs. pc_product_id c \<in> p_id ` set cat"
    and fresh: "t \<notin> p_id ` set cat" "\<forall>p \<in> set cat. t \<notin> pc_product_id ` set (p_components p)"
  shows "\<exists>n. \<forall>m \<ge> n. some_component (checkCircularReference m cat t) cs = Some False"
proof -
  have "\<forall>c \<in> set cs. \<exists>n. checkCircularReference n cat t (pc_product_id c) \<noteq> None"
  proof
    fix c assume "c \<in> set cs"
    have "acyclic (reachable_edges cat (pc_product_id c))"
      using reachable_edges_subset ac by (rule acyclic_subset [rotated])
    from check_terminates [OF this, of t]
    show "\<exists>n. checkCircularReference n cat t (pc_product_id c) \<noteq> None" by auto
  qed
  from uniform_fuel [OF this] obtain N
    where N: "\<forall>c \<in> set cs. checkCircularReference N cat t (pc_product_id c) \<noteq> None" ..
  have "\<forall>m \<ge> N. some_component (checkCircularReference m cat t) cs = Some False"
  proof (intro allI impI)
    fix m assume m: "N \<le> m"
    have "\<forall>c \<in> set cs. checkCircularReference m cat t (pc_product_id c) = Some False"
    proof
      fix c assume c: "c \<in> set cs"
      with N obtain r where "checkCircularReference N cat t (pc_product_id c) = Some r" by auto
      with m have r: "checkCircularReference m cat t (pc_product_id c) = Some r"
        by (rule check_mono [rotated])
      then have "r = reaches cat (pc_product_id c) t" by (rule check_result)
      moreover have "\<not> reaches cat (pc_product_id c) t"
        using refs c fresh by (intro fresh_not_reached) auto
      ultimately show "checkCircularReference m cat t (pc_product_id c) = Some False"
        using r by simp
    qed
    then show "some_component (checkCircularReference m cat t) cs = Some False"
      by (rule some_component_all_False)
  qed
  then show ?thesis ..
qed

lemma check_fresh_never_True:
  assumes refs: "\<forall>c \<in> set cs. pc_product_id c \<in> p_id ` set cat"
    and fresh: "t \<notin> p_id ` set cat" "\<forall>p \<in> set cat. t \<notin> pc_product_id ` set (p_components p)"
  shows "some_component (checkCircularReference m cat t) cs \<noteq> Some True"
proof
  assume "some_component (checkCircularReference m cat t) cs = Some True"
  from some_component_True [OF this] obtain c where c: "c \<in> set cs"
    and "checkCircularReference m cat t (pc_product_id c) = Some True" by blast
  then have "reaches cat (pc_product_id c) t" by (simp add: check_True_reaches)
  moreover have "\<not> reaches cat (pc_product_id c) t"
    using refs c fresh by (intro fresh_not_reached) auto
  ultimately show False by simp
qed

text \<open>
  Claim C10. On an acyclic catalog, with components that reference stored products and
  a generated identifier that is fresh (no stored product has it, none references it),
  \<^verbatim>\<open>addProduct\<close> never raises the circular-reference error, and it returns with the
  product inserted in front of the catalog.
\<close>

theorem C10_addProduct_never_circular:
  assumes "acyclic (component_edges (products s))"
    and "\<forall>c \<in> set (p_components productData). pc_product_id c \<in> p_id ` set (products s)"
    and "new_id e (id_calls s) \<notin> p_id ` set (products s)"
    and "\<forall>p \<in> set (products s). new_id e (id_calls s) \<notin> pc_product_id ` set (p_components p)"
  shows "(\<forall>m. addProduct m e productData s \<noteq> Some (Inl CircularReference))
       \<and> (\<exists>n. \<forall>m \<ge> n. \<exists>s'. addProduct m e productData s = Some (Inr s') \<and>
              products s' =
                productData\<lparr>p_id := new_id e (id_calls s +
                                        (if p_components productData = [] then 0 else 1)),
                            p_created_at := now_iso e\<rparr> # products s)"
proof
  show "\<forall>m. addProduct m e productData s \<noteq> Some (Inl CircularReference)"
    using check_fresh_never_True [OF assms(2,3,4)]
    by (auto simp: addProduct_def generateId_def Let_def split: option.splits bool.splits)
next
  from check_fresh [OF assms] obtain n where
    n: "\<forall>m \<ge> n. some_component (checkCircularReference m (products s) (new_id e (id_calls s)))
         (p_components productData) = Some False" ..
  have "\<forall>m \<ge> n. \<exists>s'. addProduct m e productData s = Some (Inr s') \<and>
              products s' =
                productData\<lparr>p_id := new_id e (id_calls s +
                                        (if p_components productData = [] then 0 else 1)),
                            p_created_at := now_iso e\<rparr> # products s"
    using n by (simp add: addProduct_def generateId_def Let_def)
  then show "\<exists>n. \<forall>m \<ge> n. \<exists>s'. addProduct m e productData s = Some (Inr s') \<and>
              products s' =
                productData\<lparr>p_id := new_id e (id_calls s +
                                        (if p_components productData = [] then 0 else 1)),
                            p_created_at := now_iso e\<rparr> # products s" ..
qed

lemma catalog_acyclic: "acyclic (component_edges (products catalog_state))"
proof (rule acyclicI_order)
  fix a b assume "(a, b) \<in> component_edges (products catalog_state)"
  then show "catalog_rank b < catalog_rank a"
    by (auto simp: component_edges_def catalog_state_def empty_state_def catalog_rank_def
          prodA_def prodB_def prodD_def split: if_splits)
qed

theorem C10_addProduct_never_circular_witness:
  "acyclic (component_edges (products catalog_state))
   \<and> map pc_product_id (p_components prodD) = [''B'']
   \<and> map p_id (products catalog_state) = [''D'', ''B'', ''A'']
   \<and> new_id env0 (id_calls catalog_state) = ''id-0''
   \<and> (\<forall>m. addProduct m env0 prodD catalog_state \<noteq> Some (Inl CircularReference))
   \<and> (\<exists>n. \<forall>m \<ge> n. \<exists>s'. addProduct m env0 prodD catalog_state = Some (Inr s') \<and>
          products s' = prodD\<lparr>p_id := ''id-1'', p_created_at := now_iso env0\<rparr>
                          # products catalog_state)"
proof -
  have comps: "map pc_product_id (p_components prodD) = [''B'']" by (simp add: prodD_def)
  have ids: "map p_id (products catalog_state) = [''D'', ''B'', ''A'']"
    by (simp add: catalog_state_def prodA_def prodB_def prodD_def)
  have calls: "id_calls catalog_state = 0" by (simp add: catalog_state_def empty_state_def)
  have temp: "new_id env0 (id_calls catalog_state) = ''id-0''"
    and final: "new_id env0 (id_calls catalog_state + 1) = ''id-1''"
    by (simp_all add: calls env0_def string_of_nat.simps)
  have refs: "\<forall>c \<in> set (p_components prodD). pc_product_id c \<in> p_id ` set (products catalog_state)"
    by (simp add: prodD_def catalog_state_def prodA_def prodB_def)
  have fresh1: "new_id env0 (id_calls catalog_state) \<notin> p_id ` set (products catalog_state)"
    unfolding temp by (simp add: catalog_state_def prodA_def prodB_def prodD_def)
  have fresh2: "\<forall>p \<in> set (products catalog_state).
      new_id env0 (id_calls catalog_state) \<notin> pc_product_id ` set (p_components p)"
    unfolding temp by (simp add: catalog_state_def prodA_def prodB_def prodD_def)
  have ne: "p_components prodD \<noteq> []" by (simp add: prodD_def)
  from C10_addProduct_never_circular [OF catalog_acyclic refs fresh1 fresh2]
  have "(\<forall>m. addProduct m env0 prodD catalog_state \<noteq> Some (Inl CircularReference))
      \<and> (\<exists>n. \<forall>m \<ge> n. \<exists>s'. addProduct m env0 prodD catalog_state = Some (Inr s') \<and>
          products s' = prodD\<lparr>p_id := ''id-1'', p_created_at := now_iso env0\<rparr>
                          # products catalog_state)"
    using ne final by simp
  with catalog_acyclic comps ids temp show ?thesis by blast
qed

section \<open>The cost of a product\<close>

lemma cost_0: "calculateProductCost 0 cat x = None"
  by (simp add: calculateProductCost.simps)

lemma cost_Suc_missing:
  "find (\<lambda>p. p_id p = x) cat = None \<Longrightarrow> calculateProductCost (Suc n) cat x = Some 0"
  by (simp add: calculateProductCost.simps)

lemma cost_Suc_raw:
  "find (\<lambda>p. p_id p = x) cat = Some prd \<Longrightarrow> p_type prd = material_bruto \<Longrightarrow>
   calculateProductCost (Suc n) cat x = Some (p_cost_price prd)"
  by (simp add: calculateProductCost.simps)

lemma cost_Suc_composite:
  "find (\<lambda>p. p_id p = x) cat = Some prd \<Longrightarrow> p_type prd \<noteq> material_bruto \<Longrightarrow>
   calculateProductCost (Suc n) cat x =
     cost_loop (\<lambda>c. calculateProductCost n cat c) (p_components prd) 0"
  by (simp add: calculateProductCost.simps)

lemma cost_loop_mono:
  assumes "\<And>c v. f c = Some v \<Longrightarrow> g c = Some v"
    and "cost_loop f cs acc = Some r"
  shows "cost_loop g cs acc = Some r"
  using assms(2)
proof (induction cs arbitrary: acc)
  case Nil
  then show ?case by simp
next
  case (Cons c cs)
  then show ?case
    by (cases "f (pc_product_id c)") (auto simp: assms(1))
qed

lemma cost_mono_Suc:
  "calculateProductCost n cat x = Some v \<Longrightarrow> calculateProductCost (Suc n) cat x = Some v"
proof (induction n arbitrary: x v)
  case 0
  then show ?case by (simp add: cost_0)
next
  case (Suc n)
  show ?case
  proof (cases "find (\<lambda>p. p_id p = x) cat")
    case None
    with Suc.prems show ?thesis by (simp add: cost_Suc_missing)
  next
    case (Some prd)
    show ?thesis
    proof (cases "p_type prd = material_bruto")
      case True
      with Some Suc.prems show ?thesis by (simp add: cost_Suc_raw)
    next
      case False
      with Some Suc.prems
      have "cost_loop (\<lambda>c. calculateProductCost n cat c) (p_components prd) 0 = Some v"
        by (simp add: cost_Suc_composite)
      then have "cost_loop (\<lambda>c. calculateProductCost (Suc n) cat c) (p_components prd) 0 = Some v"
        by (rule cost_loop_mono [rotated]) (rule Suc.IH)
      with False Some show ?thesis by (simp add: cost_Suc_composite)
    qed
  qed
qed

lemma cost_mono:
  "calculateProductCost n cat x = Some v \<Longrightarrow> n \<le> m \<Longrightarrow> calculateProductCost m cat x = Some v"
  by (induction m) (auto simp: le_Suc_eq cost_mono_Suc)

lemma cost_returns_unique:
  assumes "cost_returns cat x v" and "cost_returns cat x w"
  shows "v = w"
proof -
  from assms obtain n m where n: "calculateProductCost n cat x = Some v"
    and m: "calculateProductCost m cat x = Some w"
    by (auto simp: cost_returns_def)
  from n have "calculateProductCost (max n m) cat x = Some v" by (rule cost_mono) simp
  moreover from m have "calculateProductCost (max n m) cat x = Some w" by (rule cost_mono) simp
  ultimately show ?thesis by simp
qed

lemma cost_loop_sum:
  "\<forall>c \<in> set cs. f (pc_product_id c) = Some (v (pc_product_id c)) \<Longrightarrow>
   cost_loop f cs acc = Some (acc + (\<Sum>c\<leftarrow>cs. v (pc_product_id c) * pc_quantity c))"
  by (induction cs arbitrary: acc) (simp_all add: add.assoc)

lemma cost_uniform_fuel:
  assumes "\<forall>c \<in> set cs. \<exists>n. calculateProductCost n cat (pc_product_id c) = Some (v (pc_product_id c))"
  shows "\<exists>N. \<forall>c \<in> set cs. calculateProductCost N cat (pc_product_id c) = Some (v (pc_product_id c))"
  using assms
proof (induction cs)
  case Nil
  then show ?case by simp
next
  case (Cons c cs)
  then obtain N where N: "\<forall>c \<in> set cs. calculateProductCost N cat (pc_product_id c) = Some (v (pc_product_id c))"
    by auto
  from Cons.prems obtain n where n: "calculateProductCost n cat (pc_product_id c) = Some (v (pc_product_id c))"
    by auto
  have "\<forall>d \<in> set (c # cs). calculateProductCost (max n N) cat (pc_product_id d) = Some (v (pc_product_id d))"
  proof
    fix d assume "d \<in> set (c # cs)"
    then consider "d = c" | "d \<in> set cs" by auto
    then show "calculateProductCost (max n N) cat (pc_product_id d) = Some (v (pc_product_id d))"
    proof cases
      case 1
      with n show ?thesis using cost_mono [of n cat _ _ "max n N"] by simp
    next
      case 2
      with N show ?thesis using cost_mono [of N cat _ _ "max n N"] by simp
    qed
  qed
  then show ?case ..
qed

lemma cost_returns_composite:
  assumes f: "find (\<lambda>p. p_id p = x) cat = Some prd" and t: "p_type prd \<noteq> material_bruto"
    and cs: "\<forall>c \<in> set (p_components prd). cost_returns cat (pc_product_id c) (v (pc_product_id c))"
  shows "cost_returns cat x (\<Sum>c\<leftarrow>p_components prd. v (pc_product_id c) * pc_quantity c)"
proof -
  from cs have "\<forall>c \<in> set (p_components prd). \<exists>n. calculateProductCost n cat (pc_product_id c) = Some (v (pc_product_id c))"
    by (simp add: cost_returns_def)
  from cost_uniform_fuel [OF this] obtain N where
    "\<forall>c \<in> set (p_components prd). calculateProductCost N cat (pc_product_id c) = Some (v (pc_product_id c))" ..
  then have "cost_loop (\<lambda>c. calculateProductCost N cat c) (p_components prd) 0 =
      Some (0 + (\<Sum>c\<leftarrow>p_components prd. v (pc_product_id c) * pc_quantity c))"
    by (rule cost_loop_sum)
  with f t have "calculateProductCost (Suc N) cat x = Some (\<Sum>c\<leftarrow>p_components prd. v (pc_product_id c) * pc_quantity c)"
    by (simp add: cost_Suc_composite)
  then show ?thesis unfolding cost_returns_def ..
qed

lemma cost_terminates_from:
  assumes ac: "acyclic (reachable_edges cat start)"
  shows "reaches cat start x \<Longrightarrow> \<exists>v. cost_returns cat x v"
proof -
  have "finite (reachable_edges cat start)"
    using finite_component_edges reachable_edges_subset by (rule rev_finite_subset)
  then have wf: "wf ((reachable_edges cat start)\<inverse>)"
    using ac by (rule finite_acyclic_wf_converse)
  show "reaches cat start x \<Longrightarrow> \<exists>v. cost_returns cat x v"
    using wf
  proof (induction x rule: wf_induct_rule)
    case (less x)
    show ?case
    proof (cases "find (\<lambda>p. p_id p = x) cat")
      case None
      then have "calculateProductCost (Suc 0) cat x = Some 0" by (rule cost_Suc_missing)
      then show ?thesis unfolding cost_returns_def by blast
    next
      case (Some prd)
      show ?thesis
      proof (cases "p_type prd = material_bruto")
        case True
        with Some have "calculateProductCost (Suc 0) cat x = Some (p_cost_price prd)"
          by (rule cost_Suc_raw)
        then show ?thesis unfolding cost_returns_def by blast
      next
        case False
        have "\<forall>i \<in> pc_product_id ` set (p_components prd). \<exists>v. cost_returns cat i v"
        proof
          fix i assume "i \<in> pc_product_id ` set (p_components prd)"
          then obtain c where c: "c \<in> set (p_components prd)" and i: "i = pc_product_id c" by auto
          from edgeI [OF Some c] have e: "(x, i) \<in> component_edges cat" by (simp add: i)
          with less.prems have "(i, x) \<in> (reachable_edges cat start)\<inverse>"
            by (simp add: reachable_edges_def)
          moreover from less.prems e have "reaches cat start i"
            by (simp add: reaches_rtrancl)
          ultimately show "\<exists>v. cost_returns cat i v" by (rule less.IH)
        qed
        then obtain v where "\<forall>i \<in> pc_product_id ` set (p_components prd). cost_returns cat i (v i)"
          using bchoice [of "pc_product_id ` set (p_components prd)" "cost_returns cat"] by blast
        then have "\<forall>c \<in> set (p_components prd). cost_returns cat (pc_product_id c) (v (pc_product_id c))"
          by simp
        from cost_returns_composite [OF Some False this] show ?thesis ..
      qed
    qed
  qed
qed

lemma cost_components_return:
  assumes ac: "acyclic (reachable_edges cat x)"
    and f: "find (\<lambda>p. p_id p = x) cat = Some prd"
  shows "\<exists>v. \<forall>c \<in> set (p_components prd). cost_returns cat (pc_product_id c) (v (pc_product_id c))"
proof -
  have "\<forall>i \<in> pc_product_id ` set (p_components prd). \<exists>v. cost_returns cat i v"
  proof
    fix i assume "i \<in> pc_product_id ` set (p_components prd)"
    then obtain c where c: "c \<in> set (p_components prd)" and i: "i = pc_product_id c" by auto
    from edgeI [OF f c] have "reaches cat x i" by (simp add: i reaches_rtrancl)
    with ac show "\<exists>v. cost_returns cat i v" by (rule cost_terminates_from)
  qed
  then obtain v where "\<forall>i \<in> pc_product_id ` set (p_components prd). cost_returns cat i (v i)"
    using bchoice [of "pc_product_id ` set (p_components prd)" "cost_returns cat"] by blast
  then have "\<forall>c \<in> set (p_components prd). cost_returns cat (pc_product_id c) (v (pc_product_id c))"
    by simp
  then show ?thesis by blast
qed

text \<open>
  Claim C2, as the code has it. For every catalog and product identifier: the call
  returns 0 when the catalog has no such product; it returns the stored cost price when
  the product is a raw material; otherwise, when the calls for the components return, it
  returns the sum of their costs times the component quantities. What a call returns
  does not depend on the depth of recursion it was given. When no cycle of the component
  graph can be reached from the product, the call returns, and so do the calls for its
  components: the result is then the sum over the components. Cycles in parts of the
  catalog the product does not reach do no harm.
\<close>

theorem C2_calculateProductCost:
  "(find (\<lambda>p. p_id p = productId) catalog = None \<longrightarrow> cost_returns catalog productId 0)
   \<and> (find (\<lambda>p. p_id p = productId) catalog = Some prd \<and> p_type prd = material_bruto \<longrightarrow>
        cost_returns catalog productId (p_cost_price prd))
   \<and> (find (\<lambda>p. p_id p = productId) catalog = Some prd \<and> p_type prd \<noteq> material_bruto \<and>
        (\<forall>c \<in> set (p_components prd).
            cost_returns catalog (pc_product_id c) (cost (pc_product_id c))) \<longrightarrow>
        cost_returns catalog productId
          (\<Sum>c\<leftarrow>p_components prd. cost (pc_product_id c) * pc_quantity c))
   \<and> (cost_returns catalog productId v \<and> cost_returns catalog productId w \<longrightarrow> v = w)
   \<and> (acyclic (reachable_edges catalog productId) \<longrightarrow>
        (\<exists>r. cost_returns catalog productId r))
   \<and> (acyclic (reachable_edges catalog productId) \<and>
        find (\<lambda>p. p_id p = productId) catalog = Some prd \<and> p_type prd \<noteq> material_bruto \<longrightarrow>
        (\<exists>price.
            (\<forall>c \<in> set (p_components prd).
                cost_returns catalog (pc_product_id c) (price (pc_product_id c)))
            \<and> cost_returns catalog productId
                (\<Sum>c\<leftarrow>p_components prd. price (pc_product_id c) * pc_quantity c)))"
proof (intro conjI impI)
  assume "find (\<lambda>p. p_id p = productId) catalog = None"
  then have "calculateProductCost (Suc 0) catalog productId = Some 0" by (rule cost_Suc_missing)
  then show "cost_returns catalog productId 0" unfolding cost_returns_def ..
next
  assume "find (\<lambda>p. p_id p = productId) catalog = Some prd \<and> p_type prd = material_bruto"
  then have "calculateProductCost (Suc 0) catalog productId = Some (p_cost_price prd)"
    by (simp add: cost_Suc_raw)
  then show "cost_returns catalog productId (p_cost_price prd)" unfolding cost_returns_def ..
next
  assume "find (\<lambda>p. p_id p = productId) catalog = Some prd \<and> p_type prd \<noteq> material_bruto \<and>
        (\<forall>c \<in> set (p_components prd). cost_returns catalog (pc_product_id c) (cost (pc_product_id c)))"
  then show "cost_returns catalog productId
          (\<Sum>c\<leftarrow>p_components prd. cost (pc_product_id c) * pc_quantity c)"
    using cost_returns_composite by blast
next
  assume "cost_returns catalog productId v \<and> cost_returns catalog productId w"
  then show "v = w" using cost_returns_unique by blast
next
  assume "acyclic (reachable_edges catalog productId)"
  moreover have "reaches catalog productId productId" by (simp add: reaches_def)
  ultimately show "\<exists>r. cost_returns catalog productId r" by (rule cost_terminates_from)
next
  assume a: "acyclic (reachable_edges catalog productId) \<and>
        find (\<lambda>p. p_id p = productId) catalog = Some prd \<and> p_type prd \<noteq> material_bruto"
  then obtain price where
    p: "\<forall>c \<in> set (p_components prd). cost_returns catalog (pc_product_id c) (price (pc_product_id c))"
    using cost_components_return by blast
  with a have "cost_returns catalog productId
                (\<Sum>c\<leftarrow>p_components prd. price (pc_product_id c) * pc_quantity c)"
    using cost_returns_composite by blast
  with p show "\<exists>price.
            (\<forall>c \<in> set (p_components prd).
                cost_returns catalog (pc_product_id c) (price (pc_product_id c)))
            \<and> cost_returns catalog productId
                (\<Sum>c\<leftarrow>p_components prd. price (pc_product_id c) * pc_quantity c)"
    by blast
qed

text \<open>
  The scenario of the claim, in a catalog that also holds the cycle between \<open>X\<close> and
  \<open>Y\<close>: \<open>A\<close> is a raw material with cost price 120 and \<open>B\<close> is made of two \<open>A\<close>; the
  cost of \<open>B\<close> is 240.
\<close>

theorem C2_calculateProductCost_witness:
  "find (\<lambda>p. p_id p = ''Q'') mixed_catalog = None
   \<and> cost_returns mixed_catalog ''Q'' 0
   \<and> find (\<lambda>p. p_id p = ''A'') mixed_catalog = Some prodA
   \<and> p_type prodA = material_bruto
   \<and> cost_returns mixed_catalog ''A'' 120
   \<and> find (\<lambda>p. p_id p = ''B'') mixed_catalog = Some prodB
   \<and> p_type prodB \<noteq> material_bruto
   \<and> map (\<lambda>c. (pc_product_id c, pc_quantity c)) (p_components prodB) = [(''A'', 2)]
   \<and> cost_returns mixed_catalog ''B'' 240
   \<and> calculateProductCost (Suc (Suc 0)) mixed_catalog ''B'' = Some 240
   \<and> acyclic (reachable_edges mixed_catalog ''B'')
   \<and> (\<exists>r. cost_returns mixed_catalog ''B'' r \<and> r = 240)
   \<and> (\<exists>price. cost_returns mixed_catalog ''A'' price
         \<and> cost_returns mixed_catalog ''B'' (price * 2))"
proof -
  let ?cat = mixed_catalog
  have fq: "find (\<lambda>p. p_id p = ''Q'') ?cat = None"
    by (simp add: mixed_catalog_def prodA_def prodB_def prodX_def prodY_def)
  note fa = find_mixed(2) and fb = find_mixed(1)
  have ta: "p_type prodA = material_bruto" and tb: "p_type prodB \<noteq> material_bruto"
    by (simp_all add: prodA_def prodB_def)
  note q0 = C2_calculateProductCost [where productId = "''Q''" and catalog = ?cat]
  from q0 [THEN conjunct1] fq
  have q: "cost_returns ?cat ''Q'' 0" by blast
  note a0 = C2_calculateProductCost [where productId = "''A''" and catalog = ?cat and prd = prodA]
  from a0 [THEN conjunct2, THEN conjunct1] fa ta
  have "cost_returns ?cat ''A'' (p_cost_price prodA)" by blast
  then have a: "cost_returns ?cat ''A'' 120" by (simp add: prodA_def)
  then have cs: "\<forall>c \<in> set (p_components prodB). cost_returns ?cat (pc_product_id c) 120"
    by (simp add: prodB_def)
  note b0 = C2_calculateProductCost [where productId = "''B''" and catalog = ?cat and prd = prodB]
  from b0 [where cost = "\<lambda>_. 120", THEN conjunct2, THEN conjunct2, THEN conjunct1] fb tb cs
  have "cost_returns ?cat ''B'' (\<Sum>c\<leftarrow>p_components prodB. 120 * pc_quantity c)" by blast
  then have b: "cost_returns ?cat ''B'' 240" by (simp add: prodB_def)
  have ev: "calculateProductCost (Suc (Suc 0)) ?cat ''B'' = Some 240"
    by (simp add: calculateProductCost.simps mixed_catalog_def prodA_def prodB_def prodX_def
          prodY_def)
  from b0 [THEN conjunct2, THEN conjunct2, THEN conjunct2, THEN conjunct2, THEN conjunct1]
    acyclic_from_B
  obtain r where r: "cost_returns ?cat ''B'' r" by blast
  with b0 [where v = r and w = 240, THEN conjunct2, THEN conjunct2, THEN conjunct2,
      THEN conjunct1] b
  have "r = 240" by blast
  with r have ex: "\<exists>r. cost_returns ?cat ''B'' r \<and> r = 240" by blast
  from b0 [THEN conjunct2, THEN conjunct2, THEN conjunct2, THEN conjunct2, THEN conjunct2]
    acyclic_from_B fb tb
  obtain price where
    "\<forall>c \<in> set (p_components prodB).
        cost_returns mixed_catalog (pc_product_id c) (price (pc_product_id c))"
    and "cost_returns mixed_catalog ''B''
           (\<Sum>c\<leftarrow>p_components prodB. price (pc_product_id c) * pc_quantity c)"
    by blast
  then have "cost_returns mixed_catalog ''A'' (price ''A'')
      \<and> cost_returns mixed_catalog ''B'' (price ''A'' * 2)"
    by (simp add: prodB_def)
  then have sum: "\<exists>price. cost_returns mixed_catalog ''A'' price
      \<and> cost_returns mixed_catalog ''B'' (price * 2)" by blast
  have comps: "map (\<lambda>c. (pc_product_id c, pc_quantity c)) (p_components prodB) = [(''A'', 2)]"
    by (simp add: prodB_def)
  from fq q fa ta a fb tb comps b ev acyclic_from_B ex sum show ?thesis by blast
qed

text \<open>
  The claim as stated fails: \<open>X\<close> is made of one \<open>Y\<close> and \<open>Y\<close> of one \<open>X\<close>, neither a
  raw material. The call for \<open>X\<close> exceeds every depth of recursion; it never returns,
  so it returns no sum.
\<close>

lemma cost_cycle_never:
  "calculateProductCost n mixed_catalog ''X'' = None \<and>
   calculateProductCost n mixed_catalog ''Y'' = None"
proof (induction n)
  case 0
  then show ?case by (simp add: cost_0)
next
  case (Suc n)
  have tx: "p_type prodX \<noteq> material_bruto" and ty: "p_type prodY \<noteq> material_bruto"
    by (simp_all add: prodX_def prodY_def prodB_def)
  from Suc show ?case
    by (simp add: cost_Suc_composite [OF find_mixed(3) tx] cost_Suc_composite [OF find_mixed(4) ty]
          prodX_def prodY_def one_of_def)
qed

theorem C2_cost_never_returns_counterexample:
  "find (\<lambda>p. p_id p = ''X'') mixed_catalog = Some prodX
   \<and> p_type prodX \<noteq> material_bruto
   \<and> p_components prodX = [one_of ''Y'']
   \<and> (\<forall>n. calculateProductCost n mixed_catalog ''X'' = None)
   \<and> \<not> (\<exists>v. cost_returns mixed_catalog ''X'' v)"
  using cost_cycle_never
  by (simp add: find_mixed cost_returns_def prodX_def prodB_def)

section \<open>The revenue of the month\<close>

lemma foldl_amounts:
  fixes a :: real and ts :: "transaction list"
  shows "foldl (\<lambda>sum t. sum + t_amount t) a ts = a + sum_list (map t_amount ts)"
  by (induction ts arbitrary: a) (simp_all add: add.assoc)

lemma monthlyRevenue_eq:
  "monthlyRevenue (getDashboardStats e s) =
     sum_list (map t_amount (filter (\<lambda>t. t_type t = entrada \<and>
        same_month (getMonth (t_date t)) (getMonth (today e))) (transactions s)))"
  by (simp add: getDashboardStats_def Let_def foldl_amounts)

text \<open>
  Claim C7 at the input where the code departs from it. The filter compares the month
  of the transaction with the month of today and never the year: an inflow of 100 dated
  2025-11-10 is counted in the revenue of the month on 2026-11-02, where the claim
  excludes it.
\<close>

theorem C7_monthlyRevenue_counts_other_year:
  "t_type last_year_sale = entrada
   \<and> t_date last_year_sale = ''2025-11-10''
   \<and> today env0 = ''2026-11-02''
   \<and> monthlyRevenue (getDashboardStats env0 (empty_state\<lparr>transactions := [last_year_sale]\<rparr>))
       = 100"
  by (simp add: monthlyRevenue_eq env0_def empty_state_def last_year_sale_def same_month_def
        two_digits_def digit_of_def)

section \<open>CSV export and import\<close>

lemma parse_in_quotes:
  "dquote \<notin> set s \<Longrightarrow> parse_loop (s @ rest) result cur True = parse_loop rest result (cur @ s) True"
  by (induction s arbitrary: cur) auto

lemma parse_plain:
  "dquote \<notin> set s \<Longrightarrow> CHR '','' \<notin> set s \<Longrightarrow>
   parse_loop (s @ rest) result cur False = parse_loop rest result (cur @ s) False"
  by (induction s arbitrary: cur) auto

lemma parse_quoted:
  assumes "dquote \<notin> set s"
  shows "parse_loop (quoted s @ rest) result cur False = parse_loop rest result (cur @ s) False"
proof -
  have "parse_loop (quoted s @ rest) result cur False = parse_loop (s @ dquote # rest) result cur True"
    by (simp add: quoted_def)
  also have "\<dots> = parse_loop (dquote # rest) result (cur @ s) True"
    using assms by (rule parse_in_quotes)
  also have "\<dots> = parse_loop rest result (cur @ s) False" by simp
  finally show ?thesis .
qed

lemma parse_cell:
  "cell_ok c \<Longrightarrow> parse_loop (render c @ rest) result cur False = parse_loop rest result (cur @ content c) False"
  by (cases c) (simp_all add: parse_plain parse_quoted)

lemma comma_not_dquote [simp]: "CHR '','' \<noteq> dquote" "dquote \<noteq> CHR '',''"
  by (simp_all add: dquote_def)

lemma parse_cells:
  "list_all cell_ok cells \<Longrightarrow> cells \<noteq> [] \<Longrightarrow>
   parse_loop (join '','' (map render cells)) result [] False = result @ map (\<lambda>c. trim (content c)) cells"
proof (induction cells arbitrary: result)
  case Nil
  then show ?case by simp
next
  case (Cons c cells)
  show ?case
  proof (cases cells)
    case Nil
    with Cons.prems show ?thesis
      using parse_cell [of c "[]" result "[]"] by simp
  next
    case (Cons d ds)
    with Cons.prems Cons.IH [of "result @ [trim (content c)]"] show ?thesis
      using parse_cell [of c "CHR '','' # join '','' (map render (d # ds))" result "[]"]
      by simp
  qed
qed

lemma parseCSVLine_cells:
  "list_all cell_ok cells \<Longrightarrow> cells \<noteq> [] \<Longrightarrow>
   parseCSVLine (join '','' (map render cells)) = map (\<lambda>c. trim (content c)) cells"
  by (simp add: parseCSVLine_def parse_cells)

lemma split_lines_single: "newline \<notin> set l \<Longrightarrow> split_lines l = [l]"
  by (induction l) auto

lemma split_lines_append:
  "newline \<notin> set l \<Longrightarrow> split_lines (l @ newline # rest) = l # split_lines rest"
  by (induction l) auto

lemma split_lines_join:
  "ls \<noteq> [] \<Longrightarrow> \<forall>l \<in> set ls. newline \<notin> set l \<Longrightarrow> split_lines (join [newline] ls) = ls"
proof (induction ls)
  case Nil
  then show ?case by simp
next
  case (Cons l ls)
  then show ?case
    by (cases ls) (simp_all add: split_lines_single split_lines_append)
qed

lemma trim_id:
  assumes "s \<noteq> []" "\<not> is_space (hd s)" "\<not> is_space (last s)"
  shows "trim s = s"
proof -
  from assms have 1: "dropWhile is_space s = s" by (cases s) simp_all
  from assms have "rev s \<noteq> []" "\<not> is_space (hd (rev s))" by (simp_all add: hd_rev)
  then have "dropWhile is_space (rev s) = rev s" by (cases "rev s") simp_all
  with 1 show ?thesis by (simp add: trim_def)
qed

lemma client_row_cells: "client_row c = map render (client_cells c)"
  by (simp add: client_row_def client_cells_def)

lemma client_cells_ok: "client_safe c \<Longrightarrow> list_all cell_ok (client_cells c)"
  by (simp add: client_safe_def client_cells_def csv_safe_def bool_text_def dquote_def)

lemma trim_literals [simp]:
  "trim ''Cliente'' = ''Cliente''" "trim ''J'' = ''J''" "trim ''F'' = ''F''"
  "trim ''true'' = ''true''" "trim ''false'' = ''false''"
  by (simp_all add: trim_def is_space_def)

lemma parse_client_row:
  assumes "client_safe c"
  shows "parseCSVLine (join '','' (client_row c)) = map (\<lambda>x. trim (content x)) (client_cells c)"
  unfolding client_row_cells
  by (rule parseCSVLine_cells [OF client_cells_ok [OF assms]]) (simp add: client_cells_def)

lemma client_of_row:
  assumes "client_safe c"
  shows "client_of_values (parseCSVLine (join '','' (client_row c))) = reimported c"
  unfolding parse_client_row [OF assms]
  by (simp add: client_cells_def client_of_values_def reimported_def field_at_def
        field_or_empty_def field_or_undefined_def nonempty_def bool_text_def)

lemma set_join: "set (join sep xs) \<subseteq> set sep \<union> \<Union> (set ` set xs)"
  by (induction sep xs rule: join.induct) auto

lemma hd_join: "x \<noteq> [] \<Longrightarrow> hd (join sep (x # xs)) = hd x"
  by (cases xs) simp_all

lemma join_last_nonempty: "xs \<noteq> [] \<Longrightarrow> last xs \<noteq> [] \<Longrightarrow> join sep xs \<noteq> []"
  by (induction sep xs rule: join.induct) auto

lemma last_join: "xs \<noteq> [] \<Longrightarrow> last xs \<noteq> [] \<Longrightarrow> last (join sep xs) = last (last xs)"
proof (induction sep xs rule: join.induct)
  case (3 sep x y ys)
  then have "join sep (y # ys) \<noteq> []" using join_last_nonempty [of "y # ys" sep] by simp
  with 3 show ?case by simp
qed simp_all

lemma join_nonempty: "x \<noteq> [] \<Longrightarrow> join sep (x # xs) \<noteq> []"
  by (cases xs) simp_all

lemma client_line_shape:
  "client_line c \<noteq> []" "hd (client_line c) = CHR ''C''" "last (client_line c) = CHR ''e''"
proof -
  show "client_line c \<noteq> []" by (simp add: client_line_def client_row_def)
  show "hd (client_line c) = CHR ''C''" by (simp add: client_line_def client_row_def)
  have "last (client_line c) = last (last (client_row c))"
    unfolding client_line_def by (rule last_join) (simp_all add: client_row_def bool_text_def)
  then show "last (client_line c) = CHR ''e''" by (simp add: client_row_def bool_text_def)
qed

lemma trim_client_line: "trim (client_line c) = client_line c"
  by (rule trim_id) (simp_all add: client_line_shape is_space_def)

lemma client_line_no_newline:
  assumes "client_safe c"
  shows "newline \<notin> set (client_line c)"
proof -
  have "\<forall>f \<in> set (client_row c). newline \<notin> set f"
    using assms
    by (simp add: client_row_def client_safe_def csv_safe_def quoted_def bool_text_def
          newline_def dquote_def)
  then show ?thesis
    using set_join [of "'',''" "client_row c"]
    unfolding client_line_def by (auto simp: newline_def)
qed

lemma header_no_newline: "newline \<notin> set (join '','' client_headers)"
proof -
  have "\<forall>f \<in> set client_headers. newline \<notin> set f"
    by (simp add: client_headers_def newline_def)
  then show ?thesis using set_join [of "'',''" client_headers] by (auto simp: newline_def)
qed

lemma length_client_cells: "length (client_cells c) = 18"
  by (simp add: client_cells_def)

lemma import_client_line_row:
  assumes "client_safe c"
  shows "import_client_line e (client_line c) s = addClient e (reimported c) s"
proof -
  have "length (parseCSVLine (client_line c)) = 18"
    unfolding client_line_def parse_client_row [OF assms] by (simp add: length_client_cells)
  moreover have "client_of_values (parseCSVLine (client_line c)) = reimported c"
    unfolding client_line_def by (rule client_of_row [OF assms])
  ultimately show ?thesis
    using client_line_shape(1) [of c]
    by (simp add: import_client_line_def trim_client_line Let_def)
qed

lemma addClient_fields [simp]:
  "clients (addClient e cd s) = cd\<lparr>c_id := new_id e (id_calls s), c_created_at := now_iso e\<rparr> # clients s"
  "id_calls (addClient e cd s) = Suc (id_calls s)"
  "projects (addClient e cd s) = projects s"
  "transactions (addClient e cd s) = transactions s"
  "products (addClient e cd s) = products s"
  "stockMovements (addClient e cd s) = stockMovements s"
  by (simp_all add: addClient_def generateId_def)

lemma import_rows:
  assumes "\<forall>c \<in> set cs. client_safe c"
  shows "clients (fold (import_client_line e) (map client_line cs) s) =
           rev (stamp_clients e (id_calls s) (map reimported cs)) @ clients s"
  using assms
proof (induction cs arbitrary: s)
  case Nil
  then show ?case by simp
next
  case (Cons c cs)
  then show ?case by (simp add: import_client_line_row)
qed

lemma export_lines:
  assumes "\<forall>c \<in> set (clients s0). client_safe c"
  shows "split_lines (exportClientsCSV s0) = join '','' client_headers # map client_line (clients s0)"
proof -
  have "exportClientsCSV s0 = join [newline] (join '','' client_headers # map client_line (clients s0))"
    by (simp add: exportClientsCSV_def client_line_def [abs_def])
  moreover have "\<forall>l \<in> set (join '','' client_headers # map client_line (clients s0)). newline \<notin> set l"
    using assms header_no_newline client_line_no_newline by auto
  ultimately show ?thesis by (simp add: split_lines_join)
qed

lemma clients_roundtrip:
  assumes "\<forall>c \<in> set (clients s0). client_safe c"
  shows "clients (importClientsCSV e (exportClientsCSV s0) s) =
           rev (stamp_clients e (id_calls s) (map reimported (clients s0))) @ clients s"
  using assms by (simp add: importClientsCSV_def export_lines import_rows)

lemma product_of_values_components [simp]: "p_components (product_of_values pf vs) = []"
  by (simp add: product_of_values_def)

lemma import_product_line_result:
  "\<exists>s'. import_product_line fuel pf e raw s = Some (Inr s') \<and>
        (\<exists>new. products s' = new @ products s \<and> (\<forall>p \<in> set new. p_components p = []))"
proof -
  have "addProduct fuel e (product_of_values pf vs) s =
          Some (Inr (insertProduct e (product_of_values pf vs) s))" for vs
    by (simp add: addProduct_def)
  moreover have "\<exists>new. products (insertProduct e (product_of_values pf vs) s) = new @ products s \<and>
      (\<forall>p \<in> set new. p_components p = [])" for vs
    by (rule exI [of _ "[(product_of_values pf vs)\<lparr>p_id := new_id e (id_calls s), p_created_at := now_iso e\<rparr>]"]) simp
  ultimately show ?thesis
    by (auto simp: import_product_line_def Let_def)
qed

lemma import_products_loop_result:
  "\<exists>s'. import_products_loop fuel pf e raws s = Some (Inr s') \<and>
        (\<exists>new. products s' = new @ products s \<and> (\<forall>p \<in> set new. p_components p = []))"
proof (induction raws arbitrary: s)
  case Nil
  then show ?case by simp
next
  case (Cons raw raws)
  from import_product_line_result [of fuel pf e raw s] obtain s1 new1
    where 1: "import_product_line fuel pf e raw s = Some (Inr s1)"
      and n1: "products s1 = new1 @ products s" "\<forall>p \<in> set new1. p_components p = []" by blast
  from Cons.IH [of s1] obtain s2 new2
    where 2: "import_products_loop fuel pf e raws s1 = Some (Inr s2)"
      and n2: "products s2 = new2 @ products s1" "\<forall>p \<in> set new2. p_components p = []" by blast
  have "import_products_loop fuel pf e (raw # raws) s = Some (Inr s2)" using 1 2 by simp
  moreover have "products s2 = (new2 @ new1) @ products s" using n1 n2 by simp
  moreover have "\<forall>p \<in> set (new2 @ new1). p_components p = []" using n1 n2 by auto
  ultimately show ?case by blast
qed

lemma importProductsCSV_components:
  "\<exists>s'. importProductsCSV fuel pf e text s = Some (Inr s') \<and>
        (\<exists>new. products s' = new @ products s \<and> (\<forall>p \<in> set new. p_components p = []))"
  unfolding importProductsCSV_def by (rule import_products_loop_result)

lemma demo_safe: "client_safe demo_client"
  by (simp add: client_safe_def csv_safe_def demo_client_def template_def or_empty_def dquote_def newline_def)

lemma trim_examples:
  "trim ''Joao Silva'' = ''Joao Silva''" "trim ''Rua Exemplo'' = ''Rua Exemplo''"
  by (simp_all add: trim_def is_space_def)

lemma split_products_text:
  "split_lines products_text = [''id,nome'', ''x,Tampo,,Partes,parte_produto,UN,0,400,10,2,Madeira:2'']"
  by (simp add: products_text_def newline_def)

lemma parse_products_line:
  "parseCSVLine ''x,Tampo,,Partes,parte_produto,UN,0,400,10,2,Madeira:2'' =
     [''x'', ''Tampo'', [], ''Partes'', ''parte_produto'', ''UN'', ''0'', ''400'', ''10'', ''2'', ''Madeira:2'']"
  by (simp add: parseCSVLine_def dquote_def trim_def is_space_def)

lemma trim_products_line:
  "trim ''x,Tampo,,Partes,parte_produto,UN,0,400,10,2,Madeira:2'' = ''x,Tampo,,Partes,parte_produto,UN,0,400,10,2,Madeira:2''"
  by (simp add: trim_def is_space_def)

lemma trim_demo:
  "trim ''Joao Silva'' = ''Joao Silva''" "trim ''Rua Exemplo'' = ''Rua Exemplo''"
  "trim ''(11) 3333-4444'' = ''(11) 3333-4444''"  "trim ''(11) 98888-7777'' = ''(11) 98888-7777''"
  "trim ''01310-100'' = ''01310-100''" "trim ''Sao Paulo'' = ''Sao Paulo''" "trim ''joao@email.com'' = ''joao@email.com''"
  "trim ''123.456.789-00'' = ''123.456.789-00''" "trim ''Centro'' = ''Centro''" "trim [] = []"
  by (simp_all add: trim_def is_space_def)

lemma reimported_demo: "reimported demo_client = demo_client\<lparr>c_id := [], c_isento_icms := Some False, c_created_at := [],
    c_address := (c_address demo_client)\<lparr>state := [], street := ''Rua Exemplo''\<rparr>\<rparr>"
  by (simp add: reimported_def demo_client_def trim_demo template_def or_empty_def nonempty_def)


lemma line_of_shape:
  assumes "cells \<noteq> []" and "render (hd cells) \<noteq> []" and "render (last cells) \<noteq> []"
  shows "line_of cells \<noteq> []"
    and "hd (line_of cells) = hd (render (hd cells))"
    and "last (line_of cells) = last (render (last cells))"
proof -
  from assms(1) obtain c cs where cells: "cells = c # cs" by (cases cells) auto
  with assms(2) show "line_of cells \<noteq> []" by (simp add: line_of_def join_nonempty)
  from cells assms(2) show "hd (line_of cells) = hd (render (hd cells))"
    by (simp add: line_of_def hd_join)
  have "last (map render cells) = render (last cells)" using assms(1) by (simp add: last_map)
  then show "last (line_of cells) = last (render (last cells))"
    unfolding line_of_def using last_join [of "map render cells" "'',''"] assms(1,3) by simp
qed

lemma trim_line_of:
  assumes "cells \<noteq> []" and "render (hd cells) \<noteq> []" and "render (last cells) \<noteq> []"
    and "\<not> is_space (hd (render (hd cells)))" and "\<not> is_space (last (render (last cells)))"
  shows "trim (line_of cells) = line_of cells"
  using assms by (intro trim_id) (simp_all add: line_of_shape)

lemma parse_line_of:
  "list_all cell_ok cells \<Longrightarrow> cells \<noteq> [] \<Longrightarrow>
   parseCSVLine (line_of cells) = map (\<lambda>c. trim (content c)) cells"
  unfolding line_of_def by (rule parseCSVLine_cells)

lemma line_of_no_newline:
  assumes "\<forall>c \<in> set cells. newline \<notin> set (render c)"
  shows "newline \<notin> set (line_of cells)"
  using assms set_join [of "'',''" "map render cells"]
  unfolding line_of_def by (auto simp: newline_def)

lemma quoted_shape [simp]:
  "quoted s \<noteq> []" "hd (quoted s) = dquote" "last (quoted s) = dquote"
  "set (quoted s) = insert dquote (set s)"
  by (simp_all add: quoted_def)

lemma dquote_not_space [simp]: "\<not> is_space dquote"
  by (simp add: is_space_def dquote_def)

lemma newline_not_dquote [simp]: "newline \<noteq> dquote" "dquote \<noteq> newline"
  by (simp_all add: dquote_def newline_def)

lemma number_ok_trim: "number_ok ts pf x \<Longrightarrow> trim (ts x) = ts x"
  by (rule trim_id) (simp_all add: number_ok_def)

lemma headers_no_newline:
  "newline \<notin> set (join '','' transaction_headers)"
  "newline \<notin> set (join '','' product_headers)"
  "newline \<notin> set (join '','' project_headers)"
  by (simp_all add: transaction_headers_def product_headers_def project_headers_def newline_def)

lemma transaction_row_cells:
  "join '','' (transaction_row ts t) = line_of (transaction_cells ts t)"
  by (simp add: transaction_row_def transaction_cells_def line_of_def)

lemma transaction_cells_ok:
  "transaction_safe ts pf t \<Longrightarrow> list_all cell_ok (transaction_cells ts t)"
  by (simp add: transaction_safe_def transaction_cells_def csv_safe_def number_ok_def)

lemma transaction_line_facts:
  assumes "transaction_safe ts pf t"
  shows "trim (line_of (transaction_cells ts t)) = line_of (transaction_cells ts t)"
    and "line_of (transaction_cells ts t) \<noteq> []"
    and "newline \<notin> set (line_of (transaction_cells ts t))"
    and "parseCSVLine (line_of (transaction_cells ts t)) =
           map (\<lambda>c. trim (content c)) (transaction_cells ts t)"
proof -
  show "trim (line_of (transaction_cells ts t)) = line_of (transaction_cells ts t)"
    by (rule trim_line_of) (simp_all add: transaction_cells_def)
  show "line_of (transaction_cells ts t) \<noteq> []"
    by (rule line_of_shape) (simp_all add: transaction_cells_def)
  show "newline \<notin> set (line_of (transaction_cells ts t))"
    using assms
    by (intro line_of_no_newline)
       (simp add: transaction_cells_def transaction_safe_def csv_safe_def number_ok_def)
  show "parseCSVLine (line_of (transaction_cells ts t)) =
           map (\<lambda>c. trim (content c)) (transaction_cells ts t)"
    by (rule parse_line_of [OF transaction_cells_ok [OF assms]]) (simp add: transaction_cells_def)
qed

lemma transaction_of_line:
  assumes "transaction_safe ts pf t"
  shows "transaction_of_values pf e (map (\<lambda>c. trim (content c)) (transaction_cells ts t)) =
           reimported_transaction e t"
  using assms number_ok_trim [of ts pf "t_amount t"]
  by (simp add: transaction_cells_def transaction_of_values_def reimported_transaction_def
        field_at_def field_or_def field_or_empty_def field_or_undefined_def nonempty_def
        or_default_def float_or_zero_def transaction_safe_def number_ok_def)

lemma import_transaction_line_row:
  assumes "transaction_safe ts pf t"
  shows "import_transaction_line pf e (line_of (transaction_cells ts t)) s =
           addTransaction e (reimported_transaction e t) s"
  using transaction_line_facts [OF assms] transaction_of_line [OF assms]
  by (simp add: import_transaction_line_def Let_def transaction_cells_def)

lemma import_transaction_rows:
  assumes "\<forall>t \<in> set txs. transaction_safe ts pf t"
  shows "transactions (fold (import_transaction_line pf e)
            (map (\<lambda>t. line_of (transaction_cells ts t)) txs) s) =
           rev (stamp_transactions e (id_calls s) (map (reimported_transaction e) txs))
             @ transactions s"
  using assms
proof (induction txs arbitrary: s)
  case Nil
  then show ?case by simp
next
  case (Cons t txs)
  then show ?case by (simp add: import_transaction_line_row)
qed

lemma transactions_roundtrip:
  assumes "\<forall>t \<in> set (transactions s0). transaction_safe ts pf t"
  shows "transactions (importTransactionsCSV pf e (exportTransactionsCSV ts s0) s) =
           rev (stamp_transactions e (id_calls s)
                  (map (reimported_transaction e) (transactions s0))) @ transactions s"
proof -
  let ?lines = "join '','' transaction_headers #
                map (\<lambda>t. line_of (transaction_cells ts t)) (transactions s0)"
  have "exportTransactionsCSV ts s0 = join [newline] ?lines"
    by (simp add: exportTransactionsCSV_def transaction_row_cells)
  moreover have "\<forall>l \<in> set ?lines. newline \<notin> set l"
    using assms headers_no_newline(1) transaction_line_facts(3) by auto
  ultimately have "split_lines (exportTransactionsCSV ts s0) = ?lines"
    by (simp add: split_lines_join)
  then show ?thesis
    using assms by (simp add: importTransactionsCSV_def import_transaction_rows)
qed

lemma product_row_cells:
  "join '','' (product_row ts p) = line_of (product_cells ts p)"
  by (simp add: product_row_def product_cells_def line_of_def)

lemma product_cells_ok:
  "product_safe ts pf p \<Longrightarrow> list_all cell_ok (product_cells ts p)"
  by (simp add: product_safe_def product_cells_def csv_safe_def number_ok_def)

lemma product_line_facts:
  assumes "product_safe ts pf p"
  shows "trim (line_of (product_cells ts p)) = line_of (product_cells ts p)"
    and "line_of (product_cells ts p) \<noteq> []"
    and "newline \<notin> set (line_of (product_cells ts p))"
    and "parseCSVLine (line_of (product_cells ts p)) =
           map (\<lambda>c. trim (content c)) (product_cells ts p)"
proof -
  show "trim (line_of (product_cells ts p)) = line_of (product_cells ts p)"
    by (rule trim_line_of) (simp_all add: product_cells_def)
  show "line_of (product_cells ts p) \<noteq> []"
    by (rule line_of_shape) (simp_all add: product_cells_def)
  show "newline \<notin> set (line_of (product_cells ts p))"
    using assms
    by (intro line_of_no_newline)
       (simp add: product_cells_def product_safe_def csv_safe_def number_ok_def)
  show "parseCSVLine (line_of (product_cells ts p)) =
           map (\<lambda>c. trim (content c)) (product_cells ts p)"
    by (rule parse_line_of [OF product_cells_ok [OF assms]]) (simp add: product_cells_def)
qed

lemma product_of_line:
  assumes "product_safe ts pf p"
  shows "product_of_values pf (map (\<lambda>c. trim (content c)) (product_cells ts p)) =
           reimported_product p"
  using assms number_ok_trim [of ts pf]
  by (simp add: product_cells_def product_of_values_def reimported_product_def
        field_at_def field_or_empty_def or_default_def float_or_zero_def
        float_or_undefined_def product_safe_def number_ok_def)

lemma addProduct_no_components:
  "p_components pd = [] \<Longrightarrow> addProduct fuel e pd s = Some (Inr (insertProduct e pd s))"
  by (simp add: addProduct_def)

lemma import_product_line_row:
  assumes "product_safe ts pf p"
  shows "import_product_line fuel pf e (line_of (product_cells ts p)) s =
           Some (Inr (insertProduct e (reimported_product p) s))"
proof -
  have "p_components (reimported_product p) = []" by (simp add: reimported_product_def)
  then show ?thesis
    using product_line_facts [OF assms] product_of_line [OF assms]
    by (simp add: import_product_line_def Let_def product_cells_def addProduct_no_components)
qed

lemma import_product_rows:
  assumes "\<forall>p \<in> set ps. product_safe ts pf p"
  shows "\<exists>s'. import_products_loop fuel pf e (map (\<lambda>p. line_of (product_cells ts p)) ps) s
                 = Some (Inr s') \<and>
              products s' = rev (stamp_products e (id_calls s) (map reimported_product ps))
                              @ products s"
  using assms
proof (induction ps arbitrary: s)
  case Nil
  then show ?case by simp
next
  case (Cons p ps)
  let ?s1 = "insertProduct e (reimported_product p) s"
  from Cons.prems have "\<forall>p \<in> set ps. product_safe ts pf p" by simp
  from Cons.IH [OF this, of ?s1] obtain s' where
    "import_products_loop fuel pf e (map (\<lambda>p. line_of (product_cells ts p)) ps) ?s1 = Some (Inr s')"
    and "products s' = rev (stamp_products e (id_calls ?s1) (map reimported_product ps))
                              @ products ?s1" by blast
  with Cons.prems show ?case by (simp add: import_product_line_row)
qed

lemma products_roundtrip:
  assumes "\<forall>p \<in> set (products s0). product_safe ts pf p"
  shows "\<exists>s'. importProductsCSV fuel pf e (exportProductsCSV ts s0) s = Some (Inr s') \<and>
              products s' = rev (stamp_products e (id_calls s)
                                   (map reimported_product (products s0))) @ products s"
proof -
  let ?lines = "join '','' product_headers #
                map (\<lambda>p. line_of (product_cells ts p)) (products s0)"
  have "exportProductsCSV ts s0 = join [newline] ?lines"
    by (simp add: exportProductsCSV_def product_row_cells)
  moreover have "\<forall>l \<in> set ?lines. newline \<notin> set l"
    using assms headers_no_newline(2) product_line_facts(3) by auto
  ultimately have "split_lines (exportProductsCSV ts s0) = ?lines"
    by (simp add: split_lines_join)
  then show ?thesis
    using import_product_rows [OF assms] by (simp add: importProductsCSV_def)
qed


lemma digit_in_table: "k < 10 \<Longrightarrow> ''0123456789'' ! k \<in> set ''0123456789''"
  by (rule nth_mem) simp

lemma single_in: "a \<in> T \<Longrightarrow> [a] \<noteq> [] \<and> set [a] \<subseteq> T"
  by simp

lemma snoc_in: "a \<in> T \<Longrightarrow> set xs \<subseteq> T \<Longrightarrow> xs @ [a] \<noteq> [] \<and> set (xs @ [a]) \<subseteq> T"
  by simp

lemma string_of_nat_digits:
  "string_of_nat n \<noteq> [] \<and> set (string_of_nat n) \<subseteq> set ''0123456789''"
proof (induction n rule: string_of_nat.induct)
  case (1 n)
  show ?case
  proof (cases "n < 10")
    case True
    then have eq: "string_of_nat n = [''0123456789'' ! n]"
      by (subst string_of_nat.simps) simp
    from True have "''0123456789'' ! n \<in> set ''0123456789''" by (rule digit_in_table)
    then show ?thesis unfolding eq by (rule single_in)
  next
    case False
    then have eq: "string_of_nat n = string_of_nat (n div 10) @ [''0123456789'' ! (n mod 10)]"
      by (subst string_of_nat.simps) simp
    have "''0123456789'' ! (n mod 10) \<in> set ''0123456789''" by (rule digit_in_table) simp
    moreover from False have "set (string_of_nat (n div 10)) \<subseteq> set ''0123456789''"
      using 1 by simp
    ultimately show ?thesis unfolding eq by (rule snoc_in)
  qed
qed

lemma string_of_int_chars:
  "string_of_int i \<noteq> []" "set (string_of_int i) \<subseteq> set ''-0123456789''"
proof -
  have sub: "set (string_of_nat k) \<subseteq> set ''-0123456789''" for k
  proof -
    have "set (string_of_nat k) \<subseteq> set ''0123456789''"
      using string_of_nat_digits [of k] by (rule conjunct2)
    also have "\<dots> \<subseteq> set ''-0123456789''" by (simp only: list.set(2)) (rule subset_insertI)
    finally show ?thesis .
  qed
  have ne: "string_of_nat k \<noteq> []" for k
    using string_of_nat_digits [of k] by (rule conjunct1)
  show "string_of_int i \<noteq> []"
    using ne by (simp add: string_of_int_def)
  show "set (string_of_int i) \<subseteq> set ''-0123456789''"
  proof (cases "i < 0")
    case True
    then have eq: "string_of_int i = CHR ''-'' # string_of_nat (nat (- i))"
      by (simp add: string_of_int_def)
    have "CHR ''-'' \<in> set ''-0123456789''" by (simp only: list.set(2) insertI1)
    with sub [of "nat (- i)"] show ?thesis unfolding eq by (simp only: list.set(2) insert_subset)
  next
    case False
    then have eq: "string_of_int i = string_of_nat (nat i)" by (simp add: string_of_int_def)
    show ?thesis unfolding eq by (rule sub)
  qed
qed

lemma plain_table:
  "list_all (\<lambda>c. c \<noteq> dquote \<and> c \<noteq> CHR '','' \<and> c \<noteq> newline \<and> \<not> is_space c) ''-0123456789''"
  by (simp add: dquote_def newline_def is_space_def)

lemma plain_chars:
  assumes "c \<in> set (string_of_int i)"
  shows "c \<noteq> dquote" "c \<noteq> CHR '',''" "c \<noteq> newline" "\<not> is_space c"
proof -
  from assms string_of_int_chars(2) have "c \<in> set ''-0123456789''" by (rule subsetD [rotated])
  with plain_table have "c \<noteq> dquote \<and> c \<noteq> CHR '','' \<and> c \<noteq> newline \<and> \<not> is_space c"
    unfolding list_all_iff by (rule bspec)
  then show "c \<noteq> dquote" "c \<noteq> CHR '',''" "c \<noteq> newline" "\<not> is_space c" by blast+
qed

lemma string_of_int_plain:
  "dquote \<notin> set (string_of_int i)" "CHR '','' \<notin> set (string_of_int i)"
  "newline \<notin> set (string_of_int i)" "\<not> is_space (hd (string_of_int i))"
proof -
  show "dquote \<notin> set (string_of_int i)" using plain_chars(1) by blast
  show "CHR '','' \<notin> set (string_of_int i)" using plain_chars(2) by blast
  show "newline \<notin> set (string_of_int i)" using plain_chars(3) by blast
  have "hd (string_of_int i) \<in> set (string_of_int i)"
    using string_of_int_chars(1) by (rule hd_in_set)
  then show "\<not> is_space (hd (string_of_int i))" by (rule plain_chars(4))
qed

lemma project_row_cells:
  "join '','' (project_row ts p) = line_of (project_cells ts p)"
  by (simp add: project_row_def project_cells_def line_of_def)

lemma project_cells_ok:
  "project_safe ts pf p \<Longrightarrow> list_all cell_ok (project_cells ts p)"
  by (simp add: project_safe_def project_cells_def csv_safe_def number_ok_def
        string_of_int_plain)

lemma project_line_facts:
  assumes "project_safe ts pf p"
  shows "trim (line_of (project_cells ts p)) = line_of (project_cells ts p)"
    and "line_of (project_cells ts p) \<noteq> []"
    and "newline \<notin> set (line_of (project_cells ts p))"
    and "parseCSVLine (line_of (project_cells ts p)) =
           map (\<lambda>c. trim (content c)) (project_cells ts p)"
proof -
  have margin: "number_ok ts pf (or_zero (pr_profit_margin p))"
    using assms by (simp add: project_safe_def)
  show "trim (line_of (project_cells ts p)) = line_of (project_cells ts p)"
    using margin
    by (intro trim_line_of)
       (simp_all add: project_cells_def string_of_int_chars(1) string_of_int_plain number_ok_def)
  show "line_of (project_cells ts p) \<noteq> []"
    using margin
    by (intro line_of_shape)
       (simp_all add: project_cells_def string_of_int_chars(1) number_ok_def)
  show "newline \<notin> set (line_of (project_cells ts p))"
    using assms
    by (intro line_of_no_newline)
       (simp add: project_cells_def project_safe_def csv_safe_def number_ok_def
          string_of_int_plain)
  show "parseCSVLine (line_of (project_cells ts p)) =
           map (\<lambda>c. trim (content c)) (project_cells ts p)"
    by (rule parse_line_of [OF project_cells_ok [OF assms]]) (simp add: project_cells_def)
qed

lemma project_of_line:
  assumes "project_safe ts pf p"
  shows "project_of_values pf e cl (map (\<lambda>c. trim (content c)) (project_cells ts p)) =
           reimported_project e 0 cl p"
  using assms number_ok_trim [of ts pf]
  by (simp add: project_cells_def project_of_values_def reimported_project_def
        field_at_def field_or_def field_or_empty_def or_default_def float_or_zero_def
        float_or_def project_safe_def number_ok_def)

lemma import_project_line_row:
  assumes "project_safe ts pf p"
  shows "import_project_line pf e known seen catalog (line_of (project_cells ts p)) s =
           (case find (\<lambda>c. c_name c = trim (template (pr_client_name p))) known of
              None \<Rightarrow> s
            | Some cl \<Rightarrow> addProject_in e seen catalog (reimported_project e 0 cl p) s)"
proof -
  define vs where "vs = map (\<lambda>c. trim (content c)) (project_cells ts p)"
  have name: "field_at vs (Suc 0) = Some (trim (template (pr_client_name p)))"
    by (simp add: vs_def project_cells_def field_at_def)
  have len: "length vs = 12" by (simp add: vs_def project_cells_def)
  have parse: "parseCSVLine (line_of (project_cells ts p)) = vs"
    unfolding vs_def by (rule project_line_facts(4) [OF assms])
  have pov: "project_of_values pf e cl vs = reimported_project e 0 cl p" for cl
    unfolding vs_def by (rule project_of_line [OF assms])
  show ?thesis
    by (simp add: import_project_line_def Let_def project_line_facts(1,2) [OF assms]
          parse len name pov cong: option.case_cong)
qed

lemma addProject_in_id_calls:
  "pr_products pd = [] \<Longrightarrow>
   id_calls (addProject_in e seen catalog pd s) =
     id_calls s + (if pr_type pd = venda \<and> pr_status pd \<noteq> orcamento then 2 else 1)"
  by (simp add: addProject_in_def generateId_def Let_def)

lemma reimported_project_products: "pr_products (reimported_project e n cl p) = []"
  by (simp add: reimported_project_def)

lemma reimported_project_emits:
  "(pr_type (reimported_project e 0 cl p) = venda \<and>
    pr_status (reimported_project e 0 cl p) \<noteq> orcamento) =
   (pr_type (reimported_project e n cl p) = venda \<and>
    pr_status (reimported_project e n cl p) \<noteq> orcamento)"
  by (simp add: reimported_project_def)

lemma reimported_project_number:
  "(reimported_project e 0 cl p)\<lparr>pr_id := i, pr_number := n, pr_created_at := t\<rparr> =
     (reimported_project e n cl p)\<lparr>pr_id := i, pr_created_at := t\<rparr>"
  by (simp add: reimported_project_def)

lemma import_project_rows:
  assumes "\<forall>p \<in> set ps. project_safe ts pf p"
  shows "projects (fold (import_project_line pf e known seen catalog)
            (map (\<lambda>p. line_of (project_cells ts p)) ps) s) =
           rev (stamp_projects e (id_calls s) (reimport_projects e known (nextNumber seen) ps))
             @ projects s"
  using assms
proof (induction ps arbitrary: s)
  case Nil
  then show ?case by (simp add: reimport_projects_def)
next
  case (Cons p ps)
  from Cons.prems have safe: "project_safe ts pf p" and rest: "\<forall>p \<in> set ps. project_safe ts pf p"
    by simp_all
  show ?case
  proof (cases "find (\<lambda>c. c_name c = trim (template (pr_client_name p))) known")
    case None
    then show ?thesis
      using Cons.IH [OF rest, of s]
      by (simp add: import_project_line_row [OF safe] reimport_projects_def)
  next
    case (Some cl)
    let ?s1 = "addProject_in e seen catalog (reimported_project e 0 cl p) s"
    have "projects ?s1 =
        (reimported_project e (nextNumber seen) cl p)\<lparr>pr_id := new_id e (id_calls s),
            pr_created_at := now_iso e\<rparr> # projects s"
      by (simp add: addProject_in_projects reimported_project_number)
    moreover have "id_calls ?s1 = id_calls s +
        (if pr_type (reimported_project e (nextNumber seen) cl p) = venda \<and>
            pr_status (reimported_project e (nextNumber seen) cl p) \<noteq> orcamento then 2 else 1)"
      using addProject_in_id_calls [of "reimported_project e 0 cl p" e seen catalog s]
        reimported_project_emits [of e cl p "nextNumber seen"]
      by (simp add: reimported_project_products)
    ultimately show ?thesis
      using Some Cons.IH [OF rest, of ?s1]
      by (simp add: import_project_line_row [OF safe] reimport_projects_def)
  qed
qed

lemma projects_roundtrip:
  assumes "\<forall>p \<in> set (projects s0). project_safe ts pf p"
  shows "projects (importProjectsCSV pf e (exportProjectsCSV ts s0) s) =
           rev (stamp_projects e (id_calls s)
                  (reimport_projects e (clients s) (nextNumber (projects s)) (projects s0)))
             @ projects s"
proof -
  let ?lines = "join '','' project_headers #
                map (\<lambda>p. line_of (project_cells ts p)) (projects s0)"
  have "exportProjectsCSV ts s0 = join [newline] ?lines"
    by (simp add: exportProjectsCSV_def project_row_cells)
  moreover have "\<forall>l \<in> set ?lines. newline \<notin> set l"
    using assms headers_no_newline(3) project_line_facts(3) by auto
  ultimately have "split_lines (exportProjectsCSV ts s0) = ?lines"
    by (simp add: split_lines_join)
  then show ?thesis
    using assms by (simp add: importProjectsCSV_def import_project_rows)
qed
lemma demo_number_ok:
  "number_ok demo_toString demo_parseFloat 0" "number_ok demo_toString demo_parseFloat 2"
  "number_ok demo_toString demo_parseFloat 10" "number_ok demo_toString demo_parseFloat 100"
  "number_ok demo_toString demo_parseFloat 400" "number_ok demo_toString demo_parseFloat 1000"
  by (simp_all add: number_ok_def demo_toString_def demo_parseFloat_def demo_numbers_def
        is_space_def dquote_def newline_def)

lemma sale_safe: "transaction_safe demo_toString demo_parseFloat last_year_sale"
  by (simp add: transaction_safe_def csv_safe_def last_year_sale_def or_empty_def
        dquote_def newline_def demo_number_ok)

lemma prodB_safe: "product_safe demo_toString demo_parseFloat prodB"
  by (simp add: product_safe_def csv_safe_def prodB_def or_zero_def components_text_def
        demo_number_ok) (simp add: demo_toString_def demo_numbers_def dquote_def newline_def)

lemma quote_safe:
  "project_safe demo_toString demo_parseFloat (quote_project\<lparr>pr_id := i, pr_number := n, pr_created_at := t\<rparr>)"
  by (simp add: project_safe_def csv_safe_def quote_project_def or_zero_def template_def
        dquote_def newline_def demo_number_ok)

lemma trim_more:
  "trim ''Ana'' = ''Ana''" "trim ''Mesa'' = ''Mesa''" "trim ''orcamento'' = ''orcamento''"
  "trim ''2026-11-02'' = ''2026-11-02''" "trim ''2026-12-02'' = ''2026-12-02''"
  "trim ''entrada'' = ''entrada''" "trim ''Sinal'' = ''Sinal''" "trim ''2025-11-10'' = ''2025-11-10''"
  "trim ''Tampo'' = ''Tampo''" "trim ''Partes'' = ''Partes''" "trim ''parte_produto'' = ''parte_produto''"
  "trim ''UN'' = ''UN''" "trim [] = []"
  by (simp_all add: trim_def is_space_def)


text \<open>
  The number of an imported project is the one \<^verbatim>\<open>addProject\<close> gives it; the rest of
  the record does not depend on it.
\<close>

lemma stamp_projects_number:
  "map (\<lambda>p. p\<lparr>pr_number := m\<rparr>) (stamp_projects e k ps) =
     stamp_projects e k (map (\<lambda>p. p\<lparr>pr_number := m\<rparr>) ps)"
  by (induction ps arbitrary: k) simp_all

lemma reimport_projects_number:
  "map (\<lambda>p. p\<lparr>pr_number := m\<rparr>) (reimport_projects e known n ps) =
     reimport_projects e known m ps"
proof (induction ps)
  case Nil
  then show ?case by (simp add: reimport_projects_def)
next
  case (Cons p ps)
  then show ?case
    by (cases "find (\<lambda>c. c_name c = trim (template (pr_client_name p))) known")
       (simp_all add: reimport_projects_def reimported_project_def)
qed

lemma projects_roundtrip_unnumbered:
  assumes "\<forall>p \<in> set (projects s0). project_safe ts pf p"
  shows "\<exists>new. projects (importProjectsCSV pf e (exportProjectsCSV ts s0) s) = new @ projects s \<and>
           map (\<lambda>p. p\<lparr>pr_number := 0\<rparr>) new =
             rev (stamp_projects e (id_calls s) (reimport_projects e (clients s) 0 (projects s0)))"
proof -
  let ?new = "rev (stamp_projects e (id_calls s)
                  (reimport_projects e (clients s) (nextNumber (projects s)) (projects s0)))"
  have "projects (importProjectsCSV pf e (exportProjectsCSV ts s0) s) = ?new @ projects s"
    using assms by (rule projects_roundtrip)
  moreover have "map (\<lambda>p. p\<lparr>pr_number := 0\<rparr>) ?new =
      rev (stamp_projects e (id_calls s) (reimport_projects e (clients s) 0 (projects s0)))"
    by (simp add: rev_map [symmetric] stamp_projects_number reimport_projects_number)
  ultimately show ?thesis by blast
qed

text \<open>
  What is missing in a record is written by the export as the text \<^verbatim>\<open>undefined\<close> (a
  tax number, a client name) or as 0 (an optional number), and read back as that.
\<close>

lemma reimported_missing:
  "c_type c \<noteq> ''pj'' \<Longrightarrow> c_cpf c = None \<Longrightarrow> c_cpf (reimported c) = Some ''undefined''"
  "c_type c = ''pj'' \<Longrightarrow> c_cnpj c = None \<Longrightarrow> c_cnpj (reimported c) = Some ''undefined''"
  "c_isento_icms c = None \<Longrightarrow> c_isento_icms (reimported c) = Some False"
  "pr_client_name p = None \<Longrightarrow>
     pr_client_name (reimported_project e n cl p) = Some ''undefined''"
  "pr_materials_cost p = None \<Longrightarrow> pr_materials_cost (reimported_project e n cl p) = Some 0"
  "pr_labor_cost p = None \<Longrightarrow> pr_labor_cost (reimported_project e n cl p) = Some 0"
  "pr_profit_margin p = None \<Longrightarrow> pr_profit_margin (reimported_project e n cl p) = Some 20"
  "p_sale_price q = None \<Longrightarrow> p_sale_price (reimported_product q) = None"
  by (simp_all add: reimported_def reimported_project_def reimported_product_def template_def
        or_zero_def trim_def is_space_def)

text \<open>
  Claim C8, as the code has it. Take a store whose records are safe: their exported
  texts hold no double quote and no line feed, and their numbers are written as plain
  texts that \<^verbatim>\<open>parseFloat\<close> reads back. Exporting a collection and importing the file
  adds, newest first, one record per exported record, with a new identifier and creation
  time and otherwise as \<open>reimported\<close> says: every text of the column mapping is the
  exported text trimmed and every number the exported number, where
  \<^item> the export writes the text \<^verbatim>\<open>undefined\<close> for a missing tax number or client name
    and 0 for a missing optional number;
  \<^item> the import reads an empty optional text as undefined, an empty type, status, unit
    or date as its default, a sale price of 0 as undefined, a profit margin of 0 as 20,
    a client type other than \<^verbatim>\<open>pj\<close> as \<^verbatim>\<open>pf\<close> and a tax exemption other than
    \<^verbatim>\<open>true\<close> as \<^verbatim>\<open>false\<close>;
  \<^item> a client gets as street the exported street type and street in one, under the
    street type \<^verbatim>\<open>Rua\<close>;
  \<^item> a product gets no components;
  \<^item> a project does not get its number from the file (the statement leaves the number
    of an imported project open), and no record at all is added when no stored client
    has the exported client name.
  Whatever the file, every product \<^verbatim>\<open>importProductsCSV\<close> adds has no components.
\<close>

theorem C8_csv_roundtrip:
  "((\<forall>c \<in> set (clients s0). client_safe c) \<longrightarrow>
      clients (importClientsCSV e (exportClientsCSV s0) s) =
        rev (stamp_clients e (id_calls s) (map reimported (clients s0))) @ clients s)
   \<and> ((\<forall>p \<in> set (products s0). product_safe toString parseFloat p) \<longrightarrow>
        (\<exists>s'. importProductsCSV fuel parseFloat e (exportProductsCSV toString s0) s =
                 Some (Inr s') \<and>
              products s' =
                rev (stamp_products e (id_calls s) (map reimported_product (products s0)))
                  @ products s))
   \<and> ((\<forall>p \<in> set (projects s0). project_safe toString parseFloat p) \<longrightarrow>
        (\<exists>new. projects (importProjectsCSV parseFloat e (exportProjectsCSV toString s0) s) =
                  new @ projects s \<and>
               map (\<lambda>p. p\<lparr>pr_number := 0\<rparr>) new =
                 rev (stamp_projects e (id_calls s)
                        (reimport_projects e (clients s) 0 (projects s0)))))
   \<and> ((\<forall>t \<in> set (transactions s0). transaction_safe toString parseFloat t) \<longrightarrow>
        transactions (importTransactionsCSV parseFloat e (exportTransactionsCSV toString s0) s) =
          rev (stamp_transactions e (id_calls s)
                 (map (reimported_transaction e) (transactions s0))) @ transactions s)
   \<and> (\<exists>s'. importProductsCSV fuel parseFloat e text s = Some (Inr s') \<and>
          (\<exists>new. products s' = new @ products s \<and> (\<forall>p \<in> set new. p_components p = [])))"
proof (intro conjI impI)
  assume "\<forall>c \<in> set (clients s0). client_safe c"
  then show "clients (importClientsCSV e (exportClientsCSV s0) s) =
        rev (stamp_clients e (id_calls s) (map reimported (clients s0))) @ clients s"
    by (rule clients_roundtrip)
next
  assume "\<forall>p \<in> set (products s0). product_safe toString parseFloat p"
  then show "\<exists>s'. importProductsCSV fuel parseFloat e (exportProductsCSV toString s0) s =
                 Some (Inr s') \<and>
              products s' =
                rev (stamp_products e (id_calls s) (map reimported_product (products s0)))
                  @ products s"
    by (rule products_roundtrip)
next
  assume "\<forall>p \<in> set (projects s0). project_safe toString parseFloat p"
  then show "\<exists>new. projects (importProjectsCSV parseFloat e (exportProjectsCSV toString s0) s) =
                  new @ projects s \<and>
               map (\<lambda>p. p\<lparr>pr_number := 0\<rparr>) new =
                 rev (stamp_projects e (id_calls s)
                        (reimport_projects e (clients s) 0 (projects s0)))"
    by (rule projects_roundtrip_unnumbered)
next
  assume "\<forall>t \<in> set (transactions s0). transaction_safe toString parseFloat t"
  then show "transactions (importTransactionsCSV parseFloat e
                 (exportTransactionsCSV toString s0) s) =
          rev (stamp_transactions e (id_calls s)
                 (map (reimported_transaction e) (transactions s0))) @ transactions s"
    by (rule transactions_roundtrip)
next
  show "\<exists>s'. importProductsCSV fuel parseFloat e text s = Some (Inr s') \<and>
          (\<exists>new. products s' = new @ products s \<and> (\<forall>p \<in> set new. p_components p = []))"
    by (rule importProductsCSV_components)
qed

text \<open>
  The demonstration client, the part \<open>B\<close>, two quotes and an inflow, each exported
  and imported into a store that holds only a client named \<open>Ana\<close>.
\<close>

theorem C8_csv_roundtrip_witness:
  "client_safe demo_client
   \<and> product_safe demo_toString demo_parseFloat prodB
   \<and> transaction_safe demo_toString demo_parseFloat last_year_sale
   \<and> list_all (project_safe demo_toString demo_parseFloat) (projects two_projects)
   \<and> clients (importClientsCSV env0 (exportClientsCSV demo_state) empty_state) =
       [demo_client\<lparr>c_id := ''id-0'', c_isento_icms := Some False,
                    c_created_at := now_iso env0,
                    c_address := (c_address demo_client)\<lparr>state := [],
                                                         street := ''Rua Exemplo''\<rparr>\<rparr>]
   \<and> (\<exists>s'. importProductsCSV 0 demo_parseFloat env0
               (exportProductsCSV demo_toString parts_state) empty_state = Some (Inr s') \<and>
             products s' = [prodB\<lparr>p_id := ''id-0'', p_components := [], p_cost_price := 0,
                                  p_created_at := now_iso env0\<rparr>])
   \<and> map (\<lambda>p. (pr_id p, pr_client_name p, pr_title p, pr_budget p, pr_profit_margin p))
         (projects (importProjectsCSV demo_parseFloat env0
            (exportProjectsCSV demo_toString two_projects) ana_state)) =
       [(''id-1'', Some ''Ana'', ''Mesa'', 1000, Some 20),
        (''id-0'', Some ''Ana'', ''Mesa'', 1000, Some 20)]
   \<and> transactions (importTransactionsCSV demo_parseFloat env0
         (exportTransactionsCSV demo_toString sales_state) empty_state) =
       [last_year_sale\<lparr>t_id := ''id-0'', t_created_at := now_iso env0\<rparr>]
   \<and> map (\<lambda>p. (p_name p, p_type p, p_components p))
         (products (case importProductsCSV 0 (\<lambda>_. None) env0 products_text empty_state of
                      Some (Inr s') \<Rightarrow> s'))
       = [(''Tampo'', parte_produto, [])]"
proof -
  have cs: "\<forall>c \<in> set (clients demo_state). client_safe c"
    by (simp add: demo_state_def demo_safe)
  have ps: "\<forall>p \<in> set (products parts_state). product_safe demo_toString demo_parseFloat p"
    by (simp add: parts_state_def prodB_safe)
  have js: "\<forall>p \<in> set (projects two_projects). project_safe demo_toString demo_parseFloat p"
    by (simp add: two_projects_projects quote_safe)
  have ts: "\<forall>t \<in> set (transactions sales_state).
      transaction_safe demo_toString demo_parseFloat t"
    by (simp add: sales_state_def sale_safe)
  from C8_csv_roundtrip [where ?s0.0 = demo_state and e = env0 and s = empty_state] cs
  have "clients (importClientsCSV env0 (exportClientsCSV demo_state) empty_state) =
      rev (stamp_clients env0 (id_calls empty_state) (map reimported (clients demo_state)))
        @ clients empty_state" by blast
  then have c: "clients (importClientsCSV env0 (exportClientsCSV demo_state) empty_state) =
       [demo_client\<lparr>c_id := ''id-0'', c_isento_icms := Some False,
                    c_created_at := now_iso env0,
                    c_address := (c_address demo_client)\<lparr>state := [],
                                                         street := ''Rua Exemplo''\<rparr>\<rparr>]"
    by (simp add: demo_state_def empty_state_def reimported_demo env0_def string_of_nat.simps)
  from C8_csv_roundtrip [where ?s0.0 = parts_state and toString = demo_toString
      and parseFloat = demo_parseFloat and fuel = 0 and e = env0 and s = empty_state] ps
  have "\<exists>s'. importProductsCSV 0 demo_parseFloat env0
               (exportProductsCSV demo_toString parts_state) empty_state = Some (Inr s') \<and>
             products s' =
               rev (stamp_products env0 (id_calls empty_state)
                      (map reimported_product (products parts_state))) @ products empty_state"
    by blast
  then have p: "\<exists>s'. importProductsCSV 0 demo_parseFloat env0
               (exportProductsCSV demo_toString parts_state) empty_state = Some (Inr s') \<and>
             products s' = [prodB\<lparr>p_id := ''id-0'', p_components := [], p_cost_price := 0,
                                  p_created_at := now_iso env0\<rparr>]"
    by (simp add: parts_state_def empty_state_def reimported_product_def prodB_def
          trim_more or_default_def or_zero_def env0_def string_of_nat.simps)
  from C8_csv_roundtrip [where ?s0.0 = two_projects and toString = demo_toString
      and parseFloat = demo_parseFloat and e = env0 and s = ana_state] js
  obtain new where
    n1: "projects (importProjectsCSV demo_parseFloat env0
            (exportProjectsCSV demo_toString two_projects) ana_state) = new @ projects ana_state"
    and n2: "map (\<lambda>p. p\<lparr>pr_number := 0\<rparr>) new =
          rev (stamp_projects env0 (id_calls ana_state)
                 (reimport_projects env0 (clients ana_state) 0 (projects two_projects)))"
    by blast
  have pa: "projects ana_state = []" by (simp add: ana_state_def empty_state_def)
  have "map (\<lambda>p. (pr_id p, pr_client_name p, pr_title p, pr_budget p, pr_profit_margin p)) new =
      map (\<lambda>p. (pr_id p, pr_client_name p, pr_title p, pr_budget p, pr_profit_margin p))
        (map (\<lambda>p. p\<lparr>pr_number := 0\<rparr>) new)"
    by (simp add: comp_def)
  also have "\<dots> = [(''id-1'', Some ''Ana'', ''Mesa'', 1000, Some 20),
                   (''id-0'', Some ''Ana'', ''Mesa'', 1000, Some 20)]"
    unfolding n2
    by (simp add: two_projects_projects ana_state_def empty_state_def reimport_projects_def
          reimported_project_def quote_project_def template_def demo_client_def
          trim_more or_default_def or_zero_def env0_def string_of_nat.simps)
  finally have j: "map (\<lambda>p. (pr_id p, pr_client_name p, pr_title p, pr_budget p, pr_profit_margin p))
         (projects (importProjectsCSV demo_parseFloat env0
            (exportProjectsCSV demo_toString two_projects) ana_state)) =
       [(''id-1'', Some ''Ana'', ''Mesa'', 1000, Some 20),
        (''id-0'', Some ''Ana'', ''Mesa'', 1000, Some 20)]"
    using pa by (simp add: n1)
  from C8_csv_roundtrip [where ?s0.0 = sales_state and toString = demo_toString
      and parseFloat = demo_parseFloat and e = env0 and s = empty_state] ts
  have "transactions (importTransactionsCSV demo_parseFloat env0
         (exportTransactionsCSV demo_toString sales_state) empty_state) =
       rev (stamp_transactions env0 (id_calls empty_state)
              (map (reimported_transaction env0) (transactions sales_state)))
         @ transactions empty_state"
    by blast
  then have t: "transactions (importTransactionsCSV demo_parseFloat env0
         (exportTransactionsCSV demo_toString sales_state) empty_state) =
       [last_year_sale\<lparr>t_id := ''id-0'', t_created_at := now_iso env0\<rparr>]"
    by (simp add: sales_state_def empty_state_def reimported_transaction_def last_year_sale_def
          trim_more or_default_def nonempty_def or_empty_def env0_def string_of_nat.simps)
  have x: "map (\<lambda>p. (p_name p, p_type p, p_components p))
         (products (case importProductsCSV 0 (\<lambda>_. None) env0 products_text empty_state of
                      Some (Inr s') \<Rightarrow> s'))
       = [(''Tampo'', parte_produto, [])]"
    by (simp add: importProductsCSV_def split_products_text import_product_line_def
          trim_products_line parse_products_line addProduct_def product_of_values_def
          field_or_empty_def field_at_def empty_state_def)
  have jl: "list_all (project_safe demo_toString demo_parseFloat) (projects two_projects)"
    using js by (simp add: list_all_iff)
  from demo_safe prodB_safe sale_safe jl c p j t x show ?thesis by blast
qed

text \<open>
  The claim as stated fails. The demonstration client lives in \<open>Rua\<close> \<open>Exemplo\<close>, and
  after export and import its street is \<open>Rua Exemplo\<close>. The part \<open>B\<close> is made of two
  \<open>A\<close>, and after export and import it has no components.
\<close>

theorem C8_street_changes_counterexample:
  "map (\<lambda>c. (streetType (c_address c), street (c_address c))) (clients demo_state)
     = [(''Rua'', ''Exemplo'')]
   \<and> map (\<lambda>c. (streetType (c_address c), street (c_address c)))
       (clients (importClientsCSV env0 (exportClientsCSV demo_state) empty_state))
     = [(''Rua'', ''Rua Exemplo'')]
   \<and> map (\<lambda>p. map pc_product_id (p_components p)) (products parts_state) = [[''A'']]
   \<and> map (\<lambda>p. map pc_product_id (p_components p))
       (products (case importProductsCSV 0 demo_parseFloat env0
                        (exportProductsCSV demo_toString parts_state) empty_state of
                    Some (Inr s') \<Rightarrow> s'))
     = [[]]"
proof -
  have "\<forall>c \<in> set (clients demo_state). client_safe c" by (simp add: demo_state_def demo_safe)
  from clients_roundtrip [OF this, of env0 empty_state]
  have c: "map (\<lambda>c. (streetType (c_address c), street (c_address c)))
       (clients (importClientsCSV env0 (exportClientsCSV demo_state) empty_state))
     = [(''Rua'', ''Rua Exemplo'')]"
    by (simp add: demo_state_def empty_state_def reimported_demo) (simp add: demo_client_def)
  have "\<forall>p \<in> set (products parts_state). product_safe demo_toString demo_parseFloat p"
    by (simp add: parts_state_def prodB_safe)
  from products_roundtrip [OF this, of 0 env0 empty_state]
  have p: "map (\<lambda>p. map pc_product_id (p_components p))
       (products (case importProductsCSV 0 demo_parseFloat env0
                        (exportProductsCSV demo_toString parts_state) empty_state of
                    Some (Inr s') \<Rightarrow> s'))
     = [[]]"
    by (auto simp: parts_state_def empty_state_def reimported_product_def)
  have "map (\<lambda>c. (streetType (c_address c), street (c_address c))) (clients demo_state)
     = [(''Rua'', ''Exemplo'')]"
    by (simp add: demo_state_def empty_state_def demo_client_def)
  moreover have "map (\<lambda>p. map pc_product_id (p_components p)) (products parts_state) = [[''A'']]"
    by (simp add: parts_state_def empty_state_def prodB_def)
  ultimately show ?thesis using c p by blast
qed

end
